(* ===== verification/BSG_Prelude.thy ===== *)
theory BSG_Prelude
  imports Main "HOL-Library.Char_ord" "HOL-Library.List_Lexorder" "HOL-Library.Multiset"
begin

text \<open>
  Shared ground of the development: the theorem collections, the string operations of the
  JavaScript library that the program uses (\<open>includes\<close>, \<open>trim\<close>, \<open>join\<close>, \<open>split\<close>,
  decimal printing), and the generic lemmas about them.

  A JavaScript string is a sequence of UTF-16 code units; the model keeps the code units below 256,
  one HOL \<open>char\<close> each, so \<open>length\<close> is JavaScript's \<open>.length\<close> and the lexicographic
  order of \<open>string\<close> is JavaScript's default sort order on such strings.
\<close>

named_theorems store_simps \<open>how the store operations act\<close>
named_theorems effect_simps \<open>how the monadic combinators and effects act\<close>
named_theorems value_simps \<open>evaluation of operations on dynamic values\<close>

section \<open>Strings\<close>

fun starts_with :: "string \<Rightarrow> string \<Rightarrow> bool" where
  "starts_with s [] = True"
| "starts_with [] (p # ps) = False"
| "starts_with (c # cs) (p # ps) = (c = p \<and> starts_with cs ps)"

text \<open>\<open>s.includes(p)\<close>\<close>

fun str_includes :: "string \<Rightarrow> string \<Rightarrow> bool" where
  "str_includes [] p = (p = [])"
| "str_includes (c # cs) p = (starts_with (c # cs) p \<or> str_includes cs p)"

text \<open>The white space that \<open>trim\<close> removes: TAB, LF, VT, FF, CR, space and NBSP.\<close>

definition js_space :: "char \<Rightarrow> bool" where
  "js_space c = (let n = (of_char c :: nat) in (9 \<le> n \<and> n \<le> 13) \<or> n = 32 \<or> n = 160)"

definition trim :: "string \<Rightarrow> string" where
  "trim s = rev (dropWhile js_space (rev (dropWhile js_space s)))"

text \<open>\<open>xs.join(sep)\<close>\<close>

fun join :: "string \<Rightarrow> string list \<Rightarrow> string" where
  "join sep [] = []"
| "join sep [x] = x"
| "join sep (x # y # ys) = x @ sep @ join sep (y # ys)"

text \<open>\<open>s.split(c)\<close> for a separator of one character: never the empty list.\<close>

fun split_on :: "char \<Rightarrow> string \<Rightarrow> string list" where
  "split_on c [] = [[]]"
| "split_on c (x # xs) =
     (if x = c then [] # split_on c xs
      else (case split_on c xs of [] \<Rightarrow> [[x]] | y # ys \<Rightarrow> (x # y) # ys))"

lemma starts_with_append [simp]: "starts_with (p @ s) p"
  by (induction p) auto

lemma starts_with_iff: "starts_with s p \<longleftrightarrow> (\<exists>t. s = p @ t)"
  by (induction s p rule: starts_with.induct) auto

lemma str_includes_iff: "str_includes s p \<longleftrightarrow> (\<exists>a b. s = a @ p @ b)"
proof (induction s)
  case Nil
  then show ?case by simp
next
  case (Cons c cs)
  show ?case
  proof
    assume "str_includes (c # cs) p"
    then consider "starts_with (c # cs) p" | "str_includes cs p" by auto
    then show "\<exists>a b. c # cs = a @ p @ b"
    proof cases
      case 1
      then obtain t where "c # cs = [] @ p @ t" by (auto simp: starts_with_iff)
      then show ?thesis by blast
    next
      case 2
      with Cons.IH obtain a b where "cs = a @ p @ b" by blast
      then have "c # cs = (c # a) @ p @ b" by simp
      then show ?thesis by blast
    qed
  next
    assume "\<exists>a b. c # cs = a @ p @ b"
    then obtain a b where ab: "c # cs = a @ p @ b" by blast
    show "str_includes (c # cs) p"
    proof (cases a)
      case Nil
      with ab have "starts_with (c # cs) p" by (simp add: starts_with_iff)
      then show ?thesis by simp
    next
      case (Cons x xs)
      with ab have "cs = xs @ p @ b" by simp
      with Cons.IH show ?thesis by auto
    qed
  qed
qed

lemma str_includes_Nil [simp]: "str_includes s []"
  by (cases s) auto

lemma str_includes_append: "str_includes (a @ p @ b) p"
  by (auto simp: str_includes_iff)

lemma length_trim: "length (trim s) \<le> length s"
proof -
  have "length (trim s) \<le> length (dropWhile js_space s)"
    unfolding trim_def by (metis length_dropWhile_le length_rev)
  also have "\<dots> \<le> length s" by (rule length_dropWhile_le)
  finally show ?thesis .
qed

lemma dropWhile_idem_rev:
  "dropWhile P (rev (dropWhile P (rev (dropWhile P s)))) = rev (dropWhile P (rev (dropWhile P s)))"
proof (cases "rev (dropWhile P (rev (dropWhile P s)))")
  case Nil
  then show ?thesis by (metis dropWhile.simps(1))
next
  case (Cons y ys)
  let ?d = "dropWhile P s"
  obtain zs where zs: "rev ?d = zs @ dropWhile P (rev ?d)"
    by (metis takeWhile_dropWhile_id)
  then have "?d = rev (dropWhile P (rev ?d)) @ rev zs"
    by (metis rev_append rev_rev_ident)
  with Cons have "?d = y # (ys @ rev zs)" by simp
  then have "\<not> P y" by (metis hd_dropWhile list.distinct(1) list.sel(1))
  with Cons show ?thesis by simp
qed

lemma trim_idem [simp]: "trim (trim s) = trim s"
proof -
  have "dropWhile js_space (trim s) = trim s"
    unfolding trim_def by (rule dropWhile_idem_rev)
  then have "trim (trim s) = rev (dropWhile js_space (rev (trim s)))"
    by (simp add: trim_def)
  then show ?thesis by (simp add: trim_def dropWhile_idem_rev)
qed

section \<open>Splitting what was joined\<close>

lemma split_on_ne [simp]: "split_on c s \<noteq> []"
  by (induction s) (auto split: list.splits)

lemma split_on_no_sep: "c \<notin> set s \<Longrightarrow> split_on c s = [s]"
  by (induction s) auto

lemma split_on_append_sep:
  "c \<notin> set a \<Longrightarrow> split_on c (a @ c # b) = a # split_on c b"
  by (induction a) auto

lemma split_on_join:
  "xs \<noteq> [] \<Longrightarrow> list_all (\<lambda>s. c \<notin> set s) xs \<Longrightarrow> split_on c (join [c] xs) = xs"
  by (induction xs rule: induct_list012) (auto simp: split_on_no_sep split_on_append_sep)

lemma join_split_on: "join [c] (split_on c s) = s"
proof (induction s)
  case Nil
  then show ?case by simp
next
  case (Cons x xs)
  obtain y ys where "split_on c xs = y # ys"
    by (cases "split_on c xs") auto
  then show ?case using Cons by (cases ys) auto
qed

lemma set_join: "set (join [c] xs) \<subseteq> insert c (\<Union> (set ` set xs))"
  by (induction xs rule: induct_list012) auto

lemma join_notin:
  "d \<noteq> c \<Longrightarrow> list_all (\<lambda>s. d \<notin> set s) xs \<Longrightarrow> d \<notin> set (join [c] xs)"
  using set_join [of c xs] by (auto simp: list_all_iff)

lemma join_eq_Nil_iff: "join [c] xs = [] \<longleftrightarrow> xs = [] \<or> xs = [[]]"
  by (cases xs rule: remdups_adj.cases) auto

section \<open>Decimal numbers\<close>

lemma char_eq_code: "(c :: char) = d \<longleftrightarrow> (of_char c :: nat) = of_char d"
  by (metis char_of_char)

definition digit_char :: "nat \<Rightarrow> char" where
  "digit_char d = char_of (48 + d)"

definition is_digit :: "char \<Rightarrow> bool" where
  "is_digit c = (let n = (of_char c :: nat) in 48 \<le> n \<and> n \<le> 57)"

definition digit_val :: "char \<Rightarrow> nat" where
  "digit_val c = of_char c - 48"

fun show_nat :: "nat \<Rightarrow> string" where
  "show_nat n = (if n < 10 then [digit_char n] else show_nat (n div 10) @ [digit_char (n mod 10)])"

declare show_nat.simps [simp del]

definition show_int :: "int \<Rightarrow> string" where
  "show_int i = (if i < 0 then CHR ''-'' # show_nat (nat (- i)) else show_nat (nat i))"

definition read_digits :: "nat \<Rightarrow> string \<Rightarrow> nat" where
  "read_digits = foldl (\<lambda>n c. 10 * n + digit_val c)"

lemma of_char_digit_char: "d < 10 \<Longrightarrow> (of_char (digit_char d) :: nat) = 48 + d"
  by (simp add: digit_char_def)

lemma is_digit_digit_char [simp]: "d < 10 \<Longrightarrow> is_digit (digit_char d)"
  by (simp add: is_digit_def of_char_digit_char)

lemma digit_val_digit_char [simp]: "d < 10 \<Longrightarrow> digit_val (digit_char d) = d"
  by (simp add: digit_val_def of_char_digit_char)

lemma read_digits_snoc: "read_digits n (s @ [c]) = 10 * read_digits n s + digit_val c"
  by (simp add: read_digits_def)

lemma show_nat_ne [simp]: "show_nat n \<noteq> []"
  by (subst show_nat.simps) simp

lemma show_nat_digits: "list_all is_digit (show_nat n)"
proof (induction n rule: show_nat.induct)
  case (1 n)
  then show ?case
    by (cases "n < 10") (auto simp: show_nat.simps [of n])
qed

lemma read_show_nat: "read_digits 0 (show_nat n) = n"
proof (induction n rule: show_nat.induct)
  case (1 n)
  show ?case
  proof (cases "n < 10")
    case True
    then show ?thesis by (simp add: show_nat.simps [of n] read_digits_def)
  next
    case False
    with "1.IH" have "read_digits 0 (show_nat (n div 10)) = n div 10" by simp
    with False show ?thesis by (simp add: show_nat.simps [of n] read_digits_snoc)
  qed
qed

lemma show_nat_inj [simp]: "show_nat m = show_nat n \<longleftrightarrow> m = n"
  by (metis read_show_nat)

lemma is_digit_not_minus [simp]: "\<not> is_digit CHR ''-''"
  by (simp add: is_digit_def)

lemma show_nat_notin: "\<not> is_digit c \<Longrightarrow> c \<notin> set (show_nat n)"
  using show_nat_digits [of n] by (auto simp: list_all_iff)

lemma show_int_inj [simp]: "show_int i = show_int j \<longleftrightarrow> i = j"
proof
  assume "show_int i = show_int j"
  then show "i = j"
    using show_nat_notin [of "CHR ''-''" "nat i"] show_nat_notin [of "CHR ''-''" "nat j"]
    by (auto simp: show_int_def split: if_splits) (metis list.set_intros(1))+
qed simp

lemma show_int_ne [simp]: "show_int i \<noteq> []"
  by (simp add: show_int_def)

section \<open>Lists\<close>

lemma take_drop_length_le: "i \<le> j \<Longrightarrow> j \<le> length s \<Longrightarrow>
    length (take i s @ e @ drop j s) = length s + length e - (j - i)"
  by simp

lemma filter_eq_Nil_iff: "filter P xs = [] \<longleftrightarrow> (\<forall>x \<in> set xs. \<not> P x)"
  by (auto simp: filter_empty_conv)

lemma append_sep_cancel:
  "c \<notin> set a \<Longrightarrow> c \<notin> set b \<Longrightarrow> a @ c # x = b @ c # y \<longleftrightarrow> a = b \<and> x = y"
proof (induction a arbitrary: b)
  case Nil
  then show ?case by (cases b) auto
next
  case (Cons z a)
  then show ?case by (cases b) auto
qed

lemma show_int_head: "show_int n = c # cs \<Longrightarrow> c = CHR ''-'' \<or> is_digit c"
  using show_nat_digits [of "nat n"] by (auto simp: show_int_def list_all_iff split: if_splits)

end
