(* ===== verification/JS_Value.thy ===== *)
theory JS_Value
  imports BSG_Prelude
begin

text \<open>
  The dynamic values of the program. TypeScript's types are erased at run time and most data
  arrives as \<open>any\<close> (a parsed JSON body, \<open>chrome.storage\<close>, a socket frame), so the model keeps
  the values dynamic and writes the JavaScript operations out: truthiness, \<open>||\<close>, \<open>??\<close>,
  \<open>?.\<close>, member access that throws on \<open>undefined\<close> and \<open>null\<close>, the two equalities,
  \<open>String(v)\<close> and the numeric coercion. Numbers are the integers and NaN (times in
  milliseconds, counts, scores and ids; no fraction is produced by the modelled code).
  A computation that may throw is a value of \<open>jv + 'a\<close>, with \<open>Inl\<close> the thrown value.
\<close>

section \<open>Values\<close>

datatype jv =
    JUndef
  | JNull
  | JBool bool
  | JNaN
  | JNum int
  | JStr string
  | JArr "jv list"
  | JObj "(string \<times> jv) list"

text \<open>\<open>Boolean(v)\<close>, the test that \<open>if\<close>, \<open>!\<close>, \<open>&&\<close> and \<open>||\<close> make.\<close>

fun truthy :: "jv \<Rightarrow> bool" where
  "truthy JUndef = False"
| "truthy JNull = False"
| "truthy (JBool b) = b"
| "truthy JNaN = False"
| "truthy (JNum n) = (n \<noteq> 0)"
| "truthy (JStr s) = (s \<noteq> [])"
| "truthy (JArr vs) = True"
| "truthy (JObj fs) = True"

definition js_or :: "jv \<Rightarrow> jv \<Rightarrow> jv" where
  "js_or a b = (if truthy a then a else b)"

definition is_nullish :: "jv \<Rightarrow> bool" where
  "is_nullish v = (v = JUndef \<or> v = JNull)"

text \<open>\<open>a ?? b\<close>\<close>

definition js_coalesce :: "jv \<Rightarrow> jv \<Rightarrow> jv" where
  "js_coalesce a b = (if is_nullish a then b else a)"

fun is_str :: "jv \<Rightarrow> bool" where
  "is_str (JStr s) = True"
| "is_str _ = False"

fun is_num :: "jv \<Rightarrow> bool" where
  "is_num (JNum n) = True"
| "is_num JNaN = True"
| "is_num _ = False"

text \<open>\<open>typeof v === 'object'\<close>, which holds of \<open>null\<close> too.\<close>

fun is_objectlike :: "jv \<Rightarrow> bool" where
  "is_objectlike JNull = True"
| "is_objectlike (JArr vs) = True"
| "is_objectlike (JObj fs) = True"
| "is_objectlike _ = False"

section \<open>Objects\<close>

definition obj_lookup :: "(string \<times> jv) list \<Rightarrow> string \<Rightarrow> jv" where
  "obj_lookup fs k = (case map_of fs k of Some v \<Rightarrow> v | None \<Rightarrow> JUndef)"

text \<open>Assignment keeps the position of an existing key and appends a new one.\<close>

fun obj_put :: "string \<Rightarrow> jv \<Rightarrow> (string \<times> jv) list \<Rightarrow> (string \<times> jv) list" where
  "obj_put k v [] = [(k, v)]"
| "obj_put k v ((k', v') # fs) = (if k = k' then (k, v) # fs else (k', v') # obj_put k v fs)"

definition mk_error :: "string \<Rightarrow> string \<Rightarrow> jv" where
  "mk_error name msg = JObj [(''name'', JStr name), (''message'', JStr msg)]"

definition type_error :: jv where
  "type_error = mk_error ''TypeError'' ''Cannot read properties of undefined or null''"

text \<open>
  \<open>v.k\<close>: throws on \<open>undefined\<close> and \<open>null\<close>; a primitive has no own member but the length of
  a string. Members inherited from a prototype are outside the model.
\<close>

fun get :: "jv \<Rightarrow> string \<Rightarrow> jv + jv" where
  "get JUndef k = Inl type_error"
| "get JNull k = Inl type_error"
| "get (JObj fs) k = Inr (obj_lookup fs k)"
| "get (JArr vs) k = Inr (if k = ''length'' then JNum (int (length vs)) else JUndef)"
| "get (JStr s) k = Inr (if k = ''length'' then JNum (int (length s)) else JUndef)"
| "get _ k = Inr JUndef"

text \<open>\<open>v?.k\<close> never throws.\<close>

definition opt_get :: "jv \<Rightarrow> string \<Rightarrow> jv" where
  "opt_get v k = (case get v k of Inl e \<Rightarrow> JUndef | Inr x \<Rightarrow> x)"

text \<open>\<open>vs[i]\<close> on an array: \<open>undefined\<close> outside the bounds.\<close>

definition arr_at :: "'a list \<Rightarrow> int \<Rightarrow> 'a option" where
  "arr_at vs i = (if 0 \<le> i \<and> i < int (length vs) then Some (vs ! nat i) else None)"

definition arr_get :: "jv list \<Rightarrow> int \<Rightarrow> jv" where
  "arr_get vs i = (case arr_at vs i of Some v \<Rightarrow> v | None \<Rightarrow> JUndef)"

section \<open>Conversions and equality\<close>

text \<open>\<open>String(v)\<close>, also what a template literal does with a value.\<close>

fun to_str :: "jv \<Rightarrow> string" where
  "to_str JUndef = ''undefined''"
| "to_str JNull = ''null''"
| "to_str (JBool b) = (if b then ''true'' else ''false'')"
| "to_str JNaN = ''NaN''"
| "to_str (JNum n) = show_int n"
| "to_str (JStr s) = s"
| "to_str (JArr vs) = join '','' (map (\<lambda>v. if is_nullish v then [] else to_str v) vs)"
| "to_str (JObj fs) = ''[object Object]''"

text \<open>\<open>Number(v)\<close>; of the strings, the decimal integers and the blank ones.\<close>

definition num_of_str :: "string \<Rightarrow> jv" where
  "num_of_str s =
     (let t = trim s in
      if t = [] then JNum 0
      else if list_all is_digit t then JNum (int (read_digits 0 t))
      else if hd t = CHR ''-'' \<and> tl t \<noteq> [] \<and> list_all is_digit (tl t)
        then JNum (- int (read_digits 0 (tl t)))
      else JNaN)"

fun to_num :: "jv \<Rightarrow> jv" where
  "to_num JUndef = JNaN"
| "to_num JNull = JNum 0"
| "to_num (JBool b) = JNum (if b then 1 else 0)"
| "to_num JNaN = JNaN"
| "to_num (JNum n) = JNum n"
| "to_num (JStr s) = num_of_str s"
| "to_num (JArr vs) = num_of_str (to_str (JArr vs))"
| "to_num (JObj fs) = JNaN"

fun num_op :: "(int \<Rightarrow> int \<Rightarrow> int) \<Rightarrow> jv \<Rightarrow> jv \<Rightarrow> jv" where
  "num_op f (JNum a) (JNum b) = JNum (f a b)"
| "num_op f _ _ = JNaN"

definition js_sub :: "jv \<Rightarrow> jv \<Rightarrow> jv" where
  "js_sub a b = num_op (-) (to_num a) (to_num b)"

definition js_mul :: "jv \<Rightarrow> jv \<Rightarrow> jv" where
  "js_mul a b = num_op (*) (to_num a) (to_num b)"

text \<open>\<open>a + b\<close> on numbers: every use in the modelled code has number operands.\<close>

definition js_add :: "jv \<Rightarrow> jv \<Rightarrow> jv" where
  "js_add a b = num_op (+) (to_num a) (to_num b)"

text \<open>\<open>a > b\<close> on numbers: false when one is NaN.\<close>

definition js_gt :: "jv \<Rightarrow> jv \<Rightarrow> bool" where
  "js_gt a b = (case (to_num a, to_num b) of (JNum x, JNum y) \<Rightarrow> x > y | _ \<Rightarrow> False)"

text \<open>
  \<open>a === b\<close>. Two objects are equal only when they are one reference; the values that the
  modelled code compares come from different sources, so objects never compare equal.
\<close>

fun strict_eq :: "jv \<Rightarrow> jv \<Rightarrow> bool" where
  "strict_eq JUndef JUndef = True"
| "strict_eq JNull JNull = True"
| "strict_eq (JBool a) (JBool b) = (a = b)"
| "strict_eq (JNum a) (JNum b) = (a = b)"
| "strict_eq (JStr a) (JStr b) = (a = b)"
| "strict_eq _ _ = False"

fun is_ref :: "jv \<Rightarrow> bool" where
  "is_ref (JArr vs) = True"
| "is_ref (JObj fs) = True"
| "is_ref _ = False"

text \<open>\<open>a == b\<close>\<close>

definition loose_eq :: "jv \<Rightarrow> jv \<Rightarrow> bool" where
  "loose_eq a b =
     (let a' = (if is_ref a \<and> \<not> is_ref b then JStr (to_str a) else a);
          b' = (if is_ref b \<and> \<not> is_ref a then JStr (to_str b) else b) in
      if is_nullish a' \<or> is_nullish b' then is_nullish a' \<and> is_nullish b'
      else if is_ref a' then False
      else if is_str a' \<and> is_str b' then a' = b'
      else strict_eq (to_num a') (to_num b'))"

section \<open>Lemmas\<close>

lemma js_or_truthy [simp, value_simps]: "truthy a \<Longrightarrow> js_or a b = a"
  by (simp add: js_or_def)

lemma js_or_falsy [simp, value_simps]: "\<not> truthy a \<Longrightarrow> js_or a b = b"
  by (simp add: js_or_def)

lemma truthy_js_or [simp]: "truthy (js_or a b) \<longleftrightarrow> truthy a \<or> truthy b"
  by (simp add: js_or_def)

lemma is_nullish_simps [simp, value_simps]:
  "is_nullish JUndef" "is_nullish JNull" "\<not> is_nullish (JBool b)" "\<not> is_nullish JNaN"
  "\<not> is_nullish (JNum n)" "\<not> is_nullish (JStr s)" "\<not> is_nullish (JArr vs)" "\<not> is_nullish (JObj fs)"
  by (auto simp: is_nullish_def)

lemma truthy_not_nullish: "truthy v \<Longrightarrow> \<not> is_nullish v"
  by (auto simp: is_nullish_def)

lemma js_coalesce_simps [simp, value_simps]:
  "is_nullish a \<Longrightarrow> js_coalesce a b = b" "\<not> is_nullish a \<Longrightarrow> js_coalesce a b = a"
  by (simp_all add: js_coalesce_def)

lemma obj_lookup_put: "obj_lookup (obj_put k v fs) k' = (if k = k' then v else obj_lookup fs k')"
  by (induction k v fs rule: obj_put.induct) (auto simp: obj_lookup_def)

lemma get_Inl_iff: "(\<exists>e. get v k = Inl e) \<longleftrightarrow> is_nullish v"
  by (cases v) auto

lemma get_Inr: "\<not> is_nullish v \<Longrightarrow> get v k = Inr (opt_get v k)"
  by (cases v) (auto simp: opt_get_def)

lemma opt_get_simps [simp, value_simps]:
  "opt_get JUndef k = JUndef" "opt_get JNull k = JUndef"
  "opt_get (JObj fs) k = obj_lookup fs k"
  "opt_get (JBool b) k = JUndef" "opt_get (JNum n) k = JUndef" "opt_get JNaN k = JUndef"
  "opt_get (JStr s) k = (if k = ''length'' then JNum (int (length s)) else JUndef)"
  "opt_get (JArr vs) k = (if k = ''length'' then JNum (int (length vs)) else JUndef)"
  by (auto simp: opt_get_def)

lemma opt_get_truthy: "truthy (opt_get v k) \<Longrightarrow> \<not> is_nullish v"
  by (cases v) auto

lemma obj_lookup_simps [simp, value_simps]:
  "obj_lookup [] k = JUndef"
  "obj_lookup ((k', v) # fs) k = (if k' = k then v else obj_lookup fs k)"
  by (auto simp: obj_lookup_def)

lemma js_arith_simps [simp, value_simps]:
  "js_sub (JNum a) (JNum b) = JNum (a - b)"
  "js_mul (JNum a) (JNum b) = JNum (a * b)"
  "js_add (JNum a) (JNum b) = JNum (a + b)"
  "js_gt (JNum a) (JNum b) = (a > b)"
  "js_gt JNaN v = False"
  by (auto simp: js_sub_def js_mul_def js_add_def js_gt_def)

lemma strict_eq_JStr [simp]: "strict_eq v (JStr s) \<longleftrightarrow> v = JStr s"
  by (cases v) auto

lemma strict_eq_JStr' [simp]: "strict_eq (JStr s) v \<longleftrightarrow> v = JStr s"
  by (cases v) auto

lemma strict_eq_imp_eq: "strict_eq a b \<Longrightarrow> a = b"
  by (cases a; cases b) auto

lemma strict_eq_sym: "strict_eq a b = strict_eq b a"
  by (cases a; cases b) auto

lemma loose_eq_JStr [simp]: "loose_eq (JStr a) (JStr b) \<longleftrightarrow> a = b"
  by (simp add: loose_eq_def Let_def)

lemma num_of_str_show_int: "num_of_str (show_int n) = JNum n"
proof -
  have nsp: "\<not> js_space c" if "is_digit c \<or> c = CHR ''-''" for c
    using that by (auto simp: js_space_def is_digit_def Let_def)
  have all: "list_all (\<lambda>c. is_digit c \<or> c = CHR ''-'') (show_int n)"
    using show_nat_digits by (auto simp: show_int_def list_all_iff)
  have dw: "dropWhile js_space s = s" if "list_all (\<lambda>c. is_digit c \<or> c = CHR ''-'') s" for s
    using that nsp by (cases s) auto
  have "trim (show_int n) = show_int n"
    using all by (simp add: trim_def dw list_all_rev)
  then show ?thesis
    using show_nat_digits [of "nat n"] show_nat_digits [of "nat (- n)"]
    by (cases "n < 0") (auto simp: num_of_str_def Let_def show_int_def read_show_nat)
qed

end
