(* ===== verification/Machine.thy ===== *)
theory Machine
  imports BSG_Prelude
begin

text \<open>
  The interface that every stateful component of the extension satisfies: a start state, a step
  function over its events and an invariant that the start state has and every step keeps. Each
  component interprets \<open>machine\<close> on its own step function and takes the lifting to whole event
  sequences from here. \<open>bounded_machine\<close> adds a quantity that the invariant bounds.
\<close>

definition run :: "('e \<Rightarrow> 's \<Rightarrow> 's) \<Rightarrow> 'e list \<Rightarrow> 's \<Rightarrow> 's" where
  "run step es s = fold step es s"

lemma run_Nil [simp]: "run step [] s = s"
  by (simp add: run_def)

lemma run_Cons [simp]: "run step (e # es) s = run step es (step e s)"
  by (simp add: run_def)

lemma run_append [simp]: "run step (es @ es') s = run step es' (run step es s)"
  by (simp add: run_def)

inductive reaches :: "('e \<Rightarrow> 's \<Rightarrow> 's) \<Rightarrow> 's \<Rightarrow> 's \<Rightarrow> bool" for step where
  reaches_refl: "reaches step s s"
| reaches_step: "reaches step s t \<Longrightarrow> reaches step s (step e t)"

lemma reaches_iff_run: "reaches step s t \<longleftrightarrow> (\<exists>es. t = run step es s)"
proof
  assume "reaches step s t"
  then show "\<exists>es. t = run step es s"
  proof induction
    case (reaches_refl s)
    show ?case by (rule exI [of _ "[]"]) simp
  next
    case (reaches_step s t e)
    then obtain es where "t = run step es s" by blast
    then show ?case by (intro exI [of _ "es @ [e]"]) simp
  qed
next
  assume "\<exists>es. t = run step es s"
  then obtain es where "t = run step es s" by blast
  then show "reaches step s t"
  proof (induction es arbitrary: t rule: rev_induct)
    case Nil
    then show ?case by (simp add: reaches_refl)
  next
    case (snoc e es)
    then show ?case by (auto intro: reaches_step)
  qed
qed

locale machine =
  fixes init :: 's
    and step :: "'e \<Rightarrow> 's \<Rightarrow> 's"
    and inv :: "'s \<Rightarrow> bool"
  assumes inv_init: "inv init"
    and inv_step: "inv s \<Longrightarrow> inv (step e s)"
begin

lemma inv_run: "inv s \<Longrightarrow> inv (run step es s)"
  by (induction es arbitrary: s) (auto intro: inv_step)

lemma inv_reachable: "reaches step init s \<Longrightarrow> inv s"
  using inv_init inv_run by (auto simp: reaches_iff_run)

lemma inv_run_init: "inv (run step es init)"
  using inv_init by (rule inv_run)

end

text \<open>The same for events that satisfy a condition on the environment.\<close>

locale guarded_machine =
  fixes ok :: "'e \<Rightarrow> bool"
    and step :: "'e \<Rightarrow> 's \<Rightarrow> 's"
    and inv :: "'s \<Rightarrow> bool"
  assumes inv_guarded: "ok e \<Longrightarrow> inv s \<Longrightarrow> inv (step e s)"
begin

lemma inv_run_guarded: "\<forall>e\<in>set es. ok e \<Longrightarrow> inv s \<Longrightarrow> inv (run step es s)"
  by (induction es arbitrary: s) (auto intro: inv_guarded)

end

sublocale machine \<subseteq> guarded: guarded_machine "\<lambda>e. True" step inv
  by unfold_locales (rule inv_step)

locale bounded_machine = machine +
  fixes amount :: "'a \<Rightarrow> int"
    and lo hi :: int
  assumes inv_bounds: "inv s \<Longrightarrow> lo \<le> amount s \<and> amount s \<le> hi"
begin

lemma amount_run_bounds: "inv s \<Longrightarrow> lo \<le> amount (run step es s) \<and> amount (run step es s) \<le> hi"
  by (intro inv_bounds inv_run)

lemma amount_reachable: "reaches step init s \<Longrightarrow> lo \<le> amount s \<and> amount s \<le> hi"
  by (intro inv_bounds inv_reachable)

end

section \<open>Debouncing\<close>

text \<open>
  An effect that starts a timer and whose cleanup clears the previous one: at most one timer is
  pending, armed by the last change, and firing runs its payload.
\<close>

datatype 'c debounce_event = Change 'c | Fire

fun debounce_step :: "('c \<Rightarrow> 'p option) \<Rightarrow> 'c debounce_event \<Rightarrow> 'p option \<times> 'p list \<Rightarrow> 'p option \<times> 'p list" where
  "debounce_step arm (Change c) (p, out) = (arm c, out)"
| "debounce_step arm Fire (p, out) = (None, (case p of None \<Rightarrow> out | Some x \<Rightarrow> out @ [x]))"

lemma debounce_changes:
  "cs \<noteq> [] \<Longrightarrow> run (debounce_step arm) (map Change cs) (p, out) = (arm (last cs), out)"
  by (induction cs arbitrary: p rule: list_nonempty_induct) auto

lemma debounce_burst:
  "cs \<noteq> [] \<Longrightarrow> run (debounce_step arm) (map Change cs @ [Fire]) (p, out) =
     (None, out @ (case arm (last cs) of None \<Rightarrow> [] | Some x \<Rightarrow> [x]))"
  by (simp add: debounce_changes split: option.split)

end
