(* ===== verification/Stores.thy ===== *)
theory Stores
  imports JS_Value Machine
begin

text \<open>
  The five zustand stores of the extension (\<open>bsg-frontend/apps/extension/stores\<close>) and the shared
  model types of \<open>bsg-frontend/packages/models\<close>. A store is a record of its data fields; each
  action of the source is a function on the record. Fields into which the code writes values of
  type \<open>any\<close> hold dynamic values; the others have their declared type.
\<close>

section \<open>Model types\<close>

datatype tab_name = TabRoomInfo | TabChat | TabLeaderboard | TabStatistics | TabSettings

fun tab_str :: "tab_name \<Rightarrow> string" where
  "tab_str TabRoomInfo = ''roomInfo''"
| "tab_str TabChat = ''chat''"
| "tab_str TabLeaderboard = ''leaderboard''"
| "tab_str TabStatistics = ''statistics''"
| "tab_str TabSettings = ''settings''"

text \<open>There are five tabs; statements about all of them are checked one by one.\<close>

instantiation tab_name :: enum
begin

definition "enum_tab_name = [TabRoomInfo, TabChat, TabLeaderboard, TabStatistics, TabSettings]"

definition "enum_all_tab_name P \<longleftrightarrow> list_all P [TabRoomInfo, TabChat, TabLeaderboard, TabStatistics, TabSettings]"

definition "enum_ex_tab_name P \<longleftrightarrow> list_ex P [TabRoomInfo, TabChat, TabLeaderboard, TabStatistics, TabSettings]"

instance
proof
  show "(UNIV :: tab_name set) = set enum_class.enum"
    using tab_name.exhaust by (auto simp: enum_tab_name_def)
  show "distinct (enum_class.enum :: tab_name list)" by (simp add: enum_tab_name_def)
  show "enum_class.enum_all P \<longleftrightarrow> Ball UNIV P" for P :: "tab_name \<Rightarrow> bool"
    unfolding enum_all_tab_name_def by simp (metis tab_name.exhaust)
  show "enum_class.enum_ex P \<longleftrightarrow> Bex UNIV P" for P :: "tab_name \<Rightarrow> bool"
    unfolding enum_ex_tab_name_def by simp (metis tab_name.exhaust)
qed

end

lemma tab_str_inj [simp]: "tab_str s = tab_str t \<longleftrightarrow> s = t"
proof -
  have "\<forall>s t. tab_str s = tab_str t \<longrightarrow> s = t" by code_simp
  then show ?thesis by blast
qed

datatype event_type = RoundStart | NextProblem | RoundEnd | JoinRound

fun event_str :: "event_type \<Rightarrow> string" where
  "event_str RoundStart = ''round-start''"
| "event_str NextProblem = ''next-problem''"
| "event_str RoundEnd = ''round-end''"
| "event_str JoinRound = ''join-round''"

record game_event =
  ev_type :: event_type
  ev_data :: jv
  ev_timestamp :: int

record app_user =
  au_id :: jv
  au_name :: jv
  au_email :: jv
  au_photo :: jv

record participant =
  p_id :: jv
  p_username :: jv
  p_avatarUrl :: jv
  p_defaultColor :: string
  p_currentProblemIndex :: jv
  p_score :: jv

section \<open>The panel store\<close>

record panel_store =
  isPanelHovered :: bool
  isFolded :: bool

definition panelStoreInit :: panel_store where
  "panelStoreInit = \<lparr>isPanelHovered = False, isFolded = False\<rparr>"

definition setIsPanelHovered :: "bool \<Rightarrow> panel_store \<Rightarrow> panel_store" where
  "setIsPanelHovered b s = s\<lparr>isPanelHovered := b\<rparr>"

definition setIsFolded :: "bool \<Rightarrow> panel_store \<Rightarrow> panel_store" where
  "setIsFolded b s = s\<lparr>isFolded := b\<rparr>"

section \<open>The user store\<close>

record user_store =
  isLoggedIn :: bool
  userId :: jv
  username :: jv
  email :: jv
  iconUrl :: jv

definition userStoreInit :: user_store where
  "userStoreInit = \<lparr>isLoggedIn = False, userId = JNull, username = JNull, email = JNull, iconUrl = JNull\<rparr>"

definition setIsLoggedIn :: "bool \<Rightarrow> user_store \<Rightarrow> user_store" where
  "setIsLoggedIn b s = s\<lparr>isLoggedIn := b\<rparr>"

definition setUserId :: "jv \<Rightarrow> user_store \<Rightarrow> user_store" where
  "setUserId v s = s\<lparr>userId := v\<rparr>"

definition setUsername :: "jv \<Rightarrow> user_store \<Rightarrow> user_store" where
  "setUsername v s = s\<lparr>username := v\<rparr>"

definition setEmail :: "jv \<Rightarrow> user_store \<Rightarrow> user_store" where
  "setEmail v s = s\<lparr>email := v\<rparr>"

definition setIconUrl :: "jv \<Rightarrow> user_store \<Rightarrow> user_store" where
  "setIconUrl v s = s\<lparr>iconUrl := v\<rparr>"

definition loginUser :: "jv \<Rightarrow> jv \<Rightarrow> jv \<Rightarrow> jv \<Rightarrow> user_store \<Rightarrow> user_store" where
  "loginUser uid uname mail icon s =
     s\<lparr>userId := uid, username := uname, email := mail, iconUrl := icon, isLoggedIn := True\<rparr>"

definition resetUser :: "user_store \<Rightarrow> user_store" where
  "resetUser s = userStoreInit"

section \<open>The settings store\<close>

datatype theme_preference = ThemeAuto | ThemeDark | ThemeLight

fun theme_str :: "theme_preference \<Rightarrow> string" where
  "theme_str ThemeAuto = ''auto''"
| "theme_str ThemeDark = ''dark''"
| "theme_str ThemeLight = ''light''"

record settings_store =
  chatNotificationsEnabled :: bool
  themePreference :: theme_preference

definition settingsStoreInit :: settings_store where
  "settingsStoreInit = \<lparr>chatNotificationsEnabled = True, themePreference = ThemeAuto\<rparr>"

text \<open>The callback of \<open>loadSettings\<close>: only well-typed stored values are taken over.\<close>

definition apply_stored_settings :: "jv \<Rightarrow> jv \<Rightarrow> settings_store \<Rightarrow> settings_store" where
  "apply_stored_settings chat theme s =
     (let s1 = (case chat of JBool b \<Rightarrow> s\<lparr>chatNotificationsEnabled := b\<rparr> | _ \<Rightarrow> s) in
      if theme = JStr ''auto'' then s1\<lparr>themePreference := ThemeAuto\<rparr>
      else if theme = JStr ''dark'' then s1\<lparr>themePreference := ThemeDark\<rparr>
      else if theme = JStr ''light'' then s1\<lparr>themePreference := ThemeLight\<rparr>
      else s1)"

section \<open>The problem-count cache\<close>

record problem_count_filters =
  f_difficulties :: string
  f_tags :: "string list"
  f_companies :: "string list"
  f_blind75 :: bool
  f_neetcode150 :: bool
  f_recentlyAsked :: bool
  f_excludePaid :: bool

definition flag01 :: "bool \<Rightarrow> string" where
  "flag01 b = (if b then ''1'' else ''0'')"

definition buildProblemCountKey :: "problem_count_filters \<Rightarrow> string" where
  "buildProblemCountKey f =
     (let sortedTags = join '','' (sort (f_tags f));
          sortedCompanies = join '','' (sort (f_companies f)) in
      join ''|'' [f_difficulties f, sortedTags, sortedCompanies, flag01 (f_blind75 f),
        flag01 (f_neetcode150 f), flag01 (f_recentlyAsked f), flag01 (f_excludePaid f)])"

type_synonym count_store = "string \<rightharpoonup> int"

definition countStoreInit :: count_store where
  "countStoreInit = Map.empty"

definition getCount :: "string \<Rightarrow> count_store \<Rightarrow> int option" where
  "getCount key counts = counts key"

definition setCount :: "string \<Rightarrow> int \<Rightarrow> count_store \<Rightarrow> count_store" where
  "setCount key n counts = counts(key \<mapsto> n)"

section \<open>The room store\<close>

record room_store =
  isInRoom :: bool
  roomId :: jv
  isConnected :: bool
  isAdmin :: bool
  adminId :: jv
  roomCode :: jv
  participants :: "app_user list"
  activeTab :: tab_name
  previousTab :: tab_name
  isRoundStarted :: bool
  hasRoundEnded :: bool
  roundEndTime :: jv
  roundDuration :: jv
  lastGameEvent :: "game_event option"
  roomNotice :: jv
  problems :: "string list"
  lastParticipantJoinTime :: jv
  unreadCount :: nat

definition roomStoreInit :: room_store where
  "roomStoreInit = \<lparr>isInRoom = False, roomId = JNull, isConnected = False, isAdmin = False,
     adminId = JNull, roomCode = JNull, participants = [], activeTab = TabChat,
     previousTab = TabChat, isRoundStarted = False, hasRoundEnded = False, roundEndTime = JNull,
     roundDuration = JNull, lastGameEvent = None, roomNotice = JNull, problems = [],
     lastParticipantJoinTime = JNull, unreadCount = 0\<rparr>"

definition setIsInRoom :: "bool \<Rightarrow> room_store \<Rightarrow> room_store" where
  "setIsInRoom b s = s\<lparr>isInRoom := b\<rparr>"

definition setRoomId :: "jv \<Rightarrow> room_store \<Rightarrow> room_store" where
  "setRoomId v s = s\<lparr>roomId := v\<rparr>"

definition setIsConnected :: "bool \<Rightarrow> room_store \<Rightarrow> room_store" where
  "setIsConnected b s = s\<lparr>isConnected := b\<rparr>"

definition setIsAdmin :: "bool \<Rightarrow> room_store \<Rightarrow> room_store" where
  "setIsAdmin b s = s\<lparr>isAdmin := b\<rparr>"

definition setAdminId :: "jv \<Rightarrow> room_store \<Rightarrow> room_store" where
  "setAdminId v s = s\<lparr>adminId := v\<rparr>"

definition setRoomCode :: "jv \<Rightarrow> room_store \<Rightarrow> room_store" where
  "setRoomCode v s = s\<lparr>roomCode := v\<rparr>"

definition setParticipants :: "app_user list \<Rightarrow> room_store \<Rightarrow> room_store" where
  "setParticipants us s = s\<lparr>participants := us\<rparr>"

definition setActiveTab :: "tab_name \<Rightarrow> room_store \<Rightarrow> room_store" where
  "setActiveTab t s =
     s\<lparr>activeTab := t,
       previousTab :=
         (if t = TabSettings
          then (if activeTab s = TabSettings then previousTab s else activeTab s)
          else previousTab s)\<rparr>"

definition setIsRoundStarted :: "bool \<Rightarrow> room_store \<Rightarrow> room_store" where
  "setIsRoundStarted b s = s\<lparr>isRoundStarted := b\<rparr>"

definition setHasRoundEnded :: "bool \<Rightarrow> room_store \<Rightarrow> room_store" where
  "setHasRoundEnded b s = s\<lparr>hasRoundEnded := b\<rparr>"

definition setRoundEndTime :: "jv \<Rightarrow> room_store \<Rightarrow> room_store" where
  "setRoundEndTime v s = s\<lparr>roundEndTime := v\<rparr>"

definition setRoundDuration :: "jv \<Rightarrow> room_store \<Rightarrow> room_store" where
  "setRoundDuration v s = s\<lparr>roundDuration := v\<rparr>"

definition setLastGameEvent :: "game_event option \<Rightarrow> room_store \<Rightarrow> room_store" where
  "setLastGameEvent e s = s\<lparr>lastGameEvent := e\<rparr>"

definition setRoomNotice :: "jv \<Rightarrow> room_store \<Rightarrow> room_store" where
  "setRoomNotice v s = s\<lparr>roomNotice := v\<rparr>"

definition setProblems :: "string list \<Rightarrow> room_store \<Rightarrow> room_store" where
  "setProblems ps s = s\<lparr>problems := ps\<rparr>"

definition setLastParticipantJoinTime :: "jv \<Rightarrow> room_store \<Rightarrow> room_store" where
  "setLastParticipantJoinTime v s = s\<lparr>lastParticipantJoinTime := v\<rparr>"

definition incrementUnread :: "room_store \<Rightarrow> room_store" where
  "incrementUnread s = s\<lparr>unreadCount := unreadCount s + 1\<rparr>"

definition clearUnread :: "room_store \<Rightarrow> room_store" where
  "clearUnread s = s\<lparr>unreadCount := 0\<rparr>"

definition initRoom :: "jv \<Rightarrow> jv \<Rightarrow> jv \<Rightarrow> bool \<Rightarrow> room_store \<Rightarrow> room_store" where
  "initRoom rid code admin amAdmin s =
     s\<lparr>roomId := rid, roomCode := code, adminId := admin, isAdmin := amAdmin, isInRoom := True,
       isRoundStarted := False, hasRoundEnded := False, roundEndTime := JNull, unreadCount := 0\<rparr>"

definition resetRoom :: "room_store \<Rightarrow> room_store" where
  "resetRoom s = roomStoreInit"

lemmas store_defs [store_simps] =
  setIsPanelHovered_def setIsFolded_def setIsLoggedIn_def setUserId_def setUsername_def
  setEmail_def setIconUrl_def loginUser_def resetUser_def setIsInRoom_def setRoomId_def
  setIsConnected_def setIsAdmin_def setAdminId_def setRoomCode_def setParticipants_def
  setActiveTab_def setIsRoundStarted_def setHasRoundEnded_def setRoundEndTime_def
  setRoundDuration_def setLastGameEvent_def setRoomNotice_def setProblems_def
  setLastParticipantJoinTime_def incrementUnread_def clearUnread_def initRoom_def resetRoom_def


section \<open>The room store as a machine\<close>

text \<open>Every call that a component can make on the room store.\<close>

datatype room_action =
    ASetIsInRoom bool | ASetRoomId jv | ASetIsConnected bool | ASetIsAdmin bool | ASetAdminId jv
  | ASetRoomCode jv | ASetParticipants "app_user list" | ASetActiveTab tab_name
  | ASetIsRoundStarted bool | ASetHasRoundEnded bool | ASetRoundEndTime jv | ASetRoundDuration jv
  | ASetLastGameEvent "game_event option" | ASetRoomNotice jv | ASetProblems "string list"
  | ASetLastParticipantJoinTime jv | AIncrementUnread | AClearUnread
  | AInitRoom jv jv jv bool | AResetRoom

fun room_step :: "room_action \<Rightarrow> room_store \<Rightarrow> room_store" where
  "room_step (ASetIsInRoom b) = setIsInRoom b"
| "room_step (ASetRoomId v) = setRoomId v"
| "room_step (ASetIsConnected b) = setIsConnected b"
| "room_step (ASetIsAdmin b) = setIsAdmin b"
| "room_step (ASetAdminId v) = setAdminId v"
| "room_step (ASetRoomCode v) = setRoomCode v"
| "room_step (ASetParticipants us) = setParticipants us"
| "room_step (ASetActiveTab t) = setActiveTab t"
| "room_step (ASetIsRoundStarted b) = setIsRoundStarted b"
| "room_step (ASetHasRoundEnded b) = setHasRoundEnded b"
| "room_step (ASetRoundEndTime v) = setRoundEndTime v"
| "room_step (ASetRoundDuration v) = setRoundDuration v"
| "room_step (ASetLastGameEvent e) = setLastGameEvent e"
| "room_step (ASetRoomNotice v) = setRoomNotice v"
| "room_step (ASetProblems ps) = setProblems ps"
| "room_step (ASetLastParticipantJoinTime v) = setLastParticipantJoinTime v"
| "room_step AIncrementUnread = incrementUnread"
| "room_step AClearUnread = clearUnread"
| "room_step (AInitRoom rid code admin b) = initRoom rid code admin b"
| "room_step AResetRoom = resetRoom"

text \<open>
  The declared type of \<open>previousTab\<close> is \<open>Exclude<TabName, 'settings'>\<close>; types are erased, so
  that \<open>previousTab\<close> never holds \<open>settings\<close> is an invariant of the actions.
\<close>

definition tab_inv :: "room_store \<Rightarrow> bool" where
  "tab_inv s \<longleftrightarrow> previousTab s \<noteq> TabSettings"

lemma tab_inv_init: "tab_inv roomStoreInit"
  by (simp add: tab_inv_def roomStoreInit_def)

lemma tab_inv_step: "tab_inv s \<Longrightarrow> tab_inv (room_step a s)"
  by (cases a) (auto simp: tab_inv_def store_simps roomStoreInit_def)

interpretation tabs: machine roomStoreInit room_step tab_inv
  by unfold_locales (rule tab_inv_init, rule tab_inv_step)

section \<open>The cache key is canonical\<close>

definition sep_free :: "string \<Rightarrow> bool" where
  "sep_free s \<longleftrightarrow> CHR '','' \<notin> set s \<and> CHR ''|'' \<notin> set s"

definition filters_ok :: "problem_count_filters \<Rightarrow> bool" where
  "filters_ok f \<longleftrightarrow> CHR ''|'' \<notin> set (f_difficulties f) \<and>
     list_all (\<lambda>s. sep_free s \<and> s \<noteq> []) (f_tags f) \<and>
     list_all (\<lambda>s. sep_free s \<and> s \<noteq> []) (f_companies f)"

text \<open>The selections a key stands for: what the filters are once the order is forgotten.\<close>

definition same_selection :: "problem_count_filters \<Rightarrow> problem_count_filters \<Rightarrow> bool" where
  "same_selection f g \<longleftrightarrow>
     f_difficulties f = f_difficulties g \<and> mset (f_tags f) = mset (f_tags g) \<and>
     mset (f_companies f) = mset (f_companies g) \<and> f_blind75 f = f_blind75 g \<and>
     f_neetcode150 f = f_neetcode150 g \<and> f_recentlyAsked f = f_recentlyAsked g \<and>
     f_excludePaid f = f_excludePaid g"

lemma flag01_inj [simp]: "flag01 a = flag01 b \<longleftrightarrow> a = b"
  by (simp add: flag01_def)

lemma flag01_no_bar [simp]: "CHR ''|'' \<notin> set (flag01 b)"
  by (simp add: flag01_def)

lemma sort_eq_iff_mset: "sort xs = sort ys \<longleftrightarrow> mset xs = mset ys"
  by (metis mset_sort properties_for_sort sorted_sort)

lemma join_comma_inj:
  assumes "list_all (\<lambda>s. sep_free s \<and> s \<noteq> []) xs" "list_all (\<lambda>s. sep_free s \<and> s \<noteq> []) ys"
    and eq: "join '','' xs = join '','' ys"
  shows "xs = ys"
proof (cases "xs = [] \<or> ys = []")
  case True
  with assms show ?thesis
    using join_eq_Nil_iff [of "CHR '',''" xs] join_eq_Nil_iff [of "CHR '',''" ys] by auto
next
  case False
  then have "split_on (CHR '','') (join '','' xs) = xs" "split_on (CHR '','') (join '','' ys) = ys"
    using assms(1,2) by (auto intro!: split_on_join simp: sep_free_def list_all_iff)
  with eq show ?thesis by metis
qed

lemma sorted_join_no_bar:
  "list_all (\<lambda>s. sep_free s \<and> s \<noteq> []) xs \<Longrightarrow> CHR ''|'' \<notin> set (join '','' (sort xs))"
  by (rule join_notin) (auto simp: list_all_iff sep_free_def)

lemma buildProblemCountKey_split:
  "filters_ok f \<Longrightarrow> split_on (CHR ''|'') (buildProblemCountKey f) =
     [f_difficulties f, join '','' (sort (f_tags f)), join '','' (sort (f_companies f)),
      flag01 (f_blind75 f), flag01 (f_neetcode150 f), flag01 (f_recentlyAsked f),
      flag01 (f_excludePaid f)]"
  unfolding buildProblemCountKey_def Let_def
  by (rule split_on_join) (auto simp: filters_ok_def sorted_join_no_bar)

lemma key_eqD:
  assumes "filters_ok f" "filters_ok g" "buildProblemCountKey f = buildProblemCountKey g"
  shows "same_selection f g"
proof -
  have "split_on (CHR ''|'') (buildProblemCountKey f) = split_on (CHR ''|'') (buildProblemCountKey g)"
    using assms(3) by simp
  then have eq: "f_difficulties f = f_difficulties g"
      "join '','' (sort (f_tags f)) = join '','' (sort (f_tags g))"
      "join '','' (sort (f_companies f)) = join '','' (sort (f_companies g))"
      "f_blind75 f = f_blind75 g" "f_neetcode150 f = f_neetcode150 g"
      "f_recentlyAsked f = f_recentlyAsked g" "f_excludePaid f = f_excludePaid g"
    using assms(1,2) by (simp_all add: buildProblemCountKey_split)
  have "sort (f_tags f) = sort (f_tags g)"
    by (rule join_comma_inj [OF _ _ eq(2)]) (use assms(1,2) in \<open>auto simp: filters_ok_def list_all_iff\<close>)
  moreover have "sort (f_companies f) = sort (f_companies g)"
    by (rule join_comma_inj [OF _ _ eq(3)]) (use assms(1,2) in \<open>auto simp: filters_ok_def list_all_iff\<close>)
  ultimately show ?thesis using eq by (simp add: same_selection_def sort_eq_iff_mset)
qed

lemma same_selection_key: "same_selection f g \<Longrightarrow> buildProblemCountKey f = buildProblemCountKey g"
  using sort_eq_iff_mset [of "f_tags f" "f_tags g"] sort_eq_iff_mset [of "f_companies f" "f_companies g"]
  by (simp add: same_selection_def buildProblemCountKey_def)

section \<open>Properties\<close>

text \<open>
  In every reachable room store the settings button has a screen to return to: the remembered
  tab is never \<open>settings\<close>, and opening the settings and going back restores the tab that was open.
\<close>

theorem settings_button_returns:
  assumes "reaches room_step roomStoreInit s"
  shows "previousTab s \<noteq> TabSettings \<and>
    (let back = setActiveTab (previousTab (setActiveTab TabSettings s)) (setActiveTab TabSettings s) in
     activeTab back = (if activeTab s = TabSettings then previousTab s else activeTab s))"
  using tabs.inv_reachable [OF assms] by (simp add: tab_inv_def setActiveTab_def Let_def)

theorem settings_button_returns_witness:
  "previousTab (run room_step [ASetActiveTab TabLeaderboard, ASetActiveTab TabSettings, ASetActiveTab TabSettings]
     roomStoreInit) \<noteq> TabSettings"
proof -
  have "reaches room_step roomStoreInit
     (run room_step [ASetActiveTab TabLeaderboard, ASetActiveTab TabSettings, ASetActiveTab TabSettings] roomStoreInit)"
    unfolding reaches_iff_run by blast
  from settings_button_returns [OF this] show ?thesis by blast
qed

text \<open>
  C19: the cache of problem counts answers a lookup for exactly the filter combinations that select
  the same problems as the stored one, whatever the order the tags and companies were picked in
  (for tags and companies without the separators of the key).
\<close>

theorem count_cache_canonical:
  assumes "filters_ok f" "filters_ok g"
  shows "getCount (buildProblemCountKey g) (setCount (buildProblemCountKey f) n counts) =
    (if same_selection f g then Some n else getCount (buildProblemCountKey g) counts)"
proof (cases "same_selection f g")
  case True
  then have "buildProblemCountKey f = buildProblemCountKey g" by (rule same_selection_key)
  with True show ?thesis by (simp add: getCount_def setCount_def)
next
  case False
  then have "buildProblemCountKey f \<noteq> buildProblemCountKey g" using key_eqD [OF assms] by blast
  with False show ?thesis by (simp add: getCount_def setCount_def)
qed

definition two_companies :: "string list \<Rightarrow> problem_count_filters" where
  "two_companies cs = \<lparr>f_difficulties = ''easy'', f_tags = [], f_companies = cs, f_blind75 = False,
     f_neetcode150 = False, f_recentlyAsked = True, f_excludePaid = False\<rparr>"

theorem count_cache_canonical_witness:
  "getCount (buildProblemCountKey (two_companies [''meta'', ''google'']))
     (setCount (buildProblemCountKey (two_companies [''google'', ''meta''])) 7 countStoreInit) = Some 7"
proof -
  have ok: "filters_ok (two_companies [''google'', ''meta''])" "filters_ok (two_companies [''meta'', ''google''])"
    by (simp_all add: filters_ok_def two_companies_def sep_free_def)
  have "same_selection (two_companies [''google'', ''meta'']) (two_companies [''meta'', ''google''])"
    by (simp add: same_selection_def two_companies_def)
  with count_cache_canonical [OF ok, of 7 countStoreInit] show ?thesis by simp
qed

end
