(* ===== verification/JSON_Codec.thy ===== *)
theory JSON_Codec
  imports JS_Value
begin

text \<open>
  \<open>JSON.stringify\<close> and \<open>JSON.parse\<close> of the JavaScript library, as far as the program uses them:
  its socket frames carry a JSON text whose \<open>data\<close> member is a JSON text again. The printer drops
  members whose value is \<open>undefined\<close> and prints NaN as \<open>null\<close>; the parser accepts the JSON
  grammar with integer numbers and escapes up to \<open>\u00ff\<close> (the value model has no fraction and no
  code unit above 255; such texts count as rejected). The parser runs on fuel;
  \<open>p_val_fuel\<close> shows that the fuel given is always enough, and
  \<open>json_parse_stringify\<close> that parsing inverts printing.
\<close>

section \<open>Printing\<close>

definition hex_char :: "nat \<Rightarrow> char" where
  "hex_char d = (if d < 10 then char_of (48 + d) else char_of (87 + d))"

definition esc_char :: "char \<Rightarrow> string" where
  "esc_char c =
     (let n = (of_char c :: nat) in
      if n = 34 then [CHR 0x5C, CHR 0x22]
      else if n = 92 then [CHR 0x5C, CHR 0x5C]
      else if n = 8 then [CHR 0x5C, CHR ''b'']
      else if n = 9 then [CHR 0x5C, CHR ''t'']
      else if n = 10 then [CHR 0x5C, CHR ''n'']
      else if n = 12 then [CHR 0x5C, CHR ''f'']
      else if n = 13 then [CHR 0x5C, CHR ''r'']
      else if n < 32 then
        [CHR 0x5C, CHR ''u'', CHR ''0'', CHR ''0'', hex_char (n div 16), hex_char (n mod 16)]
      else [c])"

definition json_quote :: "string \<Rightarrow> string" where
  "json_quote s = CHR 0x22 # concat (map esc_char s) @ [CHR 0x22]"

fun json_value :: "jv \<Rightarrow> string option"
  and json_elems :: "jv list \<Rightarrow> string list"
  and json_members :: "(string \<times> jv) list \<Rightarrow> string list" where
  "json_value JUndef = None"
| "json_value JNull = Some ''null''"
| "json_value (JBool b) = Some (if b then ''true'' else ''false'')"
| "json_value JNaN = Some ''null''"
| "json_value (JNum n) = Some (show_int n)"
| "json_value (JStr s) = Some (json_quote s)"
| "json_value (JArr vs) = Some (''['' @ join '','' (json_elems vs) @ '']'')"
| "json_value (JObj fs) = Some (''{'' @ join '','' (json_members fs) @ ''}'')"
| "json_elems [] = []"
| "json_elems (v # vs) =
     (case json_value v of None \<Rightarrow> ''null'' | Some t \<Rightarrow> t) # json_elems vs"
| "json_members [] = []"
| "json_members ((k, v) # fs) =
     (case json_value v of None \<Rightarrow> json_members fs
      | Some t \<Rightarrow> (json_quote k @ '':'' @ t) # json_members fs)"

text \<open>The text of an object, which is never \<open>undefined\<close>.\<close>

definition json_stringify :: "(string \<times> jv) list \<Rightarrow> string" where
  "json_stringify fs = ''{'' @ join '','' (json_members fs) @ ''}''"

section \<open>Parsing\<close>

definition json_ws :: "char \<Rightarrow> bool" where
  "json_ws c = (let n = (of_char c :: nat) in n = 32 \<or> n = 9 \<or> n = 10 \<or> n = 13)"

abbreviation skip_ws :: "string \<Rightarrow> string" where
  "skip_ws \<equiv> dropWhile json_ws"

definition hex_val :: "char \<Rightarrow> nat option" where
  "hex_val c =
     (let n = (of_char c :: nat) in
      if 48 \<le> n \<and> n \<le> 57 then Some (n - 48)
      else if 97 \<le> n \<and> n \<le> 102 then Some (n - 87)
      else if 65 \<le> n \<and> n \<le> 70 then Some (n - 55)
      else None)"

definition unesc :: "char \<Rightarrow> char option" where
  "unesc c =
     (let n = (of_char c :: nat) in
      if n = 34 \<or> n = 92 \<or> n = 47 then Some c
      else if c = CHR ''b'' then Some (char_of (8::nat))
      else if c = CHR ''t'' then Some (char_of (9::nat))
      else if c = CHR ''n'' then Some (char_of (10::nat))
      else if c = CHR ''f'' then Some (char_of (12::nat))
      else if c = CHR ''r'' then Some (char_of (13::nat))
      else None)"

definition hex_quad :: "string \<Rightarrow> (char \<times> string) option" where
  "hex_quad s =
     (case s of
        a # b # c # d # r \<Rightarrow>
          (case (hex_val a, hex_val b, hex_val c, hex_val d) of
             (Some w, Some x, Some y, Some z) \<Rightarrow>
               if w = 0 \<and> x = 0 then Some (char_of (16 * y + z), r) else None
           | _ \<Rightarrow> None)
      | _ \<Rightarrow> None)"

lemma hex_quad_length: "hex_quad s = Some (c, r) \<Longrightarrow> length r < length s"
  by (auto simp: hex_quad_def split: list.splits option.splits if_splits)

definition cons_res :: "char \<Rightarrow> (string \<times> string) option \<Rightarrow> (string \<times> string) option" where
  "cons_res c r = map_option (\<lambda>(s, t). (c # s, t)) r"

text \<open>The characters of a string literal up to its closing quote.\<close>

function p_chars :: "string \<Rightarrow> (string \<times> string) option" where
  "p_chars [] = None"
| "p_chars (c # cs) =
     (if c = CHR 0x22 then Some ([], cs)
      else if c = CHR 0x5C then
        (case cs of
           [] \<Rightarrow> None
         | e # es \<Rightarrow>
             if e = CHR ''u'' then
               (case hex_quad es of None \<Rightarrow> None | Some (d, r) \<Rightarrow> cons_res d (p_chars r))
             else (case unesc e of None \<Rightarrow> None | Some d \<Rightarrow> cons_res d (p_chars es)))
      else if (of_char c :: nat) < 32 then None
      else cons_res c (p_chars cs))"
  by pat_completeness auto
termination
  by (relation "measure length") (auto dest: hex_quad_length)

definition p_num :: "string \<Rightarrow> (jv \<times> string) option" where
  "p_num s =
     (let neg = (s \<noteq> [] \<and> hd s = CHR ''-'');
          t = (if neg then tl s else s);
          ds = takeWhile is_digit t;
          r = dropWhile is_digit t;
          n = int (read_digits 0 ds) in
      if ds = [] \<or> (hd ds = CHR ''0'' \<and> length ds > 1) \<or>
         (r \<noteq> [] \<and> hd r \<in> {CHR ''.'', CHR ''e'', CHR ''E''}) then None
      else Some (JNum (if neg then - n else n), r))"

definition p_lit :: "string \<Rightarrow> jv \<Rightarrow> string \<Rightarrow> (jv \<times> string) option" where
  "p_lit w v s = (if starts_with s w then Some (v, drop (length w) s) else None)"

fun p_val :: "nat \<Rightarrow> string \<Rightarrow> (jv \<times> string) option"
  and p_elems :: "nat \<Rightarrow> jv list \<Rightarrow> string \<Rightarrow> (jv \<times> string) option"
  and p_members :: "nat \<Rightarrow> (string \<times> jv) list \<Rightarrow> string \<Rightarrow> (jv \<times> string) option" where
  "p_val 0 s = None"
| "p_val (Suc n) s =
     (case skip_ws s of
        [] \<Rightarrow> None
      | c # cs \<Rightarrow>
          if c = CHR ''{'' then
            (case skip_ws cs of
               [] \<Rightarrow> None
             | d # ds \<Rightarrow> if d = CHR ''}'' then Some (JObj [], ds) else p_members n [] (d # ds))
          else if c = CHR ''['' then
            (case skip_ws cs of
               [] \<Rightarrow> None
             | d # ds \<Rightarrow> if d = CHR '']'' then Some (JArr [], ds) else p_elems n [] (d # ds))
          else if c = CHR 0x22 then
            (case p_chars cs of None \<Rightarrow> None | Some (k, r) \<Rightarrow> Some (JStr k, r))
          else if c = CHR ''n'' then p_lit ''null'' JNull (c # cs)
          else if c = CHR ''t'' then p_lit ''true'' (JBool True) (c # cs)
          else if c = CHR ''f'' then p_lit ''false'' (JBool False) (c # cs)
          else p_num (c # cs))"
| "p_elems 0 acc s = None"
| "p_elems (Suc n) acc s =
     (case p_val n s of
        None \<Rightarrow> None
      | Some (v, r) \<Rightarrow>
          (case skip_ws r of
             [] \<Rightarrow> None
           | c # cs \<Rightarrow>
               if c = CHR '','' then p_elems n (acc @ [v]) cs
               else if c = CHR '']'' then Some (JArr (acc @ [v]), cs)
               else None))"
| "p_members 0 acc s = None"
| "p_members (Suc n) acc s =
     (case skip_ws s of
        [] \<Rightarrow> None
      | q # qs \<Rightarrow>
          if q \<noteq> CHR 0x22 then None
          else
            (case p_chars qs of
               None \<Rightarrow> None
             | Some (k, r) \<Rightarrow>
                 (case skip_ws r of
                    [] \<Rightarrow> None
                  | c # cs \<Rightarrow>
                      if c \<noteq> CHR '':'' then None
                      else
                        (case p_val n cs of
                           None \<Rightarrow> None
                         | Some (v, r') \<Rightarrow>
                             (case skip_ws r' of
                                [] \<Rightarrow> None
                              | d # ds \<Rightarrow>
                                  if d = CHR '','' then p_members n (obj_put k v acc) ds
                                  else if d = CHR ''}'' then Some (JObj (obj_put k v acc), ds)
                                  else None)))))"

definition json_fuel :: "string \<Rightarrow> nat" where
  "json_fuel s = 2 * length s + 1"

definition json_parse :: "string \<Rightarrow> jv option" where
  "json_parse s =
     (case p_val (json_fuel s) s of
        None \<Rightarrow> None
      | Some (v, r) \<Rightarrow> if skip_ws r = [] then Some v else None)"

section \<open>Printing and parsing are inverse\<close>

lemma hex_val_hex_char: "d < 16 \<Longrightarrow> hex_val (hex_char d) = Some d"
  by (auto simp: hex_val_def hex_char_def Let_def)

lemma hex_val_0: "hex_val CHR ''0'' = Some 0"
  by (simp add: hex_val_def)

lemma p_chars_esc: "p_chars (esc_char c @ t) = cons_res c (p_chars t)"
proof -
  let ?n = "of_char c :: nat"
  consider "?n \<in> {34, 92, 8, 9, 10, 12, 13}" | "?n < 32" "?n \<notin> {8, 9, 10, 12, 13}"
    | "32 \<le> ?n" "?n \<notin> {34, 92}" by fastforce
  then show ?thesis
  proof cases
    case 1
    then have "c \<in> {char_of (34::nat), char_of (92::nat), char_of (8::nat), char_of (9::nat),
        char_of (10::nat), char_of (12::nat), char_of (13::nat)}"
      by (metis (no_types, opaque_lifting) char_of_char insert_iff singletonD)
    moreover have "char_of (34::nat) = CHR 0x22" "char_of (92::nat) = CHR 0x5C"
      by (simp_all add: char_eq_code)
    ultimately show ?thesis
      by (auto simp: esc_char_def Let_def unesc_def)
  next
    case 2
    then have "?n div 16 < 16" by simp
    with 2 have "hex_quad (CHR ''0'' # CHR ''0'' # hex_char (?n div 16) # hex_char (?n mod 16) # t)
        = Some (c, t)"
      by (simp add: hex_quad_def hex_val_hex_char hex_val_0)
    with 2 show ?thesis by (simp add: esc_char_def Let_def)
  next
    case 3
    then show ?thesis by (auto simp: esc_char_def Let_def char_eq_code)
  qed
qed

lemma p_chars_quoted: "p_chars (concat (map esc_char s) @ CHR 0x22 # rest) = Some (s, rest)"
  by (induction s) (simp_all add: p_chars_esc cons_res_def del: p_chars.simps(2), simp)

lemma show_nat_leading: "length (show_nat n) > 1 \<Longrightarrow> hd (show_nat n) \<noteq> CHR ''0''"
proof (induction n rule: show_nat.induct)
  case (1 n)
  show ?case
  proof (cases "n < 10")
    case True
    with "1.prems" show ?thesis by (simp add: show_nat.simps [of n])
  next
    case False
    have hd: "hd (show_nat n) = hd (show_nat (n div 10))"
      using False by (simp add: show_nat.simps [of n])
    show ?thesis
    proof (cases "n div 10 < 10")
      case True
      with False have "n div 10 \<noteq> 0" by simp
      with True hd show ?thesis
        by (simp add: show_nat.simps [of "n div 10"] char_eq_code of_char_digit_char)
    next
      case gt: False
      then have "length (show_nat (n div 10)) > 1"
        by (simp add: show_nat.simps [of "n div 10"])
      with False hd "1.IH" show ?thesis by simp
    qed
  qed
qed

text \<open>What may follow a number without being read as part of it.\<close>

definition num_end :: "string \<Rightarrow> bool" where
  "num_end r \<longleftrightarrow> r = [] \<or> (\<not> is_digit (hd r) \<and> hd r \<notin> {CHR ''.'', CHR ''e'', CHR ''E''})"

lemma takeWhile_digits: "list_all is_digit ds \<Longrightarrow> num_end r \<Longrightarrow>
    takeWhile is_digit (ds @ r) = ds \<and> dropWhile is_digit (ds @ r) = r"
  by (induction ds) (cases r; auto simp: num_end_def)+

lemma hd_show_nat: "hd (show_nat n) \<noteq> CHR ''-''"
  using show_nat_notin [of "CHR ''-''" n] by (metis hd_in_set is_digit_not_minus show_nat_ne)

lemma p_num_nat: "num_end r \<Longrightarrow> p_num (show_nat n @ r) = Some (JNum (int n), r)"
proof -
  assume r: "num_end r"
  from takeWhile_digits [OF show_nat_digits r] show ?thesis
    using show_nat_leading [of n] hd_show_nat [of n] r
    by (auto simp: p_num_def Let_def read_show_nat num_end_def)
qed

lemma p_num_show: "num_end r \<Longrightarrow> p_num (show_int n @ r) = Some (JNum n, r)"
proof (cases "n < 0")
  case False
  moreover assume "num_end r"
  ultimately show ?thesis using p_num_nat [of r "nat n"] by (simp add: show_int_def)
next
  case True
  moreover assume "num_end r"
  ultimately show ?thesis
    using takeWhile_digits [OF show_nat_digits, of r "nat (- n)"] show_nat_leading [of "nat (- n)"]
    by (auto simp: p_num_def Let_def read_show_nat num_end_def show_int_def)
qed

section \<open>The fuel is enough\<close>

lemma p_chars_length: "p_chars s = Some (k, r) \<Longrightarrow> length r < length s"
proof (induction s arbitrary: k r rule: p_chars.induct)
  case 1
  then show ?case by simp
next
  case (2 c cs)
  then show ?case
    by (fastforce simp: cons_res_def split: if_splits list.splits option.splits
        dest: hex_quad_length)
qed

lemma p_num_length: "p_num s = Some (v, r) \<Longrightarrow> length r < length s"
proof -
  have *: "takeWhile is_digit t \<noteq> [] \<Longrightarrow> length (dropWhile is_digit t) < length t" for t
    by (cases t) (auto simp: le_imp_less_Suc length_dropWhile_le split: if_splits)
  assume "p_num s = Some (v, r)"
  then show ?thesis
    using * [of s] * [of "tl s"] by (cases s) (auto simp: p_num_def Let_def split: if_splits)
qed

lemma p_lit_length: "w \<noteq> [] \<Longrightarrow> p_lit w v s = Some (x, r) \<Longrightarrow> length r < length s"
  by (auto simp: p_lit_def starts_with_iff split: if_splits)

lemma skip_ws_Cons_length: "skip_ws s = c # cs \<Longrightarrow> length cs < length s"
  by (metis Suc_le_lessD length_Cons length_dropWhile_le)

lemma p_length:
  "p_val n s = Some (v, r) \<Longrightarrow> length r < length s"
  "p_elems n acc s = Some (v, r) \<Longrightarrow> length r < length s"
  "p_members n facc s = Some (v, r) \<Longrightarrow> length r < length s"
proof (induction n s and n acc s and n facc s arbitrary: v r and v r and v r
    rule: p_val_p_elems_p_members.induct)
  case (2 n s)
  show ?case
  proof (cases "skip_ws s")
    case Nil
    with "2.prems" show ?thesis by simp
  next
    case (Cons c cs)
    note len = skip_ws_Cons_length [OF Cons]
    have sub: "length ds < length cs" if "skip_ws cs = d # ds" for d ds
      using that by (rule skip_ws_Cons_length)
    consider "c = CHR ''{''" | "c = CHR ''[''" | "c \<noteq> CHR ''{''" "c \<noteq> CHR ''[''" by blast
    then show ?thesis
    proof cases
      case 1
      then show ?thesis using "2.prems" len sub Cons "2.IH"(1) [OF Cons 1]
        by (fastforce split: list.splits if_splits)
    next
      case 2
      then show ?thesis using "2.prems" len sub Cons "2.IH"(2) [OF Cons _ 2]
        by (fastforce split: list.splits if_splits)
    next
      case 3
      have "length (c # cs) \<le> length s" using len by simp
      with 3 show ?thesis using "2.prems" Cons
        by (auto split: if_splits option.splits
            dest: p_chars_length p_lit_length [rotated] p_num_length)
    qed
  qed
next
  case (4 n acc s)
  then show ?case
    by (fastforce split: list.splits if_splits option.splits dest!: skip_ws_Cons_length)
next
  case (6 n acc s)
  then show ?case
    by (fastforce split: list.splits if_splits option.splits
        dest!: skip_ws_Cons_length p_chars_length)
qed simp_all
lemma p_fuel_all:
  "(\<forall>s m. 2 * length s < n \<and> 2 * length s < m \<longrightarrow> p_val n s = p_val m s) \<and>
   (\<forall>acc s m. 2 * length s + 1 < n \<and> 2 * length s + 1 < m \<longrightarrow> p_elems n acc s = p_elems m acc s) \<and>
   (\<forall>acc s m. 2 * length s + 1 < n \<and> 2 * length s + 1 < m \<longrightarrow> p_members n acc s = p_members m acc s)"
proof (induction n)
  case 0
  then show ?case by simp
next
  case (Suc n)
  have val: "p_val n s = p_val m s" if "2 * length s < n" "2 * length s < m" for s m
    using Suc that by blast
  have elems: "p_elems n acc s = p_elems m acc s"
    if "2 * length s + 1 < n" "2 * length s + 1 < m" for acc s m
    using Suc that by blast
  have mems: "p_members n facc s = p_members m facc s"
    if "2 * length s + 1 < n" "2 * length s + 1 < m" for facc s m
    using Suc that by blast
  have "p_val (Suc n) s = p_val m s" if "2 * length s < Suc n" "2 * length s < m" for s m
  proof (cases m)
    case (Suc k)
    have len: "2 * length (d # ds) + 1 < n \<and> 2 * length (d # ds) + 1 < k"
      if "skip_ws s = c # cs" "skip_ws cs = d # ds" for c cs d ds
    proof -
      have "length (d # ds) < length s"
        using skip_ws_Cons_length [OF that(1)] skip_ws_Cons_length [OF that(2)] by simp
      with \<open>2 * length s < Suc n\<close> \<open>2 * length s < m\<close> Suc show ?thesis by simp
    qed
    note e = elems [OF conjunct1 [OF len] conjunct2 [OF len]]
      and f = mems [OF conjunct1 [OF len] conjunct2 [OF len]]
    show ?thesis
    proof (cases "skip_ws s")
      case Nil
      then show ?thesis by (simp add: Suc del: dropWhile_eq_Nil_conv)
    next
      case c: (Cons c cs)
      show ?thesis
      proof (cases "skip_ws cs")
        case Nil
        with c show ?thesis by (simp add: Suc del: dropWhile_eq_Nil_conv)
      next
        case (Cons d ds)
        show ?thesis
          by (simp only: Suc p_val.simps(2) c Cons list.case e [OF c Cons c Cons]
              f [OF c Cons c Cons] split: if_split)
      qed
    qed
  qed (use that in simp_all)
  moreover have "p_elems (Suc n) acc s = p_elems m acc s"
    if "2 * length s + 1 < Suc n" "2 * length s + 1 < m" for acc s m
  proof (cases m)
    case (Suc k)
    have v: "p_val n s = p_val k s" using that Suc by (intro val) simp_all
    have e: "p_elems n acc' cs = p_elems k acc' cs"
      if "p_val k s = Some (v, r)" "skip_ws r = c # cs" for v r c cs acc'
    proof -
      have "length cs + 1 < length s"
        using p_length(1) [OF that(1)] skip_ws_Cons_length [OF that(2)] by simp
      with \<open>2 * length s + 1 < Suc n\<close> \<open>2 * length s + 1 < m\<close> Suc show ?thesis
        by (intro elems) simp_all
    qed
    show ?thesis unfolding Suc
      by (simp add: v e del: dropWhile_eq_Nil_conv split: list.split option.split)
  qed (use that in simp_all)
  moreover have "p_members (Suc n) acc s = p_members m acc s"
    if "2 * length s + 1 < Suc n" "2 * length s + 1 < m" for acc s m
  proof (cases m)
    case (Suc k)
    have v: "p_val n cs = p_val k cs"
      if "skip_ws s = q # qs" "p_chars qs = Some (x, r)" "skip_ws r = c # cs" for q qs x r c cs
    proof -
      have "length cs < length s"
        using skip_ws_Cons_length [OF that(1)] p_chars_length [OF that(2)] skip_ws_Cons_length [OF that(3)]
        by simp
      with \<open>2 * length s + 1 < Suc n\<close> \<open>2 * length s + 1 < m\<close> Suc show ?thesis
        by (intro val) simp_all
    qed
    have e: "p_members n acc' ds = p_members k acc' ds"
      if "skip_ws s = q # qs" "p_chars qs = Some (x, r)" "skip_ws r = c # cs"
        "p_val k cs = Some (y, r')" "skip_ws r' = d # ds" for q qs x r c cs y r' d ds acc'
    proof -
      have "length ds + 1 < length s"
        using skip_ws_Cons_length [OF that(1)] p_chars_length [OF that(2)] skip_ws_Cons_length [OF that(3)]
          p_length(1) [OF that(4)] skip_ws_Cons_length [OF that(5)]
        by simp
      with \<open>2 * length s + 1 < Suc n\<close> \<open>2 * length s + 1 < m\<close> Suc show ?thesis
        by (intro mems) simp_all
    qed
    show ?thesis unfolding Suc
      by (simp add: v e del: dropWhile_eq_Nil_conv split: list.split option.split)
  qed (use that in simp_all)
  ultimately show ?case by blast
qed

lemma p_val_fuel: "json_fuel s \<le> n \<Longrightarrow> p_val n s = p_val (json_fuel s) s"
  by (rule p_fuel_all [THEN conjunct1, rule_format]) (simp_all add: json_fuel_def)

lemma json_parseI: "p_val n s = Some (v, []) \<Longrightarrow> json_fuel s \<le> n \<Longrightarrow> json_parse s = Some v"
  using p_val_fuel [of s n] by (simp add: json_parse_def del: p_val.simps)

section \<open>The round trip\<close>

text \<open>The values that survive printing: no \<open>undefined\<close>, no NaN, no repeated key.\<close>

fun json_clean :: "jv \<Rightarrow> bool" where
  "json_clean JUndef = False"
| "json_clean JNaN = False"
| "json_clean (JArr vs) = list_all json_clean vs"
| "json_clean (JObj fs) = (distinct (map fst fs) \<and> list_all (\<lambda>p. json_clean (snd p)) fs)"
| "json_clean _ = True"

lemma json_clean_Some: "json_clean v \<Longrightarrow> json_value v \<noteq> None"
  by (cases v) auto

lemma head_show_int: "\<exists>c cs. show_int n = c # cs \<and> (c = CHR ''-'' \<or> is_digit c)"
  using show_nat_digits [of "nat n"] show_nat_ne [of "nat n"]
  by (cases "show_nat (nat n)") (auto simp: show_int_def)

lemma digit_facts: "is_digit c \<or> c = CHR ''-'' \<Longrightarrow>
    \<not> json_ws c \<and> c \<notin> {CHR ''{'', CHR ''['', CHR 0x22, CHR ''n'', CHR ''t'', CHR ''f'', CHR '']''}"
  by (auto simp: is_digit_def json_ws_def Let_def)

lemma ws_facts [simp]:
  "\<not> json_ws CHR ''{''" "\<not> json_ws CHR ''['' " "\<not> json_ws CHR 0x22" "\<not> json_ws CHR ''n''"
  "\<not> json_ws CHR ''t''" "\<not> json_ws CHR ''f''" "\<not> json_ws CHR '',''" "\<not> json_ws CHR '':''"
  "\<not> json_ws CHR '']''" "\<not> json_ws CHR ''}''"
  by (simp_all add: json_ws_def)

lemma json_value_head: "json_value v = Some t \<Longrightarrow> \<not> json_ws (hd t) \<and> t \<noteq> [] \<and> hd t \<noteq> CHR '']''"
proof (cases v)
  case (JNum n)
  assume "json_value v = Some t"
  then have "t = show_int n" using JNum by simp
  then show ?thesis
    using head_show_int [of n] digit_facts [of "hd t"] by auto
next
  case (JBool b)
  assume "json_value v = Some t"
  with JBool show ?thesis by (cases b) auto
next
  case (JStr x)
  assume "json_value v = Some t"
  with JStr show ?thesis by (simp add: json_quote_def) force
qed auto

lemma obj_put_new: "k \<notin> fst ` set fs \<Longrightarrow> obj_put k v fs = fs @ [(k, v)]"
  by (induction k v fs rule: obj_put.induct) auto

lemma p_val_num: "num_end r \<Longrightarrow> p_val (Suc n) (show_int i @ r) = Some (JNum i, r)"
proof -
  assume r: "num_end r"
  obtain c cs where c: "show_int i = c # cs" "c = CHR ''-'' \<or> is_digit c"
    using head_show_int by blast
  have "p_val (Suc n) (c # cs @ r) = p_num (c # cs @ r)"
    using digit_facts [OF disj_commute [THEN iffD1, OF c(2)]] by simp
  then show ?thesis using p_num_show [OF r, of i] c(1) by simp
qed

lemma p_val_quote: "p_val (Suc n) (json_quote s @ r) = Some (JStr s, r)"
  using p_chars_quoted [of s r] by (simp add: json_quote_def)

lemma join_Cons: "xs \<noteq> [] \<Longrightarrow> join sep (x # xs) = x @ sep @ join sep xs"
  by (cases xs) auto

definition parses :: "string \<Rightarrow> jv \<Rightarrow> bool" where
  "parses t v \<longleftrightarrow> (\<forall>r. num_end r \<longrightarrow> (\<exists>N. \<forall>n \<ge> N. p_val n (t @ r) = Some (v, r)))"

lemma num_end_simps [simp]: "num_end []" "num_end (CHR '','' # s)" "num_end (CHR '']'' # s)" "num_end (CHR ''}'' # s)"
  by (simp_all add: num_end_def is_digit_def)

lemma parses_SucI: "(\<And>n r. num_end r \<Longrightarrow> p_val (Suc n) (t @ r) = Some (v, r)) \<Longrightarrow> parses t v"
  unfolding parses_def by (metis Suc_le_D)

lemma p_elems_step:
  assumes v: "parses t v" and sep: "c = CHR '','' \<or> c = CHR '']''"
  shows "\<exists>N. \<forall>n \<ge> N. \<forall>acc. p_elems (Suc n) acc (t @ c # r) =
    (if c = CHR '','' then p_elems n (acc @ [v]) r else Some (JArr (acc @ [v]), r))"
proof -
  have "num_end (c # r)" using sep by auto
  with v obtain N where "\<forall>n \<ge> N. p_val n (t @ c # r) = Some (v, c # r)"
    unfolding parses_def by blast
  with sep show ?thesis by (intro exI [of _ N]) auto
qed

lemma p_members_step:
  assumes v: "parses t v" and sep: "c = CHR '','' \<or> c = CHR ''}''"
  shows "\<exists>N. \<forall>n \<ge> N. \<forall>acc. p_members (Suc n) acc (json_quote k @ CHR '':'' # t @ c # r) =
    (if c = CHR '','' then p_members n (obj_put k v acc) r else Some (JObj (obj_put k v acc), r))"
proof -
  have "num_end (c # r)" using sep by auto
  with v obtain N where N: "\<forall>n \<ge> N. p_val n (t @ c # r) = Some (v, c # r)"
    unfolding parses_def by blast
  have q: "p_chars (concat (map esc_char k) @ CHR 0x22 # CHR '':'' # t @ c # r)
      = Some (k, CHR '':'' # t @ c # r)"
    by (rule p_chars_quoted)
  show ?thesis
    using N sep by (intro exI [of _ N]) (auto simp: json_quote_def q simp del: p_chars.simps)
qed

lemma json_elems_parse:
  assumes "vs \<noteq> []" "\<And>v. v \<in> set vs \<Longrightarrow> \<exists>t. json_value v = Some t \<and> parses t v"
  shows "\<exists>N. \<forall>n \<ge> N. \<forall>acc. p_elems n acc (join '','' (json_elems vs) @ CHR '']'' # r) =
    Some (JArr (acc @ vs), r)"
  using assms
proof (induction vs)
  case Nil
  then show ?case by simp
next
  case (Cons v vs)
  from Cons.prems(2) [of v] obtain t where t: "json_value v = Some t" "parses t v" by auto
  show ?case
  proof (cases "vs = []")
    case True
    obtain N where N: "\<forall>n \<ge> N. \<forall>acc. p_elems (Suc n) acc (t @ CHR '']'' # r) = Some (JArr (acc @ [v]), r)"
      using p_elems_step [OF t(2), of "CHR '']''" r] by auto
    then have "\<forall>n \<ge> Suc N. \<forall>acc. p_elems n acc (t @ CHR '']'' # r) = Some (JArr (acc @ [v]), r)"
      by (metis Suc_le_D Suc_le_mono)
    with True t show ?thesis
      by (intro exI [of _ "Suc N"]) (auto simp del: p_elems.simps)
  next
    case False
    let ?r = "join '','' (json_elems vs) @ CHR '']'' # r"
    obtain N where N: "\<forall>n \<ge> N. \<forall>acc. p_elems (Suc n) acc (t @ CHR '','' # ?r) = p_elems n (acc @ [v]) ?r"
      using p_elems_step [OF t(2), of "CHR '',''" ?r] by auto
    obtain M where M: "\<forall>n \<ge> M. \<forall>acc. p_elems n acc ?r = Some (JArr (acc @ vs), r)"
      using Cons.IH [OF False] Cons.prems(2) by auto
    have "json_elems vs \<noteq> []" using False by (cases vs) auto
    then have eq: "join '','' (json_elems (v # vs)) @ CHR '']'' # r = t @ CHR '','' # ?r"
      using t by (simp add: join_Cons)
    have "p_elems n acc (t @ CHR '','' # ?r) = Some (JArr (acc @ v # vs), r)"
      if n: "Suc (max N M) \<le> n" for n acc
    proof -
      obtain m where "n = Suc m" "N \<le> m" "M \<le> m" using n by (cases n) auto
      with N M show ?thesis by (simp del: p_elems.simps)
    qed
    then show ?thesis unfolding eq by blast
  qed
qed

lemma json_members_parse:
  assumes "fs \<noteq> []" "\<And>p. p \<in> set fs \<Longrightarrow> \<exists>t. json_value (snd p) = Some t \<and> parses t (snd p)"
    and "distinct (map fst fs)"
  shows "\<exists>N. \<forall>n \<ge> N. \<forall>acc. fst ` set acc \<inter> fst ` set fs = {} \<longrightarrow>
    p_members n acc (join '','' (json_members fs) @ CHR ''}'' # r) = Some (JObj (acc @ fs), r)"
  using assms
proof (induction fs)
  case Nil
  then show ?case by simp
next
  case (Cons f fs)
  obtain k v where f: "f = (k, v)" by (cases f)
  with Cons.prems(2) [of f] obtain t where t: "json_value v = Some t" "parses t v" by auto
  show ?case
  proof (cases "fs = []")
    case True
    obtain N where N: "\<forall>n \<ge> N. \<forall>acc. p_members (Suc n) acc (json_quote k @ CHR '':'' # t @ CHR ''}'' # r)
        = Some (JObj (obj_put k v acc), r)"
      using p_members_step [OF t(2), of "CHR ''}''" k r] by auto
    have "p_members n acc (json_quote k @ CHR '':'' # t @ CHR ''}'' # r) = Some (JObj (acc @ [f]), r)"
      if n: "Suc N \<le> n" and acc: "k \<notin> fst ` set acc" for n acc
    proof -
      obtain m where "n = Suc m" "N \<le> m" using n by (cases n) auto
      with N acc f show ?thesis by (simp add: obj_put_new del: p_members.simps)
    qed
    with True t f show ?thesis
      by (intro exI [of _ "Suc N"]) (auto simp del: p_members.simps)
  next
    case False
    let ?r = "join '','' (json_members fs) @ CHR ''}'' # r"
    obtain N where N: "\<forall>n \<ge> N. \<forall>acc. p_members (Suc n) acc (json_quote k @ CHR '':'' # t @ CHR '','' # ?r)
        = p_members n (obj_put k v acc) ?r"
      using p_members_step [OF t(2), of "CHR '',''" k ?r] by auto
    obtain M where M: "\<forall>n \<ge> M. \<forall>acc. fst ` set acc \<inter> fst ` set fs = {} \<longrightarrow>
        p_members n acc ?r = Some (JObj (acc @ fs), r)"
      using Cons.IH [OF False Cons.prems(2)] Cons.prems(3) by auto
    have "json_members fs \<noteq> []" using False Cons.prems(2) [of "hd fs"] by (cases fs) auto
    then have eq: "join '','' (json_members (f # fs)) @ CHR ''}'' # r =
        json_quote k @ CHR '':'' # t @ CHR '','' # ?r"
      using t f by (simp add: join_Cons)
    have "p_members n acc (json_quote k @ CHR '':'' # t @ CHR '','' # ?r) = Some (JObj (acc @ f # fs), r)"
      if n: "Suc (max N M) \<le> n" and acc: "fst ` set acc \<inter> fst ` set (f # fs) = {}" for n acc
    proof -
      obtain m where m: "n = Suc m" "N \<le> m" "M \<le> m" using n by (cases n) auto
      have "obj_put k v acc = acc @ [f]" using acc f by (intro obj_put_new [of k acc v, folded f]) auto
      moreover have "fst ` set (acc @ [f]) \<inter> fst ` set fs = {}"
        using acc Cons.prems(3) by auto
      ultimately show ?thesis using m N M by (simp del: p_members.simps)
    qed
    then show ?thesis unfolding eq by blast
  qed
qed

lemma json_clean_parses: "json_clean v \<Longrightarrow> \<exists>t. json_value v = Some t \<and> parses t v"
proof (induction v)
  case (JBool b)
  show ?case by (cases b) (auto intro!: parses_SucI simp: p_lit_def)
next
  case (JNum n)
  show ?case by (auto intro!: parses_SucI p_val_num)
next
  case (JStr s)
  show ?case by (auto intro!: parses_SucI p_val_quote simp del: p_val.simps)
next
  case (JArr vs)
  show ?case
  proof (cases "vs = []")
    case True
    then show ?thesis by (auto intro!: parses_SucI)
  next
    case False
    then obtain w ws where vs: "vs = w # ws" by (cases vs) auto
    have el: "\<exists>t. json_value v = Some t \<and> parses t v" if "v \<in> set vs" for v
      using that JArr by (auto simp: list_all_iff)
    obtain t where "json_value w = Some t" using el vs by auto
    then have hd: "\<exists>c cs. join '','' (json_elems vs) = c # cs \<and> \<not> json_ws c \<and> c \<noteq> CHR '']''"
      using json_value_head [of w t] vs by (cases "json_elems ws"; cases t) auto
    have "parses (''['' @ join '','' (json_elems vs) @ '']'') (JArr vs)"
      unfolding parses_def
    proof (intro allI impI)
      fix r
      obtain N where N: "\<forall>n \<ge> N. \<forall>acc. p_elems n acc (join '','' (json_elems vs) @ CHR '']'' # r)
          = Some (JArr (acc @ vs), r)"
        using json_elems_parse [OF False el] by blast
      have "p_val (Suc n) ((''['' @ join '','' (json_elems vs) @ '']'') @ r) = Some (JArr vs, r)"
        if "N \<le> n" for n
        using N that hd by (auto simp del: p_elems.simps)
      then show "\<exists>N. \<forall>n \<ge> N. p_val n ((''['' @ join '','' (json_elems vs) @ '']'') @ r) = Some (JArr vs, r)"
        by (intro exI [of _ "Suc N"]) (metis Suc_le_D Suc_le_mono)
    qed
    then show ?thesis by simp
  qed
next
  case (JObj fs)
  show ?case
  proof (cases "fs = []")
    case True
    then show ?thesis by (auto intro!: parses_SucI)
  next
    case False
    have el: "\<exists>t. json_value (snd p) = Some t \<and> parses t (snd p)" if "p \<in> set fs" for p
    proof -
      have "snd p \<in> Basic_BNFs.snds p" by (cases p) simp
      with that JObj.IH [of p "snd p"] JObj.prems show ?thesis by (simp add: list_all_iff)
    qed
    obtain k w ws where fs: "fs = (k, w) # ws" using False by (cases fs) auto
    obtain t where "json_value w = Some t" using el [of "(k, w)"] fs by auto
    then have hd: "\<exists>cs. join '','' (json_members fs) = CHR 0x22 # cs"
      using fs by (cases "json_members ws") (auto simp: json_quote_def)
    have "parses (''{'' @ join '','' (json_members fs) @ ''}'') (JObj fs)"
      unfolding parses_def
    proof (intro allI impI)
      fix r
      obtain N where N: "\<forall>n \<ge> N. \<forall>acc. fst ` set acc \<inter> fst ` set fs = {} \<longrightarrow>
          p_members n acc (join '','' (json_members fs) @ CHR ''}'' # r) = Some (JObj (acc @ fs), r)"
        using json_members_parse [OF False el] JObj.prems by fastforce
      have "p_val (Suc n) ((''{'' @ join '','' (json_members fs) @ ''}'') @ r) = Some (JObj fs, r)"
        if "N \<le> n" for n
        using N that hd by (auto simp del: p_members.simps)
      then show "\<exists>N. \<forall>n \<ge> N. p_val n ((''{'' @ join '','' (json_members fs) @ ''}'') @ r) = Some (JObj fs, r)"
        by (intro exI [of _ "Suc N"]) (metis Suc_le_D Suc_le_mono)
    qed
    then show ?thesis by simp
  qed
qed (auto intro!: parses_SucI simp: p_lit_def)

lemma json_parse_value:
  assumes "json_clean v" and "json_value v = Some t"
  shows "json_parse t = Some v"
proof -
  obtain N where N: "\<forall>n \<ge> N. p_val n (t @ []) = Some (v, [])"
    using json_clean_parses [OF assms(1)] assms(2) unfolding parses_def
    by (metis num_end_simps(1) option.inject)
  then have "p_val (max N (json_fuel t)) t = Some (v, [])" by simp
  then show ?thesis by (rule json_parseI) simp
qed

lemma json_parse_stringify: "json_clean (JObj fs) \<Longrightarrow> json_parse (json_stringify fs) = Some (JObj fs)"
  by (rule json_parse_value) (simp_all add: json_stringify_def)

text \<open>What the clients of the codec rely on, stated as an interface.\<close>

locale codec =
  fixes encode :: "(string \<times> jv) list \<Rightarrow> string"
    and decode :: "string \<Rightarrow> jv option"
    and clean :: "jv \<Rightarrow> bool"
  assumes decode_encode: "clean (JObj fs) \<Longrightarrow> decode (encode fs) = Some (JObj fs)"
begin

lemma encode_inj: "clean (JObj fs) \<Longrightarrow> clean (JObj gs) \<Longrightarrow> encode fs = encode gs \<longleftrightarrow> fs = gs"
  using decode_encode by (metis jv.inject(5) option.inject)

text \<open>A frame that carries an encoded object in one of its members can be opened twice.\<close>

lemma decode_nested:
  assumes "clean (JObj inner)" and "clean (JObj outer)" and "obj_lookup outer k = JStr (encode inner)"
  shows "map_option (\<lambda>v. opt_get v k) (decode (encode outer)) = Some (JStr (encode inner))
    \<and> decode (encode inner) = Some (JObj inner)"
  using assms decode_encode by auto

end

interpretation json: codec json_stringify json_parse json_clean
  by unfold_locales (rule json_parse_stringify)

end
