(* ===== verification/World.thy ===== *)
theory World
  imports Stores JSON_Codec
begin

text \<open>
  The world a panel script runs in: the stores it shares with the other components, the extension
  APIs (\<open>chrome.storage.local\<close>, the active tab, messages to the worker), the router and the
  network, and the trace of the effects issued so far. What is outside the repository's
  TypeScript (the server, the router, the browser's tab navigation) is an oracle of the world: its
  answer may depend on everything issued before, so a retried request may be answered differently.

  A script is a function of the world that returns a value or throws one, and the changed world.
  An \<open>await\<close> is sequencing: a handler that is modelled this way runs to its end before the next
  one starts; handlers whose interleaving matters are modelled as machines with one event per
  resumption (the chat socket, the leaderboard and the problem count). Console logging is dropped.
\<close>

section \<open>Requests and effects\<close>

record request =
  rq_method :: string
  rq_url :: string
  rq_body :: "string option"
  rq_credentials :: bool

text \<open>
  A response with its status and the outcome of \<open>res.json()\<close> (\<open>None\<close>: the body is no JSON, the
  promise rejects), or a rejected \<open>fetch\<close> with the error thrown.
\<close>

datatype http = NetError jv | Response nat "jv option"

datatype effect =
    Fetch request
  | Sleep int
  | RouterPush string
  | StorageSet "(string \<times> jv) list"
  | StorageRemove string
  | TabUpdate jv string
  | SendMessage jv
  | SetBadge string
  | Alert string
  | WindowOpen string
  | StartTimer string int

record world =
  w_room :: room_store
  w_user :: user_store
  w_settings :: settings_store
  w_panel :: panel_store
  w_counts :: count_store
  w_local :: "string \<rightharpoonup> jv"
  w_chrome :: bool
  w_tab :: "(jv \<times> jv) option"
  w_now :: int
  w_nextProblem :: jv
  w_gameRef :: string
  w_serverUrl :: string
  w_rtcUrl :: string
  w_server :: "effect list \<Rightarrow> request \<Rightarrow> http"
  w_router :: "effect list \<Rightarrow> string \<Rightarrow> jv + bool"
  w_tabs :: "effect list \<Rightarrow> string \<Rightarrow> jv option"
  w_trace :: "effect list"

section \<open>Scripts\<close>

type_synonym ('w, 'a) js = "'w \<Rightarrow> (jv + 'a) \<times> 'w"

definition ret :: "'a \<Rightarrow> ('w, 'a) js" where
  "ret x w = (Inr x, w)"

definition throw :: "jv \<Rightarrow> ('w, 'a) js" where
  "throw e w = (Inl e, w)"

text \<open>\<open>await m\<close> followed by the rest of the function.\<close>

definition bnd :: "('w, 'a) js \<Rightarrow> ('a \<Rightarrow> ('w, 'b) js) \<Rightarrow> ('w, 'b) js" where
  "bnd m f w = (case m w of (Inl e, w') \<Rightarrow> (Inl e, w') | (Inr x, w') \<Rightarrow> f x w')"

definition seqm :: "('w, 'a) js \<Rightarrow> ('w, 'b) js \<Rightarrow> ('w, 'b) js" where
  "seqm m n = bnd m (\<lambda>_. n)"

text \<open>\<open>try m catch (e) h(e)\<close> and \<open>try m finally f\<close> (the \<open>finally\<close> blocks used do not throw).\<close>

definition catch :: "('w, 'a) js \<Rightarrow> (jv \<Rightarrow> ('w, 'a) js) \<Rightarrow> ('w, 'a) js" where
  "catch m h w = (case m w of (Inl e, w') \<Rightarrow> h e w' | (Inr x, w') \<Rightarrow> (Inr x, w'))"

definition finally_do :: "('w, 'a) js \<Rightarrow> ('w \<Rightarrow> 'w) \<Rightarrow> ('w, 'a) js" where
  "finally_do m f w = (case m w of (r, w') \<Rightarrow> (r, f w'))"

definition modify :: "('w \<Rightarrow> 'w) \<Rightarrow> ('w, unit) js" where
  "modify f w = (Inr (), f w)"

definition asks :: "('w \<Rightarrow> 'a) \<Rightarrow> ('w, 'a) js" where
  "asks f w = (Inr (f w), w)"

text \<open>A pure computation that may throw.\<close>

definition lift :: "jv + 'a \<Rightarrow> ('w, 'a) js" where
  "lift r w = (r, w)"

definition when_do :: "bool \<Rightarrow> ('w, unit) js \<Rightarrow> ('w, unit) js" where
  "when_do b m = (if b then m else ret ())"

fun seq_list :: "('w, unit) js list \<Rightarrow> ('w, unit) js" where
  "seq_list [] = ret ()"
| "seq_list [m] = m"
| "seq_list (m # n # ms) = seqm m (seq_list (n # ms))"

section \<open>Effects\<close>

definition emit :: "effect \<Rightarrow> (world, unit) js" where
  "emit e = modify (\<lambda>w. w\<lparr>w_trace := w_trace w @ [e]\<rparr>)"

definition on_room :: "(room_store \<Rightarrow> room_store) \<Rightarrow> (world, unit) js" where
  "on_room f = modify (\<lambda>w. w\<lparr>w_room := f (w_room w)\<rparr>)"

definition on_user :: "(user_store \<Rightarrow> user_store) \<Rightarrow> (world, unit) js" where
  "on_user f = modify (\<lambda>w. w\<lparr>w_user := f (w_user w)\<rparr>)"

text \<open>\<open>fetch(url, options)\<close>: the status and body of the response, or the rejection.\<close>

definition fetch_req :: "request \<Rightarrow> (world, nat \<times> jv option) js" where
  "fetch_req r w =
     (let w' = w\<lparr>w_trace := w_trace w @ [Fetch r]\<rparr> in
      case w_server w (w_trace w) r of
        NetError e \<Rightarrow> (Inl e, w')
      | Response st body \<Rightarrow> (Inr (st, body), w'))"

text \<open>Paths are relative to \<open>getServerUrl()\<close>.\<close>

definition http_get :: "string \<Rightarrow> (world, nat \<times> jv option) js" where
  "http_get path = bnd (asks w_serverUrl) (\<lambda>base.
     fetch_req \<lparr>rq_method = ''GET'', rq_url = base @ path, rq_body = None, rq_credentials = True\<rparr>)"

definition http_post :: "string \<Rightarrow> string option \<Rightarrow> (world, nat \<times> jv option) js" where
  "http_post path body = bnd (asks w_serverUrl) (\<lambda>base.
     fetch_req \<lparr>rq_method = ''POST'', rq_url = base @ path, rq_body = body, rq_credentials = True\<rparr>)"

definition res_status :: "nat \<times> jv option \<Rightarrow> nat" where
  "res_status r = fst r"

definition res_ok :: "nat \<times> jv option \<Rightarrow> bool" where
  "res_ok r = (200 \<le> fst r \<and> fst r \<le> 299)"

definition syntax_error :: jv where
  "syntax_error = mk_error ''SyntaxError'' ''Unexpected token''"

text \<open>\<open>await res.json()\<close>\<close>

definition res_json :: "nat \<times> jv option \<Rightarrow> ('w, jv) js" where
  "res_json r = (case snd r of None \<Rightarrow> throw syntax_error | Some v \<Rightarrow> ret v)"

text \<open>
  \<open>chrome.storage.local\<close>. JSON serialisation on the way to the disk drops nothing that the
  modelled code stores.
\<close>

definition storage_set :: "(string \<times> jv) list \<Rightarrow> (world, unit) js" where
  "storage_set kvs = seqm (emit (StorageSet kvs))
     (modify (\<lambda>w. w\<lparr>w_local := w_local w ++ map_of (rev kvs)\<rparr>))"

definition storage_remove :: "string \<Rightarrow> (world, unit) js" where
  "storage_remove k = seqm (emit (StorageRemove k)) (modify (\<lambda>w. w\<lparr>w_local := (w_local w)(k := None)\<rparr>))"

definition local_get :: "world \<Rightarrow> string \<Rightarrow> jv" where
  "local_get w k = (case w_local w k of Some v \<Rightarrow> v | None \<Rightarrow> JUndef)"

definition storage_get :: "string \<Rightarrow> (world, jv) js" where
  "storage_get k = asks (\<lambda>w. local_get w k)"

text \<open>\<open>if (typeof chrome !== 'undefined' && ...)\<close>: the script runs inside the extension.\<close>

definition in_chrome :: "(world, unit) js \<Rightarrow> (world, unit) js" where
  "in_chrome m = bnd (asks w_chrome) (\<lambda>c. when_do c m)"

section \<open>How the combinators act\<close>

lemma script_simps [simp, effect_simps]:
  "ret x w = (Inr x, w)"
  "throw e w = (Inl e, w)"
  "modify f w = (Inr (), f w)"
  "asks g w = (Inr (g w), w)"
  "lift r w = (r, w)"
  "when_do True m = m"
  "when_do False m = ret ()"
  by (simp_all add: ret_def throw_def modify_def asks_def lift_def when_do_def)

lemma bnd_simps [simp, effect_simps]:
  "bnd (ret x) f = f x"
  "bnd (throw e) f = throw e"
  "bnd (asks g) f w = f (g w) w"
  "bnd (modify h) k w = k () (h w)"
  "bnd (lift (Inl e)) f = throw e"
  "bnd (lift (Inr x)) f = f x"
  "seqm (modify h) n w = n (h w)"
  "seqm (ret x) n = n"
  by (auto simp: bnd_def seqm_def fun_eq_iff)

lemma bnd_assoc: "bnd (bnd m f) g = bnd m (\<lambda>x. bnd (f x) g)"
  by (rule ext) (simp add: bnd_def split: prod.split sum.split)

lemma catch_simps [simp, effect_simps]:
  "catch (ret x) h = ret x"
  "catch (throw e) h = h e"
  by (auto simp: catch_def fun_eq_iff)

lemma pair_script_simps [simp, effect_simps]:
  "catch (Pair (Inl e)) h w = h e w"
  "catch (Pair (Inr x)) h' w' = (Inr x, w')"
  "bnd (Pair (Inl e)) f w = (Inl e, w)"
  "bnd (Pair (Inr x)) f' w' = f' x w'"
  by (auto simp: catch_def bnd_def)

lemma catch_Inr: "m w = (Inr x, w') \<Longrightarrow> catch m h w = (Inr x, w')"
  by (simp add: catch_def)

lemma catch_Inl: "m w = (Inl e, w') \<Longrightarrow> catch m h w = h e w'"
  by (simp add: catch_def)

lemma bnd_Inr: "m w = (Inr x, w') \<Longrightarrow> bnd m f w = f x w'"
  by (simp add: bnd_def)

lemma bnd_Inl: "m w = (Inl e, w') \<Longrightarrow> bnd m f w = (Inl e, w')"
  by (simp add: bnd_def)

lemma catch_cases: "catch m h w = (case m w of (Inl e, w') \<Rightarrow> h e w' | (Inr x, w') \<Rightarrow> (Inr x, w'))"
  by (simp add: catch_def)

lemma in_chrome_simps [simp, effect_simps]:
  "w_chrome w \<Longrightarrow> in_chrome m w = m w"
  "\<not> w_chrome w \<Longrightarrow> in_chrome m w = (Inr (), w)"
  by (simp_all add: in_chrome_def)

lemma effect_act [simp, effect_simps]:
  "emit e w = (Inr (), w\<lparr>w_trace := w_trace w @ [e]\<rparr>)"
  "on_room f w = (Inr (), w\<lparr>w_room := f (w_room w)\<rparr>)"
  "on_user g w = (Inr (), w\<lparr>w_user := g (w_user w)\<rparr>)"
  "storage_set kvs w = (Inr (), w\<lparr>w_trace := w_trace w @ [StorageSet kvs], w_local := w_local w ++ map_of (rev kvs)\<rparr>)"
  "storage_remove k w = (Inr (), w\<lparr>w_trace := w_trace w @ [StorageRemove k], w_local := (w_local w)(k := None)\<rparr>)"
  "storage_get k w = (Inr (local_get w k), w)"
  by (simp_all add: emit_def on_room_def on_user_def storage_set_def storage_remove_def storage_get_def seqm_def bnd_def)

lemma seqm_act [simp, effect_simps]:
  "seqm (emit e) n w = n (w\<lparr>w_trace := w_trace w @ [e]\<rparr>)"
  "seqm (on_room f) n w = n (w\<lparr>w_room := f (w_room w)\<rparr>)"
  "seqm (on_user g) n w = n (w\<lparr>w_user := g (w_user w)\<rparr>)"
  "seqm (storage_set kvs) n w = n (w\<lparr>w_trace := w_trace w @ [StorageSet kvs], w_local := w_local w ++ map_of (rev kvs)\<rparr>)"
  "seqm (storage_remove k) n w = n (w\<lparr>w_trace := w_trace w @ [StorageRemove k], w_local := (w_local w)(k := None)\<rparr>)"
  by (simp_all add: seqm_def bnd_def)

lemma seqm_bnd_asks [simp, effect_simps]: "seqm (bnd (asks g) f) n w = seqm (f (g w)) n w"
  by (simp add: seqm_def bnd_def)

lemma bnd_storage_get [simp, effect_simps]: "bnd (storage_get k) f w = f (local_get w k) w"
  by (simp add: bnd_def)

lemma seqm_in_chrome [simp, effect_simps]:
  "w_chrome w \<Longrightarrow> seqm (in_chrome m) n w = seqm m n w"
  "\<not> w_chrome w \<Longrightarrow> seqm (in_chrome m) n w = n w"
  by (simp_all add: seqm_def bnd_def)

text \<open>The laws of the storage area that persisted state relies on, as an interface.\<close>

locale storage_area =
  fixes put :: "string \<Rightarrow> 'v \<Rightarrow> 'a \<Rightarrow> 'a"
    and del :: "string \<Rightarrow> 'a \<Rightarrow> 'a"
    and look :: "'a \<Rightarrow> string \<Rightarrow> 'v"
    and absent :: 'v
  assumes look_put: "look (put k v s) k' = (if k = k' then v else look s k')"
    and look_del: "look (del k s) k' = (if k = k' then absent else look s k')"
begin

lemma put_other: "k \<noteq> k' \<Longrightarrow> look (put k v s) k' = look s k'"
  by (simp add: look_put)

lemma del_put: "look (del k (put k v s)) = look (del k s)"
  by (rule ext) (simp add: look_put look_del)

lemma del_commute: "look (del k (del k' s)) = look (del k' (del k s))"
  by (rule ext) (simp add: look_del)

end

definition local_put :: "string \<Rightarrow> jv \<Rightarrow> world \<Rightarrow> world" where
  "local_put k v w = snd (storage_set [(k, v)] w)"

definition local_del :: "string \<Rightarrow> world \<Rightarrow> world" where
  "local_del k w = snd (storage_remove k w)"

interpretation local_area: storage_area local_put local_del local_get JUndef
  by unfold_locales (auto simp: local_put_def local_del_def local_get_def map_add_def)

lemma seqm_run: "m w = (Inr x, w') \<Longrightarrow> seqm m n w = n w'"
  by (simp add: seqm_def bnd_def)

lemma seqm_total: "fst (m w) = Inr x \<Longrightarrow> seqm m n w = n (snd (m w))"
  by (cases "m w") (simp add: seqm_def bnd_def)

lemma seqm_assoc [simp]: "seqm (seqm a b) c = seqm a (seqm b c)"
  by (simp add: seqm_def bnd_assoc)

lemma snd_catch_ret: "snd (catch m (\<lambda>e. ret x) w) = snd (m w)"
  by (auto simp: catch_def split: prod.split sum.split)

section \<open>Invariants of the room store under a script\<close>

named_theorems keeps_intro \<open>rules for \<open>keeps\<close>\<close>

definition keeps :: "(room_store \<Rightarrow> bool) \<Rightarrow> (world, 'a) js \<Rightarrow> bool" where
  "keeps Q m \<longleftrightarrow> (\<forall>w. Q (w_room w) \<longrightarrow> Q (w_room (snd (m w))))"

lemma keepsI: "(\<And>w. Q (w_room w) \<Longrightarrow> Q (w_room (snd (m w)))) \<Longrightarrow> keeps Q m"
  by (simp add: keeps_def)

lemma keepsD: "keeps Q m \<Longrightarrow> Q (w_room w) \<Longrightarrow> Q (w_room (snd (m w)))"
  by (simp add: keeps_def)

lemma keeps_same_room: "(\<And>w. w_room (snd (m w)) = w_room w) \<Longrightarrow> keeps Q m"
  by (simp add: keeps_def)

lemma keeps_basic [keeps_intro]:
  "keeps Q (ret x)" "keeps Q (throw e)" "keeps Q (lift r)" "keeps Q (asks g)" "keeps Q (emit ef)"
  "keeps Q (on_user u)" "keeps Q (storage_set kvs)" "keeps Q (storage_remove k)" "keeps Q (storage_get k)"
  by (simp_all add: keeps_def)

lemma keeps_bnd [keeps_intro]:
  assumes "keeps Q m" "\<And>x. keeps Q (f x)"
  shows "keeps Q (bnd m f)"
proof (rule keepsI)
  fix w :: world assume q: "Q (w_room w)"
  obtain r w' where m: "m w = (r, w')" by fastforce
  from keepsD [OF assms(1) q] m have "Q (w_room w')" by simp
  then show "Q (w_room (snd (bnd m f w)))"
    using m by (cases r) (auto simp: bnd_def intro: keepsD [OF assms(2)])
qed

lemma keeps_seqm [keeps_intro]: "keeps Q m \<Longrightarrow> keeps Q n \<Longrightarrow> keeps Q (seqm m n)"
  unfolding seqm_def by (rule keeps_bnd)

lemma keeps_catch [keeps_intro]:
  assumes "keeps Q m" "\<And>e. keeps Q (h e)"
  shows "keeps Q (catch m h)"
proof (rule keepsI)
  fix w :: world assume q: "Q (w_room w)"
  obtain r w' where m: "m w = (r, w')" by fastforce
  from keepsD [OF assms(1) q] m have "Q (w_room w')" by simp
  then show "Q (w_room (snd (catch m h w)))"
    using m by (cases r) (auto simp: catch_def intro: keepsD [OF assms(2)])
qed

lemma keeps_when_do [keeps_intro]: "keeps Q m \<Longrightarrow> keeps Q (when_do b m)"
  by (simp add: when_do_def keeps_basic)

lemma keeps_in_chrome [keeps_intro]: "keeps Q m \<Longrightarrow> keeps Q (in_chrome m)"
  unfolding in_chrome_def by (intro keeps_intro)

lemma keeps_if [keeps_intro]: "(b \<Longrightarrow> keeps Q m) \<Longrightarrow> (\<not> b \<Longrightarrow> keeps Q n) \<Longrightarrow> keeps Q (if b then m else n)"
  by simp

lemma keeps_fetch [keeps_intro]: "keeps Q (fetch_req r)" "keeps Q (http_get p)" "keeps Q (http_post p b)"
proof -
  show f: "keeps Q (fetch_req r)" for r
    by (rule keeps_same_room) (simp add: fetch_req_def Let_def split: http.split)
  show "keeps Q (http_get p)" "keeps Q (http_post p b)"
    unfolding http_get_def http_post_def by (intro keeps_intro f)+
qed

lemma keeps_res_json [keeps_intro]: "keeps Q (res_json r)"
  by (rule keeps_same_room) (simp add: res_json_def split: option.split)

lemma keeps_on_room: "(\<And>s. Q s \<Longrightarrow> Q (f s)) \<Longrightarrow> keeps Q (on_room f)"
  by (simp add: keeps_def)

section \<open>What a script returns\<close>

named_theorems yields_intro \<open>rules for \<open>yields\<close>\<close>

definition yields :: "('a \<Rightarrow> bool) \<Rightarrow> ('w, 'a) js \<Rightarrow> bool" where
  "yields P m \<longleftrightarrow> (\<forall>w x. fst (m w) = Inr x \<longrightarrow> P x)"

lemma yieldsD: "yields P m \<Longrightarrow> fst (m w) = Inr x \<Longrightarrow> P x"
  by (simp add: yields_def)

lemma yields_ret: "P x \<Longrightarrow> yields P (ret x)"
  by (simp add: yields_def)

lemma yields_throw [yields_intro]: "yields P (throw e)"
  by (simp add: yields_def)

lemma yields_bnd [yields_intro]: "(\<And>x. yields P (f x)) \<Longrightarrow> yields P (bnd m f)"
  by (fastforce simp: yields_def bnd_def split: prod.splits sum.splits)

lemma yields_seqm [yields_intro]: "yields P n \<Longrightarrow> yields P (seqm m n)"
  unfolding seqm_def by (rule yields_bnd)

lemma yields_catch [yields_intro]: "yields P m \<Longrightarrow> (\<And>e. yields P (h e)) \<Longrightarrow> yields P (catch m h)"
  unfolding yields_def catch_def
  by (intro allI) (auto split: prod.splits sum.splits, metis fst_conv)

lemma yields_if [yields_intro]: "(b \<Longrightarrow> yields P m) \<Longrightarrow> (\<not> b \<Longrightarrow> yields P n) \<Longrightarrow> yields P (if b then m else n)"
  by simp

section \<open>Observations that a script leaves alone\<close>

named_theorems frame_intro \<open>rules for \<open>preserves\<close>\<close>

definition preserves :: "('w \<Rightarrow> 'b) \<Rightarrow> ('w, 'a) js \<Rightarrow> bool" where
  "preserves f m \<longleftrightarrow> (\<forall>w. f (snd (m w)) = f w)"

lemma preservesD: "preserves f m \<Longrightarrow> f (snd (m w)) = f w"
  by (simp add: preserves_def)

lemma preserves_pure [frame_intro]:
  "preserves f (ret x)" "preserves f (throw e)" "preserves f (lift r)" "preserves f (asks g)"
  by (simp_all add: preserves_def)

lemma preserves_storage_get [frame_intro]: "preserves f (storage_get k)"
  by (simp add: preserves_def)

lemma preserves_bnd [frame_intro]:
  assumes "preserves f m" "\<And>x. preserves f (k x)"
  shows "preserves f (bnd m k)"
  unfolding preserves_def
proof
  fix w
  obtain r w' where m: "m w = (r, w')" by fastforce
  from preservesD [OF assms(1), of w] m show "f (snd (bnd m k w)) = f w"
    by (cases r) (auto simp: bnd_def preservesD [OF assms(2)])
qed

lemma preserves_seqm [frame_intro]: "preserves f m \<Longrightarrow> preserves f n \<Longrightarrow> preserves f (seqm m n)"
  unfolding seqm_def by (rule preserves_bnd)

lemma preserves_catch [frame_intro]:
  assumes "preserves f m" "\<And>e. preserves f (h e)"
  shows "preserves f (catch m h)"
  unfolding preserves_def
proof
  fix w
  obtain r w' where m: "m w = (r, w')" by fastforce
  from preservesD [OF assms(1), of w] m show "f (snd (catch m h w)) = f w"
    by (cases r) (auto simp: catch_def preservesD [OF assms(2)])
qed

lemma preserves_when_do [frame_intro]: "(b \<Longrightarrow> preserves f m) \<Longrightarrow> preserves f (when_do b m)"
  by (cases b) (simp_all add: preserves_def)

lemma preserves_in_chrome [frame_intro]: "preserves f m \<Longrightarrow> preserves f (in_chrome m)"
  unfolding in_chrome_def by (intro frame_intro)

lemma preserves_if [frame_intro]: "(b \<Longrightarrow> preserves f m) \<Longrightarrow> (\<not> b \<Longrightarrow> preserves f n) \<Longrightarrow> preserves f (if b then m else n)"
  by simp

lemma preserves_res_json [frame_intro]: "preserves f (res_json r)"
  by (simp add: preserves_def res_json_def split: option.split)

lemma preserves_storage [frame_intro]: "preserves w_room (storage_set kvs)" "preserves w_room (storage_remove k)"
  "preserves w_room (emit e)" "preserves w_local (emit e)" "preserves w_local (on_room f)"
  "preserves w_tab (storage_set kvs)" "preserves w_tab (storage_remove k)" "preserves w_tab (emit e)"
  "preserves w_tab (on_room f)" "preserves w_trace (on_room f)"
  by (simp_all add: preserves_def)

lemma preserves_fetch [frame_intro]:
  "preserves w_room (fetch_req q)" "preserves w_local (fetch_req q)" "preserves w_tab (fetch_req q)"
  by (simp_all add: preserves_def fetch_req_def Let_def split: http.split)

lemma preserves_http [frame_intro]:
  "preserves w_room (http_get p)" "preserves w_local (http_get p)" "preserves w_tab (http_get p)"
  "preserves w_room (http_post p b)" "preserves w_local (http_post p b)" "preserves w_tab (http_post p b)"
  unfolding http_get_def http_post_def by (intro frame_intro)+

section \<open>State predicates that a script keeps\<close>

named_theorems stable_intro \<open>rules for \<open>stable\<close>\<close>

definition stable :: "('w \<Rightarrow> bool) \<Rightarrow> ('w, 'a) js \<Rightarrow> bool" where
  "stable I m \<longleftrightarrow> (\<forall>s. I s \<longrightarrow> I (snd (m s)))"

lemma stableD: "stable I m \<Longrightarrow> I s \<Longrightarrow> I (snd (m s))"
  by (simp add: stable_def)

lemma stable_pure [stable_intro]:
  "stable I (ret x)" "stable I (throw e)" "stable I (lift r)" "stable I (asks g)"
  by (simp_all add: stable_def)

lemma stable_modify: "(\<And>s. I s \<Longrightarrow> I (f s)) \<Longrightarrow> stable I (modify f)"
  by (simp add: stable_def)

lemma stable_bnd [stable_intro]:
  assumes "stable I m" "\<And>x. stable I (k x)"
  shows "stable I (bnd m k)"
  unfolding stable_def
proof (intro allI impI)
  fix s assume i: "I s"
  obtain r s' where m: "m s = (r, s')" by fastforce
  with stableD [OF assms(1) i] have "I s'" by simp
  then show "I (snd (bnd m k s))"
    using m by (cases r) (auto simp: bnd_def intro: stableD [OF assms(2)])
qed

lemma stable_seqm [stable_intro]: "stable I m \<Longrightarrow> stable I n \<Longrightarrow> stable I (seqm m n)"
  unfolding seqm_def by (rule stable_bnd)

lemma stable_catch [stable_intro]:
  assumes "stable I m" "\<And>e. stable I (h e)"
  shows "stable I (catch m h)"
  unfolding stable_def
proof (intro allI impI)
  fix s assume i: "I s"
  obtain r s' where m: "m s = (r, s')" by fastforce
  with stableD [OF assms(1) i] have "I s'" by simp
  then show "I (snd (catch m h s))"
    using m by (cases r) (auto simp: catch_def intro: stableD [OF assms(2)])
qed

lemma stable_if [stable_intro]: "(b \<Longrightarrow> stable I m) \<Longrightarrow> (\<not> b \<Longrightarrow> stable I n) \<Longrightarrow> stable I (if b then m else n)"
  by simp

text \<open>A world for the witnesses: the panel inside the extension on a LeetCode page.\<close>

definition demo_world :: world where
  "demo_world = \<lparr>w_room = roomStoreInit, w_user = userStoreInit, w_settings = settingsStoreInit,
     w_panel = panelStoreInit, w_counts = countStoreInit, w_local = Map.empty, w_chrome = True,
     w_tab = Some (JNum 1, JStr ''https://leetcode.com/problemset/''), w_now = 0, w_nextProblem = JNull, w_gameRef = [], w_serverUrl = ''https://api'',
     w_rtcUrl = ''wss://api/ws'',
     w_server = (\<lambda>h q. Response 200 None), w_router = (\<lambda>h r. Inr True), w_tabs = (\<lambda>h u. None), w_trace = []\<rparr>"

end
