(* ===== verification/Chat_Socket.thy ===== *)
theory Chat_Socket
  imports World
begin

text \<open>
  The chat of the panel (\<open>hooks/useChatSocket.ts\<close>): the WebSocket to the RTC service with its open,
  message and close handlers, joining a chat room, sending, the input field with its limit of 500
  characters, the grouping of messages and the scroll state. Each handler is a script on the
  \<open>chat\<close> record; \<open>chat_step\<close> puts them together as one machine whose events are the resumptions of
  the event loop, in any order.

  State updaters are evaluated where they are passed to React. The heights that the code writes into
  the style of the text area are not modelled.
\<close>

section \<open>State\<close>

record message =
  m_userHandle :: jv
  m_userName :: jv
  m_userPhoto :: jv
  m_data :: jv
  m_roomID :: jv
  m_isSystem :: bool

datatype ready_state = Connecting | Open | Closing | Closed

text \<open>A socket with the values its handlers close over.\<close>

record socket =
  s_ready :: ready_state
  s_userId :: jv
  s_username :: jv
  s_roomId :: jv

text \<open>The frames the client sends; \<open>wire\<close> gives their text.\<close>

datatype chat_frame =
    JoinFrame jv jv jv
  | ChatFrame jv jv jv jv string

record geometry =
  g_scrollHeight :: int
  g_clientHeight :: int
  g_scrollTop :: int

record chat =
  ch_world :: world
  ch_sockets :: "socket list"
  ch_socketRef :: "nat option"
  ch_callbackUser :: user_store
  ch_pendingRoom :: jv
  ch_joinedRoom :: jv
  ch_isAtBottom :: bool
  ch_limitTimer :: bool
  ch_suppress :: bool
  ch_pendingMessage :: jv
  ch_messages :: "message list"
  ch_inputText :: string
  ch_showJump :: bool
  ch_atLimit :: bool
  ch_toast :: jv
  ch_emojiSearch :: string
  ch_caret :: "nat option"
  ch_sent :: "(nat \<times> chat_frame) list"
  ch_sounds :: "string list"

definition chat_init :: "world \<Rightarrow> chat" where
  "chat_init w = \<lparr>ch_world = w, ch_sockets = [], ch_socketRef = None, ch_callbackUser = w_user w,
     ch_pendingRoom = JNull, ch_joinedRoom = JNull, ch_isAtBottom = True, ch_limitTimer = False,
     ch_suppress = False, ch_pendingMessage = JNull, ch_messages = [], ch_inputText = [],
     ch_showJump = False, ch_atLimit = False, ch_toast = JNull, ch_emojiSearch = [], ch_caret = None,
     ch_sent = [], ch_sounds = []\<rparr>"

definition MAX_CHARS :: nat where
  "MAX_CHARS = 500"

definition chat_room :: "(room_store \<Rightarrow> room_store) \<Rightarrow> chat \<Rightarrow> chat" where
  "chat_room f s = s\<lparr>ch_world := (ch_world s)\<lparr>w_room := f (w_room (ch_world s))\<rparr>\<rparr>"

section \<open>Frames\<close>

definition join_data :: "jv \<Rightarrow> jv \<Rightarrow> jv \<Rightarrow> (string \<times> jv) list" where
  "join_data uid uname rid = [(''userHandle'', uid), (''userName'', uname), (''roomID'', rid)]"

definition chat_data :: "jv \<Rightarrow> jv \<Rightarrow> jv \<Rightarrow> jv \<Rightarrow> string \<Rightarrow> (string \<times> jv) list" where
  "chat_data uid uname icon rid text =
     [(''userHandle'', uid), (''userName'', uname), (''userPhoto'', icon), (''roomID'', rid),
      (''message'', JStr text)]"

definition envelope :: "jv \<Rightarrow> string \<Rightarrow> (string \<times> jv) list \<Rightarrow> (string \<times> jv) list" where
  "envelope name rtype payload =
     [(''name'', name), (''request-type'', JStr rtype), (''data'', JStr (json_stringify payload))]"

fun wire :: "chat_frame \<Rightarrow> string" where
  "wire (JoinFrame uid uname rid) = json_stringify (envelope uid ''join-room'' (join_data uid uname rid))"
| "wire (ChatFrame uid uname icon rid text) =
     json_stringify (envelope uid ''chat-message'' (chat_data uid uname icon rid text))"

definition send :: "nat \<Rightarrow> chat_frame \<Rightarrow> chat \<Rightarrow> chat" where
  "send i f s = s\<lparr>ch_sent := ch_sent s @ [(i, f)]\<rparr>"

section \<open>Sound and visibility\<close>

definition playChatSound :: "string \<Rightarrow> chat \<Rightarrow> chat" where
  "playChatSound filename s =
     (if \<not> w_chrome (ch_world s) then s
      else if \<not> chatNotificationsEnabled (w_settings (ch_world s)) then s
      else s\<lparr>ch_sounds := ch_sounds s @ [filename]\<rparr>)"

definition isChatVisible :: "chat \<Rightarrow> bool" where
  "isChatVisible s \<longleftrightarrow> activeTab (w_room (ch_world s)) = TabChat \<and> \<not> isFolded (w_panel (ch_world s))"

section \<open>The socket handlers\<close>

definition ws_onopen :: "nat \<Rightarrow> socket \<Rightarrow> chat \<Rightarrow> chat" where
  "ws_onopen i k s =
     (let s1 = chat_room (setIsConnected True) s;
          targetRoomID = js_or (ch_pendingRoom s1) (s_roomId k) in
      if truthy (s_userId k) \<and> truthy targetRoomID then
        if strict_eq (ch_joinedRoom s1) targetRoomID then s1
        else (send i (JoinFrame (s_userId k) (s_username k) targetRoomID) (s1\<lparr>ch_suppress := True\<rparr>))
               \<lparr>ch_joinedRoom := targetRoomID\<rparr>
      else s1)"

definition append_message :: "message \<Rightarrow> (chat, unit) js" where
  "append_message m = modify (\<lambda>s. s\<lparr>ch_messages := ch_messages s @ [m]\<rparr>)"

definition system_message :: "jv \<Rightarrow> jv \<Rightarrow> message" where
  "system_message text rid =
     \<lparr>m_userHandle = JStr ''System'', m_userName = JUndef, m_userPhoto = JUndef, m_data = text,
      m_roomID = rid, m_isSystem = True\<rparr>"

text \<open>\<open>JSON.parse(v)\<close>: the argument is converted to a string.\<close>

definition parse_json :: "jv \<Rightarrow> jv + jv" where
  "parse_json v = (case json_parse (to_str v) of None \<Rightarrow> Inl syntax_error | Some x \<Rightarrow> Inr x)"

definition game_event_now :: "event_type \<Rightarrow> jv \<Rightarrow> (chat, unit) js" where
  "game_event_now t data = modify (\<lambda>s. chat_room (setLastGameEvent
     (Some \<lparr>ev_type = t, ev_data = data, ev_timestamp = w_now (ch_world s)\<rparr>)) s)"

definition refresh_participants :: "(chat, unit) js" where
  "refresh_participants = modify (\<lambda>s. chat_room (setLastParticipantJoinTime (JNum (w_now (ch_world s)))) s)"

text \<open>Lines 114 to 135: the echo of the pending message, the sound, the unread counter.\<close>

definition clear_pending_echo :: "jv \<Rightarrow> jv \<Rightarrow> jv \<Rightarrow> chat \<Rightarrow> chat" where
  "clear_pending_echo me handle messageText s =
     (if strict_eq handle me \<and> strict_eq messageText (ch_pendingMessage s)
      then s\<lparr>ch_pendingMessage := JNull, ch_inputText := []\<rparr> else s)"

definition message_sound :: "jv \<Rightarrow> jv \<Rightarrow> chat \<Rightarrow> chat" where
  "message_sound me handle s =
     (if \<not> ch_suppress s
      then playChatSound (if strict_eq handle me then ''message-sent.mp3'' else ''message-recieved.mp3'') s
      else s)"

definition count_unread :: "jv \<Rightarrow> jv \<Rightarrow> chat \<Rightarrow> chat" where
  "count_unread me handle s =
     (if \<not> ch_suppress s \<and> \<not> strict_eq handle me \<and> \<not> isChatVisible s
      then chat_room incrementUnread s else s)"

definition on_chat_message :: "jv \<Rightarrow> jv \<Rightarrow> (chat, unit) js" where
  "on_chat_message me message =
     bnd (lift (get message ''message'')) (\<lambda>m.
       let fld = opt_get message; messageText = js_or m (fld ''data''); handle = fld ''userHandle'' in
       seqm (append_message \<lparr>m_userHandle = handle, m_userName = fld ''userName'',
               m_userPhoto = fld ''userPhoto'', m_data = messageText, m_roomID = fld ''roomID'', m_isSystem = False\<rparr>)
       (seqm (modify (clear_pending_echo me handle messageText))
       (seqm (modify (message_sound me handle))
       (modify (count_unread me handle)))))"

definition on_user_joined_or_left :: "bool \<Rightarrow> jv \<Rightarrow> (chat, unit) js" where
  "on_user_joined_or_left joined message =
     (let messageData = js_or (opt_get message ''data'') (JStr []) in
      seqm refresh_participants
      (seqm (modify (\<lambda>s. if joined then s\<lparr>ch_suppress := False\<rparr> else s))
      (if truthy messageData then append_message (system_message messageData (opt_get message ''roomID''))
       else ret ())))"

definition on_announcement :: "jv \<Rightarrow> (chat, unit) js" where
  "on_announcement message =
     bnd (lift (get message ''roomID'')) (\<lambda>rid.
       append_message (system_message (js_or (opt_get message ''data'') (JStr [])) rid))"

definition on_admin_change :: "jv \<Rightarrow> (chat, unit) js" where
  "on_admin_change message = catch
     (bnd (lift (parse_json (js_or (opt_get message ''data'') (JStr ''{}'')))) (\<lambda>data.
      bnd (lift (get data ''adminId'')) (\<lambda>newAdminId.
      seqm (if truthy newAdminId then
              modify (\<lambda>s. chat_room (setLastParticipantJoinTime (JNum (w_now (ch_world s)))
                \<circ> setIsAdmin (strict_eq (userId (w_user (ch_world s))) newAdminId)
                \<circ> setAdminId newAdminId) s)
            else ret ())
      (bnd (lift (get message ''roomID'')) (\<lambda>rid.
        append_message (system_message
          (js_or (opt_get data ''message'') (JStr ''The room admin has changed.'')) rid))))))
     (\<lambda>e. ret ())"

definition on_round_start :: "jv \<Rightarrow> (chat, unit) js" where
  "on_round_start message = catch
     (bnd (lift (get message ''data'')) (\<lambda>d.
      bnd (lift (parse_json d)) (\<lambda>parsedData. game_event_now RoundStart parsedData)))
     (\<lambda>e. bnd (lift (get message ''data'')) (\<lambda>d. game_event_now RoundStart d))"

definition on_round_join :: "jv \<Rightarrow> (chat, unit) js" where
  "on_round_join message =
     bnd (lift (parse_json (js_or (opt_get message ''data'') (JStr ''{}'')))) (\<lambda>data.
     bnd (lift (get data ''userName'')) (\<lambda>uname.
     bnd (lift (get message ''roomID'')) (\<lambda>rid.
     seqm (append_message (system_message
             (JStr (to_str (js_or uname (opt_get data ''userID'')) @ '' joined the round'')) rid))
       (game_event_now JoinRound data))))"

definition on_next_problem :: "jv \<Rightarrow> (chat, unit) js" where
  "on_next_problem message = catch
     (bnd (lift (get message ''data'')) (\<lambda>d.
      bnd (lift (parse_json d)) (\<lambda>parsedData. game_event_now NextProblem parsedData)))
     (\<lambda>e. ret ())"

definition on_ok_response :: "jv \<Rightarrow> jv \<Rightarrow> jv \<Rightarrow> (chat, unit) js" where
  "on_ok_response me message responseType =
     (if responseType = JStr ''chat-message'' then on_chat_message me message
      else if responseType = JStr ''user-joined'' then on_user_joined_or_left True message
      else if responseType = JStr ''user-left'' then on_user_joined_or_left False message
      else if responseType = JStr ''system-announcement'' then on_announcement message
      else if responseType = JStr ''admin-change'' then on_admin_change message
      else if responseType = JStr ''round-start'' then on_round_start message
      else if responseType = JStr ''round-end'' then
        bnd (lift (get message ''data'')) (\<lambda>d. game_event_now RoundEnd d)
      else if responseType = JStr ''round-join'' then on_round_join message
      else if responseType = JStr ''next-problem'' then on_next_problem message
      else ret ())"

definition on_error_response :: "jv \<Rightarrow> (chat, unit) js" where
  "on_error_response response =
     (if opt_get response ''responseType'' = JStr ''chat-message'' then
        modify (\<lambda>s. s\<lparr>ch_pendingMessage := JNull,
          ch_toast := js_or (opt_get (opt_get response ''message'') ''data'') (JStr ''Unable to send message.'')\<rparr>)
      else ret ())"

definition ws_onmessage :: "jv \<Rightarrow> string \<Rightarrow> (chat, unit) js" where
  "ws_onmessage me frame = catch
     (bnd (lift (parse_json (JStr frame))) (\<lambda>response.
      bnd (lift (get response ''status'')) (\<lambda>status.
        if status = JStr ''ok'' then
          on_ok_response me (opt_get response ''message'') (opt_get response ''responseType'')
        else if status = JStr ''error'' then on_error_response response
        else ret ())))
     (\<lambda>e. ret ())"

definition ws_onclose :: "chat \<Rightarrow> chat" where
  "ws_onclose s = (chat_room (setIsConnected False) s)\<lparr>ch_joinedRoom := JNull\<rparr>"

text \<open>The effect on \<open>[userId]\<close>: the cleanup closes the previous socket, and a known user opens a new one.\<close>

definition close_current :: "chat \<Rightarrow> chat" where
  "close_current s =
     (case ch_socketRef s of
        None \<Rightarrow> s
      | Some i \<Rightarrow> s\<lparr>ch_sockets := (ch_sockets s)[i := (ch_sockets s ! i)
          \<lparr>s_ready := (if s_ready (ch_sockets s ! i) = Closed then Closed else Closing)\<rparr>]\<rparr>)"

definition connect_effect :: "chat \<Rightarrow> chat" where
  "connect_effect s =
     (let s1 = (close_current s)\<lparr>ch_callbackUser := w_user (ch_world s)\<rparr>;
          u = w_user (ch_world s1) in
      if \<not> truthy (userId u) then s1
      else s1\<lparr>ch_sockets := ch_sockets s1 @ [\<lparr>s_ready = Connecting, s_userId = userId u,
                 s_username = username u, s_roomId = roomId (w_room (ch_world s1))\<rparr>],
             ch_socketRef := Some (length (ch_sockets s1))\<rparr>)"

text \<open>\<open>socketRef.current && socketRef.current.readyState === WebSocket.OPEN\<close>\<close>

definition open_socket :: "chat \<Rightarrow> nat option" where
  "open_socket s =
     (case ch_socketRef s of
        None \<Rightarrow> None
      | Some i \<Rightarrow> if i < length (ch_sockets s) \<and> s_ready (ch_sockets s ! i) = Open then Some i else None)"

section \<open>Joining and sending\<close>

definition joinChatRoom :: "jv \<Rightarrow> chat \<Rightarrow> chat" where
  "joinChatRoom roomID s =
     (let s1 = chat_room clearUnread (s\<lparr>ch_suppress := True\<rparr>) in
      if strict_eq (ch_joinedRoom s1) roomID then s1\<lparr>ch_pendingRoom := roomID\<rparr>
      else
        (let s2 = (chat_room (setLastGameEvent None) (s1\<lparr>ch_messages := []\<rparr>))\<lparr>ch_pendingRoom := roomID\<rparr>;
             u = ch_callbackUser s2 in
         case open_socket s2 of
           None \<Rightarrow> s2
         | Some i \<Rightarrow>
             if \<not> truthy (userId u) then s2
             else (send i (JoinFrame (userId u) (username u) roomID) (s2\<lparr>ch_suppress := True\<rparr>))
                    \<lparr>ch_joinedRoom := roomID\<rparr>))"

text \<open>The distance below the visible part of the chat.\<close>

definition below :: "geometry \<Rightarrow> int" where
  "below g = g_scrollHeight g - (g_clientHeight g + g_scrollTop g)"

text \<open>\<open>chat\<close> is the scrolled element and \<open>textArea\<close> says whether the input is mounted.\<close>

definition handleSubmit :: "geometry option \<Rightarrow> bool \<Rightarrow> chat \<Rightarrow> chat" where
  "handleSubmit chat textArea s =
     (case chat of
        None \<Rightarrow> s
      | Some g \<Rightarrow>
          (let rid = roomId (w_room (ch_world s)); u = w_user (ch_world s); text = trim (ch_inputText s) in
           if \<not> truthy rid \<or> \<not> textArea then s
           else if text = [] then s
           else
             (let s1 = s\<lparr>ch_toast := JNull\<rparr> in
              case open_socket s1 of
                None \<Rightarrow> s1
              | Some i \<Rightarrow>
                  if \<not> truthy (userId u) then s1
                  else (send i (ChatFrame (userId u) (username u) (iconUrl u) rid text) s1)
                         \<lparr>ch_pendingMessage := JStr text, ch_showJump := below g \<ge> 200\<rparr>)))"

section \<open>The input\<close>

text \<open>Flash the limit, restarting its timer.\<close>

definition hit_limit :: "chat \<Rightarrow> chat" where
  "hit_limit s = s\<lparr>ch_atLimit := True, ch_limitTimer := True\<rparr>"

definition limit_timeout :: "chat \<Rightarrow> chat" where
  "limit_timeout s = (if ch_limitTimer s then s\<lparr>ch_atLimit := False, ch_limitTimer := False\<rparr> else s)"

definition handleChange :: "string \<Rightarrow> chat \<Rightarrow> chat" where
  "handleChange newText s =
     (if length newText \<le> MAX_CHARS then s\<lparr>ch_inputText := newText\<rparr>
      else if length (ch_inputText s) < MAX_CHARS then
        hit_limit (s\<lparr>ch_inputText := take MAX_CHARS newText\<rparr>)
      else hit_limit s)"

text \<open>\<open>selectionStart\<close> and \<open>selectionEnd\<close> of the text area, when it is mounted.\<close>

definition insertEmoji :: "string \<Rightarrow> (nat \<times> nat) option \<Rightarrow> chat \<Rightarrow> chat" where
  "insertEmoji emoji sel s =
     (case sel of
        None \<Rightarrow> s
      | Some (start, end) \<Rightarrow>
          (let newText = take start (ch_inputText s) @ emoji @ drop end (ch_inputText s) in
           if length newText \<le> MAX_CHARS then
             s\<lparr>ch_inputText := newText, ch_caret := Some (start + length emoji)\<rparr>
           else if length (ch_inputText s) < MAX_CHARS then
             hit_limit (s\<lparr>ch_inputText := take MAX_CHARS newText\<rparr>)
           else hit_limit s))"

section \<open>Grouping\<close>

definition add_to_groups :: "message list list \<Rightarrow> message \<Rightarrow> message list list" where
  "add_to_groups groups msg =
     (if groups \<noteq> [] \<and> \<not> m_isSystem msg \<and>
         strict_eq (m_userHandle (hd (last groups))) (m_userHandle msg)
      then butlast groups @ [last groups @ [msg]]
      else groups @ [[msg]])"

definition groupedMessages :: "message list \<Rightarrow> message list list" where
  "groupedMessages messages = foldl add_to_groups [] messages"

section \<open>Scrolling\<close>

definition handleScroll :: "geometry \<Rightarrow> chat \<Rightarrow> chat" where
  "handleScroll g s = s\<lparr>ch_isAtBottom := below g \<le> 4, ch_showJump := below g \<ge> 200\<rparr>"

text \<open>\<open>chat.scrollTop = chat.scrollHeight\<close>, which the browser clamps to the scrollable range.\<close>

definition scroll_to_end :: "geometry \<Rightarrow> geometry" where
  "scroll_to_end g = g\<lparr>g_scrollTop := max 0 (g_scrollHeight g - g_clientHeight g)\<rparr>"

definition messages_effect :: "geometry option \<Rightarrow> chat \<Rightarrow> geometry option \<times> chat" where
  "messages_effect chat s =
     (case chat of
        None \<Rightarrow> (None, s)
      | Some g \<Rightarrow>
          (let g' = (if ch_isAtBottom s then scroll_to_end g else g) in
           (Some g', s\<lparr>ch_showJump := below g' \<ge> 200\<rparr>)))"

definition jumpToBottom :: "geometry option \<Rightarrow> geometry option" where
  "jumpToBottom chat = map_option scroll_to_end chat"

text \<open>
  \<open>scrollToCategory\<close>: the search is cleared at once, the emoji menu scrolled by the timeout, from the
  offsets of the category and of the menu when both are mounted.
\<close>

definition scrollToCategory :: "chat \<Rightarrow> chat" where
  "scrollToCategory s = s\<lparr>ch_emojiSearch := []\<rparr>"

definition category_scroll :: "int option \<Rightarrow> int option \<Rightarrow> int option" where
  "category_scroll menuTop categoryTop =
     (case (menuTop, categoryTop) of (Some m, Some c) \<Rightarrow> Some (c - m) | _ \<Rightarrow> None)"

definition setEmojiSearch :: "string \<Rightarrow> chat \<Rightarrow> chat" where
  "setEmojiSearch q s = s\<lparr>ch_emojiSearch := q\<rparr>"

definition dismissToast :: "chat \<Rightarrow> chat" where
  "dismissToast s = s\<lparr>ch_toast := JNull\<rparr>"

definition clearMessages :: "chat \<Rightarrow> chat" where
  "clearMessages s = s\<lparr>ch_messages := []\<rparr>"

section \<open>The chat as a machine\<close>

text \<open>
  The resumptions of the event loop. The browser delivers a socket event only in the socket's state
  for it; \<open>Elsewhere\<close> stands for what the other components do to the shared stores and the clock.
\<close>

datatype chat_event =
    UserEffect
  | SocketOpen nat
  | SocketFrame nat string
  | SocketClose nat
  | JoinChat jv
  | Submit "geometry option" bool
  | Typed string
  | Emoji string "(nat \<times> nat) option"
  | LimitTimeout
  | Scrolled geometry
  | MessagesChanged "geometry option"
  | CategoryClicked
  | EmojiSearched string
  | ToastDismissed
  | ChatCleared
  | Elsewhere world

definition set_ready :: "nat \<Rightarrow> ready_state \<Rightarrow> chat \<Rightarrow> chat" where
  "set_ready i r s = s\<lparr>ch_sockets := (ch_sockets s)[i := (ch_sockets s ! i)\<lparr>s_ready := r\<rparr>]\<rparr>"

fun chat_step :: "chat_event \<Rightarrow> chat \<Rightarrow> chat" where
  "chat_step UserEffect s = connect_effect s"
| "chat_step (SocketOpen i) s =
     (if i < length (ch_sockets s) \<and> s_ready (ch_sockets s ! i) = Connecting
      then ws_onopen i (ch_sockets s ! i) (set_ready i Open s) else s)"
| "chat_step (SocketFrame i t) s =
     (if i < length (ch_sockets s) \<and> s_ready (ch_sockets s ! i) = Open
      then snd (ws_onmessage (s_userId (ch_sockets s ! i)) t s) else s)"
| "chat_step (SocketClose i) s =
     (if i < length (ch_sockets s) \<and> s_ready (ch_sockets s ! i) \<noteq> Closed
      then ws_onclose (set_ready i Closed s) else s)"
| "chat_step (JoinChat rid) s = joinChatRoom rid s"
| "chat_step (Submit g t) s = handleSubmit g t s"
| "chat_step (Typed t) s = handleChange t s"
| "chat_step (Emoji e sel) s = insertEmoji e sel s"
| "chat_step LimitTimeout s = limit_timeout s"
| "chat_step (Scrolled g) s = handleScroll g s"
| "chat_step (MessagesChanged g) s = snd (messages_effect g s)"
| "chat_step CategoryClicked s = scrollToCategory s"
| "chat_step (EmojiSearched q) s = setEmojiSearch q s"
| "chat_step ToastDismissed s = dismissToast s"
| "chat_step ChatCleared s = clearMessages s"
| "chat_step (Elsewhere w) s = s\<lparr>ch_world := w\<rparr>"

section \<open>The frame of a received message\<close>

text \<open>What no frame from the server changes: what was sent, the sockets and the joined room; the input
  is at most cleared.\<close>

definition recv_frame :: "chat \<Rightarrow> chat \<Rightarrow> bool" where
  "recv_frame s s' \<longleftrightarrow> ch_sent s' = ch_sent s \<and> ch_joinedRoom s' = ch_joinedRoom s \<and>
     ch_sockets s' = ch_sockets s \<and> ch_socketRef s' = ch_socketRef s \<and> ch_pendingRoom s' = ch_pendingRoom s \<and>
     (ch_inputText s' = ch_inputText s \<or> ch_inputText s' = [])"

lemma recv_frame_pieces [stable_intro]:
  "stable (recv_frame s) (append_message m)" "stable (recv_frame s) (game_event_now t d)"
  "stable (recv_frame s) refresh_participants"
  by (auto intro!: stable_modify
      simp: append_message_def game_event_now_def refresh_participants_def recv_frame_def chat_room_def)

lemma recv_frame_trans: "recv_frame s t \<Longrightarrow> recv_frame t u \<Longrightarrow> recv_frame s u"
  by (auto simp: recv_frame_def)

lemma recv_frame_modify: "(\<And>s'. recv_frame s' (f s')) \<Longrightarrow> stable (recv_frame s) (modify f)"
  by (rule stable_modify) (erule recv_frame_trans)

lemma recv_frame_onmessage: "stable (recv_frame s) (ws_onmessage me t)"
  unfolding ws_onmessage_def on_ok_response_def on_error_response_def on_chat_message_def Let_def
    on_user_joined_or_left_def on_announcement_def on_admin_change_def on_round_start_def on_round_join_def
    on_next_problem_def
  by (intro stable_intro recv_frame_modify)
     (auto simp: recv_frame_def playChatSound_def chat_room_def clear_pending_echo_def message_sound_def count_unread_def)

lemma ws_onmessage_frame: "recv_frame s (snd (ws_onmessage me t s))"
  by (rule stableD [OF recv_frame_onmessage]) (simp add: recv_frame_def)

section \<open>The invariant\<close>

fun frame_ok :: "chat_frame \<Rightarrow> bool" where
  "frame_ok (JoinFrame uid uname rid) \<longleftrightarrow> truthy uid"
| "frame_ok (ChatFrame uid uname icon rid text) \<longleftrightarrow>
     truthy uid \<and> truthy rid \<and> text \<noteq> [] \<and> trim text = text \<and> length text \<le> MAX_CHARS"

definition joins :: "chat \<Rightarrow> jv list" where
  "joins s = List.map_filter (\<lambda>p. case snd p of JoinFrame u n r \<Rightarrow> Some r | _ \<Rightarrow> None) (ch_sent s)"

definition chat_inv :: "chat \<Rightarrow> bool" where
  "chat_inv s \<longleftrightarrow> length (ch_inputText s) \<le> MAX_CHARS \<and> list_all (\<lambda>p. frame_ok (snd p)) (ch_sent s) \<and>
     (ch_joinedRoom s = JNull \<or> ch_joinedRoom s \<in> set (joins s)) \<and>
     (\<forall>i. ch_socketRef s = Some i \<longrightarrow> i < length (ch_sockets s))"

lemma joins_send [simp]:
  "joins (send i (JoinFrame u n r) s) = joins s @ [r]"
  "joins (send i (ChatFrame u n c r t) s) = joins s"
  by (simp_all add: joins_def send_def map_filter_def)

lemma joins_update [simp]:
  "joins (s\<lparr>ch_world := w\<rparr>) = joins s" "joins (s\<lparr>ch_sockets := k\<rparr>) = joins s" "joins (s\<lparr>ch_socketRef := r\<rparr>) = joins s"
  "joins (s\<lparr>ch_pendingRoom := v\<rparr>) = joins s" "joins (s\<lparr>ch_joinedRoom := v\<rparr>) = joins s"
  "joins (s\<lparr>ch_suppress := b\<rparr>) = joins s" "joins (s\<lparr>ch_messages := ms\<rparr>) = joins s"
  "joins (s\<lparr>ch_toast := v\<rparr>) = joins s" "joins (s\<lparr>ch_inputText := t\<rparr>) = joins s"
  "joins (s\<lparr>ch_pendingMessage := v\<rparr>) = joins s" "joins (s\<lparr>ch_showJump := b\<rparr>) = joins s"
  "joins (s\<lparr>ch_callbackUser := u\<rparr>) = joins s"
  by (simp_all add: joins_def)

lemma send_simps [simp]:
  "ch_inputText (send i f s) = ch_inputText s" "ch_sent (send i f s) = ch_sent s @ [(i, f)]"
  "ch_joinedRoom (send i f s) = ch_joinedRoom s" "ch_socketRef (send i f s) = ch_socketRef s"
  "ch_sockets (send i f s) = ch_sockets s" "ch_suppress (send i f s) = ch_suppress s"
  "ch_pendingRoom (send i f s) = ch_pendingRoom s" "ch_world (send i f s) = ch_world s"
  "ch_messages (send i f s) = ch_messages s"
  by (simp_all add: send_def)

lemma chat_room_simps [simp]:
  "ch_inputText (chat_room g s) = ch_inputText s" "ch_sent (chat_room g s) = ch_sent s"
  "ch_joinedRoom (chat_room g s) = ch_joinedRoom s" "ch_socketRef (chat_room g s) = ch_socketRef s"
  "ch_sockets (chat_room g s) = ch_sockets s" "ch_suppress (chat_room g s) = ch_suppress s"
  "ch_pendingRoom (chat_room g s) = ch_pendingRoom s" "joins (chat_room g s) = joins s"
  "w_room (ch_world (chat_room g s)) = g (w_room (ch_world s))" "ch_messages (chat_room g s) = ch_messages s"
  "w_panel (ch_world (chat_room g s)) = w_panel (ch_world s)"
  "ch_callbackUser (chat_room g s) = ch_callbackUser s"
  by (simp_all add: chat_room_def)

lemma chat_inv_init: "chat_inv (chat_init w)"
  by (simp add: chat_inv_def chat_init_def joins_def)

lemma chat_inv_recv: "recv_frame s s' \<Longrightarrow> chat_inv s \<Longrightarrow> chat_inv s'"
  by (cases "ch_socketRef s") (auto simp: recv_frame_def chat_inv_def joins_def)

lemma chat_inv_open: "chat_inv s \<Longrightarrow> chat_inv (ws_onopen i k s)"
  by (auto simp: ws_onopen_def Let_def chat_inv_def)

lemma chat_inv_connect: "chat_inv s \<Longrightarrow> chat_inv (connect_effect s)"
  by (auto simp: connect_effect_def close_current_def Let_def chat_inv_def joins_def split: option.splits)

lemma chat_inv_join: "chat_inv s \<Longrightarrow> chat_inv (joinChatRoom rid s)"
  by (auto simp: joinChatRoom_def Let_def chat_inv_def split: option.splits)

lemma length_trim_le: "length s \<le> n \<Longrightarrow> length (trim s) \<le> n"
  using length_trim [of s] by simp

lemma chat_inv_submit: "chat_inv s \<Longrightarrow> chat_inv (handleSubmit g t s)"
  by (auto simp: handleSubmit_def Let_def chat_inv_def length_trim_le split: option.splits)

lemma chat_inv_input:
  "chat_inv s \<Longrightarrow> chat_inv (handleChange t s)" "chat_inv s \<Longrightarrow> chat_inv (insertEmoji e sel s)"
  "chat_inv s \<Longrightarrow> chat_inv (limit_timeout s)"
  by (auto simp: handleChange_def insertEmoji_def limit_timeout_def hit_limit_def Let_def chat_inv_def joins_def
      split: option.splits)

lemma chat_inv_view:
  "chat_inv s \<Longrightarrow> chat_inv (handleScroll gm s)" "chat_inv s \<Longrightarrow> chat_inv (snd (messages_effect g s))"
  "chat_inv s \<Longrightarrow> chat_inv (scrollToCategory s)" "chat_inv s \<Longrightarrow> chat_inv (setEmojiSearch q s)"
  "chat_inv s \<Longrightarrow> chat_inv (dismissToast s)" "chat_inv s \<Longrightarrow> chat_inv (clearMessages s)"
  "chat_inv s \<Longrightarrow> chat_inv (s\<lparr>ch_world := w\<rparr>)" "chat_inv s \<Longrightarrow> chat_inv (set_ready i r s)"
  "chat_inv s \<Longrightarrow> chat_inv (ws_onclose s)"
  by (auto simp: handleScroll_def messages_effect_def scrollToCategory_def setEmojiSearch_def dismissToast_def
      clearMessages_def set_ready_def ws_onclose_def chat_room_def Let_def chat_inv_def joins_def split: option.splits)

lemma chat_inv_step: "chat_inv s \<Longrightarrow> chat_inv (chat_step e s)"
  by (cases e) (auto intro: chat_inv_open chat_inv_connect chat_inv_join chat_inv_submit chat_inv_input
      chat_inv_view chat_inv_recv [OF ws_onmessage_frame])

interpretation chat: bounded_machine "chat_init w" chat_step chat_inv "\<lambda>s. int (length (ch_inputText s))" 0 500
  for w
  by unfold_locales (auto simp: chat_inv_init chat_inv_step, auto simp: chat_inv_def MAX_CHARS_def)

section \<open>Which frames make a difference to the user\<close>

text \<open>The chat message that a frame carries.\<close>

definition chat_payload :: "string \<Rightarrow> jv option" where
  "chat_payload t =
     (case json_parse t of
        None \<Rightarrow> None
      | Some r \<Rightarrow>
          if opt_get r ''status'' = JStr ''ok'' \<and> opt_get r ''responseType'' = JStr ''chat-message'' \<and>
             \<not> is_nullish (opt_get r ''message'')
          then Some (opt_get r ''message'') else None)"

definition message_text :: "jv \<Rightarrow> jv" where
  "message_text m = js_or (opt_get m ''message'') (opt_get m ''data'')"

definition unread :: "chat \<Rightarrow> nat" where
  "unread s = unreadCount (w_room (ch_world s))"

definition quiet :: "chat \<Rightarrow> chat \<Rightarrow> bool" where
  "quiet s s' \<longleftrightarrow> unread s' = unread s \<and> ch_sounds s' = ch_sounds s \<and> ch_inputText s' = ch_inputText s"

lemma quiet_refl: "quiet s s"
  by (simp add: quiet_def)

lemma quiet_chat_room: "(\<And>r. unreadCount (f r) = unreadCount r) \<Longrightarrow> quiet s (chat_room f s)"
  by (simp add: quiet_def unread_def chat_room_def)

lemma quiet_modify: "(\<And>s'. quiet s' (f s')) \<Longrightarrow> stable (quiet s) (modify f)"
  by (rule stable_modify) (simp add: quiet_def)

lemma quiet_pieces [stable_intro]:
  "stable (quiet s) (append_message m)" "stable (quiet s) (game_event_now t d)"
  "stable (quiet s) refresh_participants"
proof -
  show "stable (quiet s) (append_message m)"
    unfolding append_message_def by (rule quiet_modify) (simp add: quiet_def unread_def)
  show "stable (quiet s) (game_event_now t d)" "stable (quiet s) refresh_participants"
    unfolding game_event_now_def refresh_participants_def
    by (rule quiet_modify, rule quiet_chat_room, simp add: setLastGameEvent_def setLastParticipantJoinTime_def)+
qed

lemma quiet_joined: "stable (quiet s) (on_user_joined_or_left b m)"
  unfolding on_user_joined_or_left_def Let_def
  by (intro stable_intro quiet_modify) (simp add: quiet_def unread_def)

lemma quiet_admin: "stable (quiet s) (on_admin_change m)"
  unfolding on_admin_change_def
  by (intro stable_intro quiet_modify quiet_chat_room)
     (simp add: setAdminId_def setIsAdmin_def setLastParticipantJoinTime_def)

lemma quiet_error: "stable (quiet s) (on_error_response m)"
  unfolding on_error_response_def by (intro stable_intro quiet_modify) (simp add: quiet_def unread_def)

lemma quiet_rest: "stable (quiet s) (on_announcement m)" "stable (quiet s) (on_round_start m)"
  "stable (quiet s) (on_round_join m)" "stable (quiet s) (on_next_problem m)"
  unfolding on_announcement_def on_round_start_def on_round_join_def on_next_problem_def
  by (intro stable_intro)+

lemmas quiet_others = quiet_joined quiet_admin quiet_error quiet_rest

lemma quiet_not_chat: "chat_payload t = None \<Longrightarrow> quiet s (snd (ws_onmessage me t s))"
proof -
  assume none: "chat_payload t = None"
  have refl: "quiet s s" by (simp add: quiet_def)
  show ?thesis
  proof (cases "json_parse t")
    case None
    then show ?thesis by (simp add: ws_onmessage_def parse_json_def refl)
  next
    case (Some r)
    have "stable (quiet s) (ws_onmessage me t)"
    proof (cases "opt_get r ''status'' = JStr ''ok'' \<and> opt_get r ''responseType'' = JStr ''chat-message''")
      case True
      with none Some have "is_nullish (opt_get r ''message'')"
        by (auto simp: chat_payload_def split: if_splits)
      then obtain e where "get (opt_get r ''message'') ''message'' = Inl e" by (metis get_Inl_iff)
      then have "on_ok_response me (opt_get r ''message'') (opt_get r ''responseType'') = throw e"
        using True by (simp add: on_ok_response_def on_chat_message_def)
      moreover have "get r ''status'' = Inr (JStr ''ok'')"
        using True by (cases r) auto
      ultimately have "ws_onmessage me t s' = (Inr (), s')" for s'
        using Some True by (simp add: ws_onmessage_def parse_json_def)
      then show ?thesis by (simp add: stable_def)
    next
      case False
      have st: "get r ''status'' = Inr v \<Longrightarrow> v = opt_get r ''status''" for v
        by (simp add: opt_get_def)
      show ?thesis
      proof (cases "get r ''status''")
        case (Inl e)
        then have "ws_onmessage me t s' = (Inr (), s')" for s'
          using Some by (simp add: ws_onmessage_def parse_json_def)
        then show ?thesis by (simp add: stable_def)
      next
        case (Inr v)
        have "stable (quiet s) (if v = JStr ''ok'' then
            on_ok_response me (opt_get r ''message'') (opt_get r ''responseType'')
          else if v = JStr ''error'' then on_error_response r else ret ())"
          using False st [OF Inr] unfolding on_ok_response_def
          by (intro stable_intro quiet_others) auto
        then have "stable (quiet s) (catch (if v = JStr ''ok'' then
            on_ok_response me (opt_get r ''message'') (opt_get r ''responseType'')
          else if v = JStr ''error'' then on_error_response r else ret ()) (\<lambda>e. ret ()))"
          by (rule stable_catch) (rule stable_intro)
        then show ?thesis using Some Inr by (simp add: ws_onmessage_def parse_json_def)
      qed
    qed
    then show ?thesis using refl by (rule stableD)
  qed
qed

definition received_message :: "jv \<Rightarrow> message" where
  "received_message m = \<lparr>m_userHandle = opt_get m ''userHandle'', m_userName = opt_get m ''userName'',
     m_userPhoto = opt_get m ''userPhoto'', m_data = message_text m, m_roomID = opt_get m ''roomID'',
     m_isSystem = False\<rparr>"

definition received :: "jv \<Rightarrow> jv \<Rightarrow> chat \<Rightarrow> chat" where
  "received me m s =
     (let handle = opt_get m ''userHandle'' in
      count_unread me handle (message_sound me handle (clear_pending_echo me handle (message_text m)
        (s\<lparr>ch_messages := ch_messages s @ [received_message m]\<rparr>))))"

lemma playChatSound_keeps [simp]:
  "ch_suppress (playChatSound f s) = ch_suppress s" "isChatVisible (playChatSound f s) = isChatVisible s"
  "unread (playChatSound f s) = unread s" "ch_inputText (playChatSound f s) = ch_inputText s"
  by (simp_all add: playChatSound_def isChatVisible_def unread_def)

lemma on_chat_message_act:
  "\<not> is_nullish m \<Longrightarrow> on_chat_message me m s = (Inr (), received me m s)"
  by (simp add: on_chat_message_def get_Inr append_message_def received_def received_message_def Let_def message_text_def)

lemma received_unread:
  "unread (received me m s) = unread s +
     (if \<not> ch_suppress s \<and> \<not> strict_eq (opt_get m ''userHandle'') me \<and> \<not> isChatVisible s then 1 else 0)"
  by (simp add: received_def Let_def count_unread_def message_sound_def clear_pending_echo_def unread_def
      isChatVisible_def playChatSound_def incrementUnread_def)

lemma received_sounds:
  "ch_sounds (received me m s) = ch_sounds s @
     (if \<not> ch_suppress s \<and> w_chrome (ch_world s) \<and> chatNotificationsEnabled (w_settings (ch_world s))
      then [if strict_eq (opt_get m ''userHandle'') me then ''message-sent.mp3'' else ''message-recieved.mp3'']
      else [])"
  by (simp add: received_def Let_def count_unread_def message_sound_def clear_pending_echo_def
      playChatSound_def chat_room_def)

lemma received_input:
  "ch_inputText (received me m s) =
     (if strict_eq (opt_get m ''userHandle'') me \<and> strict_eq (message_text m) (ch_pendingMessage s)
      then [] else ch_inputText s)"
  by (auto simp: received_def Let_def count_unread_def message_sound_def clear_pending_echo_def)

lemma onmessage_chat:
  assumes "chat_payload t = Some m"
  shows "ws_onmessage me t s = (Inr (), received me m s)"
proof -
  obtain r where r: "json_parse t = Some r" "opt_get r ''status'' = JStr ''ok''"
    "opt_get r ''responseType'' = JStr ''chat-message''" "\<not> is_nullish m" "opt_get r ''message'' = m"
    using assms by (auto simp: chat_payload_def split: option.splits if_splits)
  have "get r ''status'' = Inr (JStr ''ok'')" using r(2) by (cases r) auto
  then show ?thesis
    using r on_chat_message_act [OF r(4)] by (simp add: ws_onmessage_def parse_json_def on_ok_response_def catch_def)
qed

lemma onmessage_total: "fst (ws_onmessage me t s) = Inr ()"
  by (simp add: ws_onmessage_def catch_def split: prod.split sum.split)

section \<open>The grouping is the only one\<close>

text \<open>A message continues a group when it is no system message and has the handle of the group's head.\<close>

definition continues :: "message list \<Rightarrow> message \<Rightarrow> bool" where
  "continues g m \<longleftrightarrow> \<not> m_isSystem m \<and> strict_eq (m_userHandle (hd g)) (m_userHandle m)"

text \<open>The groups hold the messages in order, are not empty, every later member continues its group and
  no group continues the one before.\<close>

definition valid_grouping :: "message list \<Rightarrow> message list list \<Rightarrow> bool" where
  "valid_grouping ms gs \<longleftrightarrow> concat gs = ms \<and> (\<forall>g \<in> set gs. g \<noteq> [] \<and> (\<forall>m \<in> set (tl g). continues g m)) \<and>
     successively (\<lambda>g h. \<not> continues g (hd h)) gs"

lemma groups_snoc: "groupedMessages (ms @ [m]) = add_to_groups (groupedMessages ms) m"
  by (simp add: groupedMessages_def)

lemma continues_head: "g \<noteq> [] \<Longrightarrow> continues (g @ h) m = continues g m"
  by (simp add: continues_def)

lemma valid_snoc_new:
  "valid_grouping ms gs \<Longrightarrow> gs = [] \<or> \<not> continues (last gs) m \<Longrightarrow> valid_grouping (ms @ [m]) (gs @ [[m]])"
  by (auto simp: valid_grouping_def successively_append_iff)

lemma valid_snoc_join:
  assumes "valid_grouping ms (gs @ [g])" "continues g m"
  shows "valid_grouping (ms @ [m]) (gs @ [g @ [m]])"
proof -
  have "g \<noteq> []" using assms(1) by (simp add: valid_grouping_def)
  then have "hd (g @ [m]) = hd g" "tl (g @ [m]) = tl g @ [m]" by simp_all
  with assms \<open>g \<noteq> []\<close> show ?thesis
    by (auto simp: valid_grouping_def successively_append_iff continues_head)
qed

lemma grouped_valid: "valid_grouping ms (groupedMessages ms)"
proof (induction ms rule: rev_induct)
  case Nil
  then show ?case by (simp add: groupedMessages_def valid_grouping_def)
next
  case (snoc m ms)
  show ?case
  proof (cases "groupedMessages ms \<noteq> [] \<and> continues (last (groupedMessages ms)) m")
    case True
    then have "groupedMessages ms = butlast (groupedMessages ms) @ [last (groupedMessages ms)]" by simp
    with snoc True valid_snoc_join [of ms "butlast (groupedMessages ms)" "last (groupedMessages ms)" m]
    show ?thesis by (simp add: groups_snoc add_to_groups_def continues_def)
  next
    case False
    then show ?thesis using valid_snoc_new [OF snoc, of m]
      by (auto simp: groups_snoc add_to_groups_def continues_def)
  qed
qed

lemma valid_unique: "valid_grouping ms gs \<Longrightarrow> gs = groupedMessages ms"
proof (induction ms arbitrary: gs rule: rev_induct)
  case Nil
  then show ?case by (cases gs) (auto simp: valid_grouping_def groupedMessages_def)
next
  case (snoc m ms)
  have c: "concat gs = ms @ [m]" using snoc.prems by (simp add: valid_grouping_def)
  then obtain hs g where gs: "gs = hs @ [g]" by (cases gs rule: rev_cases) auto
  have g: "g \<noteq> []" using snoc.prems gs by (simp add: valid_grouping_def)
  then have g': "g = butlast g @ [m]" and ms: "concat hs @ butlast g = ms"
    using c gs by (metis append_butlast_last_id append_assoc concat.simps concat_append append_Nil2 last_snoc last_appendR,
        metis append_butlast_last_id append_assoc concat.simps concat_append append_Nil2 butlast_snoc butlast_append)
  show ?case
  proof (cases "butlast g = []")
    case True
    then have gm: "g = [m]" using g' by simp
    have "valid_grouping ms hs"
      using snoc.prems gs ms True by (auto simp: valid_grouping_def successively_append_iff)
    then have hs: "hs = groupedMessages ms" by (rule snoc.IH)
    have "hs = [] \<or> \<not> continues (last hs) m"
      using snoc.prems gs gm by (auto simp: valid_grouping_def successively_append_iff)
    then show ?thesis
      using gs gm hs by (auto simp: groups_snoc add_to_groups_def continues_def)
  next
    case False
    then have t: "tl g = tl (butlast g) @ [m]" "hd g = hd (butlast g)"
      using g' by (metis tl_append2, metis hd_append2)
    have cont: "continues (butlast g) m"
      using snoc.prems gs t by (auto simp: valid_grouping_def continues_def)
    have "valid_grouping ms (hs @ [butlast g])"
      using snoc.prems gs ms False t by (auto simp: valid_grouping_def successively_append_iff continues_def)
    then have "hs @ [butlast g] = groupedMessages ms" by (rule snoc.IH)
    then show ?thesis
      using gs g' cont by (metis groups_snoc add_to_groups_def butlast_snoc last_snoc continues_def snoc_eq_iff_butlast)
  qed
qed

section \<open>One join per room\<close>

definition no_close :: "chat_event \<Rightarrow> bool" where
  "no_close e \<longleftrightarrow> (case e of SocketClose i \<Rightarrow> False | _ \<Rightarrow> True)"

definition joins_ok :: "chat \<Rightarrow> bool" where
  "joins_ok s \<longleftrightarrow> successively (\<lambda>a b. \<not> strict_eq a b) (joins s) \<and>
     (joins s \<noteq> [] \<longrightarrow> ch_joinedRoom s = last (joins s))"

lemma joins_ok_same: "joins s' = joins s \<Longrightarrow> ch_joinedRoom s' = ch_joinedRoom s \<Longrightarrow> joins_ok s \<Longrightarrow> joins_ok s'"
  by (simp add: joins_ok_def)

lemma joins_ok_open: "joins_ok s \<Longrightarrow> joins_ok (ws_onopen i k s)"
  by (auto simp: ws_onopen_def Let_def joins_ok_def successively_append_iff)

lemma joins_ok_join: "joins_ok s \<Longrightarrow> joins_ok (joinChatRoom rid s)"
  by (auto simp: joinChatRoom_def Let_def joins_ok_def successively_append_iff split: option.split)

lemma joins_ok_recv: "recv_frame s s' \<Longrightarrow> joins_ok s \<Longrightarrow> joins_ok s'"
  by (auto simp: recv_frame_def joins_ok_def joins_def)

lemma joins_ok_submit: "joins_ok s \<Longrightarrow> joins_ok (handleSubmit g t s)"
  by (auto simp: handleSubmit_def Let_def joins_ok_def split: option.split)

lemma joins_ok_connect: "joins_ok s \<Longrightarrow> joins_ok (connect_effect s)"
  by (auto simp: connect_effect_def close_current_def Let_def joins_ok_def split: option.split)

lemma joins_ok_rest:
  "joins_ok s \<Longrightarrow> joins_ok (handleChange t s)" "joins_ok s \<Longrightarrow> joins_ok (insertEmoji e sel s)"
  "joins_ok s \<Longrightarrow> joins_ok (limit_timeout s)" "joins_ok s \<Longrightarrow> joins_ok (handleScroll gm s)"
  "joins_ok s \<Longrightarrow> joins_ok (snd (messages_effect g s))" "joins_ok s \<Longrightarrow> joins_ok (scrollToCategory s)"
  "joins_ok s \<Longrightarrow> joins_ok (setEmojiSearch q s)" "joins_ok s \<Longrightarrow> joins_ok (dismissToast s)"
  "joins_ok s \<Longrightarrow> joins_ok (clearMessages s)" "joins_ok s \<Longrightarrow> joins_ok (s\<lparr>ch_world := w\<rparr>)"
  "joins_ok s \<Longrightarrow> joins_ok (set_ready i r s)"
  by (auto simp: handleChange_def insertEmoji_def limit_timeout_def hit_limit_def handleScroll_def
      messages_effect_def scrollToCategory_def setEmojiSearch_def dismissToast_def clearMessages_def
      set_ready_def Let_def joins_ok_def joins_def split: option.splits)

lemma joins_ok_step: "no_close e \<Longrightarrow> joins_ok s \<Longrightarrow> joins_ok (chat_step e s)"
  by (cases e) (auto simp: no_close_def intro: joins_ok_open joins_ok_join joins_ok_submit joins_ok_connect
      joins_ok_rest joins_ok_recv [OF ws_onmessage_frame])

lemma joins_ok_run: "list_all no_close es \<Longrightarrow> joins_ok s \<Longrightarrow> joins_ok (run chat_step es s)"
  by (induction es arbitrary: s) (auto intro: joins_ok_step)

section \<open>Properties\<close>

text \<open>
  In every reachable state of the chat the draft has at most 500 characters, and every message
  sent is one that the user, known to the server, wrote in a room: not blank, without white space at
  its ends, and within the limit.
\<close>

theorem chat_limits:
  assumes "reaches chat_step (chat_init w) s"
  shows "length (ch_inputText s) \<le> 500 \<and>
    ((i, ChatFrame uid uname icon rid text) \<notin> set (ch_sent s) \<or>
      text \<noteq> [] \<and> trim text = text \<and> length text \<le> 500 \<and> truthy uid \<and> truthy rid)"
proof -
  from chat.inv_reachable [OF assms] have "list_all (\<lambda>p. frame_ok (snd p)) (ch_sent s)"
    by (simp add: chat_inv_def)
  moreover from chat.amount_reachable [OF assms] have "length (ch_inputText s) \<le> 500" by simp
  ultimately show ?thesis by (fastforce simp: list_all_iff MAX_CHARS_def)
qed

theorem chat_limits_witness:
  "length (ch_inputText (run chat_step [Typed (replicate 700 CHR ''x''), Emoji ''ab'' (Some (3, 5))] (chat_init demo_world))) \<le> 500"
proof -
  have "reaches chat_step (chat_init demo_world)
     (run chat_step [Typed (replicate 700 CHR ''x''), Emoji ''ab'' (Some (3, 5))] (chat_init demo_world))"
    unfolding reaches_iff_run by blast
  from chat_limits [OF this] show ?thesis by blast
qed

text \<open>
  While no socket closes, the client asks to join a room only when it is not the room it asked for
  last: two consecutive join requests never name the same room, so no history is replayed twice.
\<close>

theorem no_repeated_join:
  assumes "list_all no_close es"
  shows "successively (\<lambda>a b. \<not> strict_eq a b) (joins (run chat_step es (chat_init w)))"
  using joins_ok_run [OF assms, of "chat_init w"] by (simp add: joins_ok_def chat_init_def joins_def)

theorem no_repeated_join_witness:
  "successively (\<lambda>a b. \<not> strict_eq a b) (joins (run chat_step
     [UserEffect, JoinChat (JStr ''r1''), SocketOpen 0, JoinChat (JStr ''r1''), JoinChat (JStr ''r2'')]
     (chat_init (demo_world\<lparr>w_user := userStoreInit\<lparr>userId := JStr ''u1''\<rparr>\<rparr>))))"
  by (rule no_repeated_join) (simp add: no_close_def)

text \<open>
  A frame from the server never throws out of the handler, and a frame that is no JSON changes
  nothing.
\<close>

theorem malformed_frames_ignored:
  "fst (ws_onmessage me t s) = Inr () \<and> (json_parse t = None \<longrightarrow> snd (ws_onmessage me t s) = s)"
  by (intro conjI onmessage_total) (simp add: ws_onmessage_def parse_json_def catch_def bnd_def)

theorem malformed_frames_ignored_witness:
  "snd (ws_onmessage (JStr ''u1'') ''{oops'' s) = s"
proof -
  have "json_parse ''{oops'' = None" by code_simp
  with malformed_frames_ignored [of "JStr ''u1''" "''{oops''" s] show ?thesis by simp
qed

text \<open>
  C37: the unread counter goes up by one exactly for a chat message of another user that arrives live
  (not as replayed history) while the chat is not visible; no other frame touches it.
\<close>

theorem unread_counts_exactly:
  "unread (snd (ws_onmessage me t s)) = unread s +
     (case chat_payload t of
        None \<Rightarrow> 0
      | Some m \<Rightarrow>
          if \<not> ch_suppress s \<and> \<not> strict_eq (opt_get m ''userHandle'') me \<and> \<not> isChatVisible s then 1 else 0)"
  using quiet_not_chat [of t s me] onmessage_chat [of t _ me s] received_unread [of me _ s]
  by (cases "chat_payload t") (auto simp: quiet_def)

text \<open>
  A frame clears the draft only when it is the user's own message coming back with the text that
  was sent last; every other frame leaves what the user is typing alone.
\<close>

theorem draft_survives_frames:
  "ch_inputText (snd (ws_onmessage me t s)) =
     (case chat_payload t of
        None \<Rightarrow> ch_inputText s
      | Some m \<Rightarrow>
          if strict_eq (opt_get m ''userHandle'') me \<and> strict_eq (message_text m) (ch_pendingMessage s)
          then [] else ch_inputText s)"
  using quiet_not_chat [of t s me] onmessage_chat [of t _ me s] received_input [of me _ s]
  by (cases "chat_payload t") (auto simp: quiet_def)

text \<open>
  The messages are shown in the one grouping that keeps their order and joins exactly the
  messages that continue the group before them.
\<close>

theorem grouping_is_unique: "valid_grouping ms gs \<longleftrightarrow> gs = groupedMessages ms"
  using grouped_valid valid_unique by blast

text \<open>
  What the client sends can be read back: the envelope parses to the request type, and the JSON
  text in its \<open>data\<close> member parses to the fields of the request.
\<close>

theorem wire_decodes:
  assumes "json_clean uid" "json_clean uname" "json_clean icon" "json_clean rid"
  shows "(\<exists>v d. json_parse (wire (ChatFrame uid uname icon rid text)) = Some v \<and>
      opt_get v ''request-type'' = JStr ''chat-message'' \<and> opt_get v ''data'' = JStr d \<and>
      json_parse d = Some (JObj (chat_data uid uname icon rid text))) \<and>
    (\<exists>v d. json_parse (wire (JoinFrame uid uname rid)) = Some v \<and>
      opt_get v ''request-type'' = JStr ''join-room'' \<and> opt_get v ''data'' = JStr d \<and>
      json_parse d = Some (JObj (join_data uid uname rid)))"
proof -
  have clean: "json_clean (JObj (envelope uid t fs))" for t fs
    using assms by (simp add: envelope_def)
  have inner: "json_clean (JObj (chat_data uid uname icon rid text))" "json_clean (JObj (join_data uid uname rid))"
    using assms by (simp_all add: chat_data_def join_data_def)
  have fields: "opt_get (JObj (envelope uid t fs)) ''request-type'' = JStr t"
      "opt_get (JObj (envelope uid t fs)) ''data'' = JStr (json_stringify fs)" for t fs
    by (simp_all add: envelope_def)
  show ?thesis
    using json.decode_encode [OF clean] json.decode_encode [OF inner(1)] json.decode_encode [OF inner(2)] fields
    by (simp only: wire.simps) blast
qed

theorem wire_decodes_witness:
  "\<exists>v. json_parse (wire (JoinFrame (JStr ''u1'') JNull (JStr ''r1''))) = Some v \<and>
     opt_get v ''request-type'' = JStr ''join-room''"
  using wire_decodes [of "JStr ''u1''" JNull JNull "JStr ''r1''" "[]"] by auto

end
