(* ===== verification/Chat_View.thy ===== *)
theory Chat_View
  imports Chat_Socket
begin

text \<open>
  What the chat tab shows (\<open>customComponents/RoomDisplays/ChatDisplay.tsx\<close>, \<open>customComponents/Toast.tsx\<close>): the
  bubbles of the grouped messages, the keys of the input, its height, the emoji picker and the toast. The
  socket behind it is in \<open>Chat_Socket\<close>.
\<close>

section \<open>Bubbles\<close>

text \<open>A bubble with its text and the corners that are less rounded: top left, top right, bottom right, bottom left.\<close>

record bubble =
  bb_text :: jv
  bb_corners :: "bool \<times> bool \<times> bool \<times> bool"

datatype shown_group =
    SystemLine jv
  | OwnBubbles "bubble list"
  | OtherBubbles jv jv "bubble list"

definition own_bubble :: "message list \<Rightarrow> nat \<Rightarrow> message \<Rightarrow> bubble" where
  "own_bubble grp j msg = \<lparr>bb_text = m_data msg, bb_corners = (False, j \<noteq> 0, j \<noteq> length grp - 1, False)\<rparr>"

definition other_bubble :: "message list \<Rightarrow> nat \<Rightarrow> message \<Rightarrow> bubble" where
  "other_bubble grp j msg = \<lparr>bb_text = m_data msg, bb_corners = (True, False, False, j \<noteq> length grp - 1)\<rparr>"

definition show_group :: "jv \<Rightarrow> message list \<Rightarrow> shown_group" where
  "show_group me grp =
     (if m_isSystem (hd grp) then SystemLine (m_data (hd grp))
      else if strict_eq (m_userHandle (hd grp)) me then OwnBubbles (map2 (own_bubble grp) [0..<length grp] grp)
      else OtherBubbles (m_userPhoto (hd grp)) (m_userName (hd grp)) (map2 (other_bubble grp) [0..<length grp] grp))"

definition show_chat :: "jv \<Rightarrow> chat \<Rightarrow> shown_group list" where
  "show_chat me s = map (show_group me) (groupedMessages (ch_messages s))"

section \<open>The input\<close>

text \<open>
  A key press in the input: whether the browser's own reaction is stopped, and the chat after it. The counter
  below the input, and the height that follows the width of the panel: the observer acts when the width
  differs from the last one, given the height that the text needs at each width.
\<close>

definition on_key :: "string \<Rightarrow> bool \<Rightarrow> geometry option \<Rightarrow> bool \<Rightarrow> chat \<Rightarrow> bool \<times> chat" where
  "on_key key shift g textArea s =
     (if key = ''Enter'' \<and> \<not> shift then (True, handleSubmit g textArea s) else (False, s))"

definition draft_counter :: "chat \<Rightarrow> string" where
  "draft_counter s = show_nat (length (ch_inputText s)) @ ''/'' @ show_nat MAX_CHARS"

definition textarea_resized :: "(int \<Rightarrow> int) \<Rightarrow> int \<Rightarrow> int \<times> int \<Rightarrow> int \<times> int" where
  "textarea_resized scrollHeight clientWidth s =
     (let (lastWidth, height) = s in
      if clientWidth \<noteq> lastWidth then (clientWidth, scrollHeight clientWidth) else (lastWidth, height))"

section \<open>The emoji picker\<close>

record emoji =
  em_char :: string
  em_name :: string
  em_keywords :: "string list"

text \<open>\<open>emojiMap\<close> is the content of \<open>assets/emojis.json\<close>, in the order of its keys.\<close>

definition emojiList :: "(string \<times> emoji list) list \<Rightarrow> (string \<times> emoji) list" where
  "emojiList emojiMap = concat (map (\<lambda>(category, emojis). map (\<lambda>e. (category, e)) emojis) emojiMap)"

definition emojiSearchResults :: "(string \<times> emoji list) list \<Rightarrow> string \<Rightarrow> emoji list" where
  "emojiSearchResults emojiMap emojiSearch =
     (if emojiSearch = [] then []
      else map snd (filter (\<lambda>(category, e).
        str_includes (em_name e) emojiSearch \<or> list_ex (\<lambda>k. str_includes k emojiSearch) (em_keywords e)) (emojiList emojiMap)))"

definition emojiCategories :: "string list" where
  "emojiCategories = [''people'', ''nature'', ''food'', ''activities'', ''travel'', ''objects'', ''symbols'', ''flags'']"

text \<open>
  The menu: the sections of the categories while nothing is searched, else the results. The elements of the
  sections register themselves under their keys, so a button scrolls to the section of its key if there is one.
\<close>

definition emoji_menu :: "(string \<times> emoji list) list \<Rightarrow> string \<Rightarrow> emoji list" where
  "emoji_menu emojiMap emojiSearch =
     (if emojiSearch = []
      then concat (map (\<lambda>c. case map_of emojiMap c of None \<Rightarrow> [] | Some es \<Rightarrow> es) emojiCategories)
      else emojiSearchResults emojiMap emojiSearch)"

definition category_button :: "(string \<Rightarrow> int) \<Rightarrow> int \<Rightarrow> string \<Rightarrow> int option" where
  "category_button offsetTop menuTop key =
     category_scroll (Some menuTop) (if key \<in> set emojiCategories then Some (offsetTop key) else None)"

section \<open>The toast\<close>

text \<open>The message and whether its timer runs; the effect runs when the message changes.\<close>

datatype toast_event = ToastMessage jv | ToastTimeout | ToastClosed

definition toast_effect :: "jv \<Rightarrow> jv \<times> bool" where
  "toast_effect message = (message, truthy message)"

fun toast_step :: "toast_event \<Rightarrow> jv \<times> bool \<Rightarrow> jv \<times> bool" where
  "toast_step (ToastMessage m) (message, timer) = (if m = message then (message, timer) else toast_effect m)"
| "toast_step ToastTimeout (message, timer) = (if timer then toast_effect JNull else (message, timer))"
| "toast_step ToastClosed (message, timer) = (if truthy message then toast_effect JNull else (message, timer))"

definition toast_inv :: "jv \<times> bool \<Rightarrow> bool" where
  "toast_inv s \<longleftrightarrow> snd s = truthy (fst s)"

interpretation toast: machine "toast_effect message" toast_step toast_inv for message
proof
  show "toast_inv (toast_effect message)" by (simp add: toast_inv_def toast_effect_def)
  show "toast_inv (toast_step e s)" if "toast_inv s" for s e
    using that by (cases s; cases e) (auto simp: toast_inv_def toast_effect_def)
qed

text \<open>A toast that is shown has its timer, which takes it away.\<close>

lemma toast_goes_away:
  "truthy (fst (run toast_step es (toast_effect m))) \<Longrightarrow>
     fst (toast_step ToastTimeout (run toast_step es (toast_effect m))) = JNull"
  using toast.inv_run_init [of es m] by (cases "run toast_step es (toast_effect m)") (simp add: toast_inv_def toast_effect_def)

section \<open>System messages carry the name of the system\<close>

definition system_named :: "chat \<Rightarrow> bool" where
  "system_named s \<longleftrightarrow> (\<forall>m\<in>set (ch_messages s). m_isSystem m \<longrightarrow> m_userHandle m = JStr ''System'')"

lemma system_named_cong: "ch_messages t = ch_messages s \<Longrightarrow> system_named s \<Longrightarrow> system_named t"
  by (simp add: system_named_def)

lemma system_named_pieces [stable_intro]:
  "stable system_named (append_message (system_message d rid))"
  "\<not> m_isSystem m \<Longrightarrow> stable system_named (append_message m)"
  "stable system_named (game_event_now t d)" "stable system_named refresh_participants"
  by (auto intro!: stable_modify
      simp: append_message_def game_event_now_def refresh_participants_def system_named_def chat_room_def system_message_def)

lemma system_named_onmessage: "stable system_named (ws_onmessage me t)"
  unfolding ws_onmessage_def on_ok_response_def on_error_response_def on_chat_message_def Let_def
    on_user_joined_or_left_def on_announcement_def on_admin_change_def on_round_start_def on_round_join_def
    on_next_problem_def
  by (intro stable_intro stable_modify; (erule system_named_cong [rotated])?)
     (auto simp: playChatSound_def chat_room_def clear_pending_echo_def message_sound_def count_unread_def)

lemma messages_of_steps:
  "ch_messages (connect_effect s) = ch_messages s" "ch_messages (ws_onopen i k s) = ch_messages s"
  "ch_messages (set_ready i r s) = ch_messages s" "ch_messages (ws_onclose s) = ch_messages s"
  "ch_messages (joinChatRoom rid s) = ch_messages s \<or> ch_messages (joinChatRoom rid s) = []"
  "ch_messages (handleSubmit g t s) = ch_messages s" "ch_messages (handleChange x s) = ch_messages s"
  "ch_messages (insertEmoji e sel s) = ch_messages s" "ch_messages (limit_timeout s) = ch_messages s"
  "ch_messages (handleScroll gm s) = ch_messages s" "ch_messages (snd (messages_effect g s)) = ch_messages s"
  by (auto simp: connect_effect_def close_current_def ws_onopen_def set_ready_def ws_onclose_def joinChatRoom_def
      handleSubmit_def handleChange_def insertEmoji_def limit_timeout_def hit_limit_def handleScroll_def
      messages_effect_def Let_def send_def split: option.splits)

lemma system_named_step: "system_named s \<Longrightarrow> system_named (chat_step e s)"
proof (cases e)
  case (SocketFrame i t)
  assume "system_named s"
  then show ?thesis using stableD [OF system_named_onmessage] by (simp add: SocketFrame)
next
  case (JoinChat rid)
  assume "system_named s"
  then show ?thesis using messages_of_steps(5) [of rid s] by (auto simp: JoinChat system_named_def)
qed (auto simp: system_named_def messages_of_steps scrollToCategory_def setEmojiSearch_def dismissToast_def clearMessages_def)

interpretation chat_names: machine "chat_init w" chat_step system_named for w
  by unfold_locales (simp_all add: system_named_step, simp add: system_named_def chat_init_def)

section \<open>Every message is shown\<close>

fun texts_shown :: "shown_group \<Rightarrow> jv list" where
  "texts_shown (SystemLine d) = [d]"
| "texts_shown (OwnBubbles bs) = map bb_text bs"
| "texts_shown (OtherBubbles photo uname bs) = map bb_text bs"

lemma map2_upt_text:
  assumes "\<And>j m. bb_text (f j m) = m_data m"
  shows "map bb_text (map2 f [0..<length g] g) = map m_data g"
proof -
  have "bb_text \<circ> (\<lambda>(x, y). f x y) = m_data \<circ> snd" using assms by (auto simp: fun_eq_iff)
  then have "map bb_text (map2 f [0..<length g] g) = map m_data (map snd (zip [0..<length g] g))" by (simp only: map_map)
  also have "map snd (zip [0..<length g] g) = g" by (rule map_snd_zip) simp
  finally show ?thesis .
qed

lemma texts_bubbles:
  "texts_shown (OwnBubbles (map2 (own_bubble h) [0..<length g] g)) = map m_data g"
  "texts_shown (OtherBubbles p n (map2 (other_bubble h) [0..<length g] g)) = map m_data g"
  unfolding texts_shown.simps by (rule map2_upt_text; simp add: own_bubble_def other_bubble_def)+

lemma texts_show_group:
  assumes "g \<noteq> []" "m_isSystem (hd g) \<Longrightarrow> tl g = []"
  shows "texts_shown (show_group me g) = map m_data g"
proof (cases "m_isSystem (hd g)")
  case True
  then obtain m where "g = [m]" using assms by (cases g) auto
  with True show ?thesis by (simp add: show_group_def)
next
  case False
  then show ?thesis by (simp only: show_group_def texts_bubbles if_False split: if_split) simp
qed

text \<open>No user writes under the name of the system.\<close>

definition no_impostor :: "chat \<Rightarrow> bool" where
  "no_impostor s \<longleftrightarrow> (\<forall>m\<in>set (ch_messages s). \<not> m_isSystem m \<longrightarrow> m_userHandle m \<noteq> JStr ''System'')"

lemma system_alone:
  assumes "system_named s" "no_impostor s" "g \<in> set (groupedMessages (ch_messages s))" "m_isSystem (hd g)"
  shows "tl g = []"
proof (rule ccontr)
  assume "tl g \<noteq> []"
  then obtain m where m: "m \<in> set (tl g)" by (metis list.set_sel(1))
  have v: "concat (groupedMessages (ch_messages s)) = ch_messages s" "g \<noteq> []" "continues g m"
    using grouped_valid [of "ch_messages s"] assms(3) m by (auto simp: valid_grouping_def)
  have "m \<in> set g" using m list.set_sel(2) [OF v(2)] by blast
  moreover have "set g \<subseteq> set (ch_messages s)" using assms(3) set_concat [of "groupedMessages (ch_messages s)"] v(1) by auto
  ultimately have "m \<in> set (ch_messages s)" "hd g \<in> set (ch_messages s)" using hd_in_set [OF v(2)] by blast+
  then show False using assms(1,2,4) v(3) by (auto simp: continues_def system_named_def no_impostor_def)
qed


definition demo_message :: "(string \<times> jv) list" where
  "demo_message = [(''userHandle'', JStr ''u2''), (''data'', JStr ''hi'')]"

definition demo_frame :: string where
  "demo_frame = json_stringify [(''status'', JStr ''ok''), (''responseType'', JStr ''chat-message''), (''message'', JObj demo_message)]"

definition demo_chat :: "chat_event list" where
  "demo_chat = [Elsewhere (demo_world\<lparr>w_user := userStoreInit\<lparr>userId := JStr ''u1''\<rparr>\<rparr>), UserEffect, SocketOpen 0,
     SocketFrame 0 demo_frame]"

lemma demo_payload: "chat_payload demo_frame = Some (JObj demo_message)"
proof -
  have "json_parse demo_frame =
      Some (JObj [(''status'', JStr ''ok''), (''responseType'', JStr ''chat-message''), (''message'', JObj demo_message)])"
    unfolding demo_frame_def by (rule json.decode_encode) (simp add: demo_message_def)
  then show ?thesis by (simp add: chat_payload_def)
qed

lemma received_messages: "ch_messages (received me m s) = ch_messages s @ [received_message m]"
  by (simp add: received_def Let_def clear_pending_echo_def message_sound_def count_unread_def playChatSound_def chat_room_def)

lemma frame_arrives:
  "i < length (ch_sockets s) \<Longrightarrow> s_ready (ch_sockets s ! i) = Open \<Longrightarrow> chat_payload t = Some m \<Longrightarrow>
     ch_messages (chat_step (SocketFrame i t) s) = ch_messages s @ [received_message m]"
  by (simp add: onmessage_chat received_messages)

lemma demo_connected:
  fixes w
  defines "s \<equiv> run chat_step [Elsewhere (demo_world\<lparr>w_user := userStoreInit\<lparr>userId := JStr ''u1''\<rparr>\<rparr>), UserEffect, SocketOpen 0]
    (chat_init w)"
  shows "0 < length (ch_sockets s)" "s_ready (ch_sockets s ! 0) = Open" "ch_messages s = []"
  by (simp_all add: s_def connect_effect_def close_current_def chat_init_def set_ready_def ws_onopen_def userStoreInit_def
      Let_def chat_room_def messages_of_steps)

lemma demo_received:
  "ch_messages (run chat_step demo_chat (chat_init demo_world)) = [received_message (JObj demo_message)]"
  unfolding demo_chat_def run_Cons run_Nil using frame_arrives [OF demo_connected(1,2) demo_payload, of demo_world] demo_connected(3)
  by simp


text \<open>A user with the name of the system would be swallowed by the announcement before.\<close>

lemma impostor_swallowed:
  fixes d :: jv
  defines "m \<equiv> \<lparr>m_userHandle = JStr ''System'', m_userName = JStr ''Eve'', m_userPhoto = JNull, m_data = JStr ''psst'',
    m_roomID = JStr ''r'', m_isSystem = False\<rparr>"
  shows "map (show_group me) (groupedMessages [system_message d (JStr ''r''), m]) = [SystemLine d]"
  by (simp add: m_def groupedMessages_def add_to_groups_def show_group_def system_message_def)

section \<open>The picker and the input\<close>

lemma emoji_search_results:
  "q \<noteq> [] \<Longrightarrow> e \<in> set (emojiSearchResults emojiMap q) \<longleftrightarrow>
     (\<exists>c es. (c, es) \<in> set emojiMap \<and> e \<in> set es \<and>
       (str_includes (em_name e) q \<or> (\<exists>k\<in>set (em_keywords e). str_includes k q)))"
  by (force simp: emojiSearchResults_def emojiList_def list_ex_iff)

text \<open>The menu offers every emoji of the file when the file has exactly the categories of the buttons.\<close>

lemma emoji_menu_complete:
  "map fst emojiMap = emojiCategories \<Longrightarrow> emoji_menu emojiMap [] = map snd (emojiList emojiMap)"
proof -
  assume k: "map fst emojiMap = emojiCategories"
  then have d: "distinct (map fst emojiMap)" by (simp add: emojiCategories_def)
  have "(case map_of emojiMap (fst p) of None \<Rightarrow> [] | Some es \<Rightarrow> es) = snd p" if "p \<in> set emojiMap" for p
    using map_of_is_SomeI [OF d] that by (cases p) fastforce
  then have "map (\<lambda>c. case map_of emojiMap c of None \<Rightarrow> [] | Some es \<Rightarrow> es) (map fst emojiMap) = map snd emojiMap"
    by simp
  then have "emoji_menu emojiMap [] = concat (map snd emojiMap)" by (simp add: emoji_menu_def k)
  also have "\<dots> = map snd (emojiList emojiMap)" by (simp add: emojiList_def map_concat comp_def split_def)
  finally show ?thesis .
qed

lemma recent_button_goes_nowhere: "category_button offsetTop menuTop ''recent'' = None"
  by (simp add: category_button_def category_scroll_def emojiCategories_def)

lemma category_buttons_scroll: "key \<in> set emojiCategories \<Longrightarrow> category_button offsetTop menuTop key = Some (offsetTop key - menuTop)"
  by (simp add: category_button_def category_scroll_def)

text \<open>Setting the height does not make the observer act again.\<close>

lemma textarea_settles: "textarea_resized f w (textarea_resized f w s) = textarea_resized f w s"
  by (simp add: textarea_resized_def split_def Let_def)

end
