(* ===== verification/Navigation.thy ===== *)
theory Navigation
  imports World
begin

text \<open>
  Routing inside the panel (\<open>utils/navigation.ts\<close>) and the navigation of the LeetCode tab
  (\<open>parseProblemSlug\<close>, \<open>problemUrl\<close>, \<open>resolveResumeSlug\<close> and \<open>navigateActiveTab\<close> of
  \<open>hooks/useRoomEvents.ts\<close>). The point of the last one is that events are replayed to every
  reconnecting socket and a navigation reloads the panel: the lemmas show that a replay never
  issues a second move.
\<close>

section \<open>Routes of the panel\<close>

definition navigation_rejected :: string where
  "navigation_rejected = ''Navigation rejected.''"

definition isNavigationCancellation :: "jv \<Rightarrow> bool" where
  "isNavigationCancellation error =
     (strict_eq error (JStr navigation_rejected) \<or>
      (is_objectlike error \<and> error \<noteq> JNull \<and>
       (opt_get error ''cancelled'' = JBool True \<or>
        strict_eq (opt_get error ''message'') (JStr navigation_rejected))))"

definition router_push :: "string \<Rightarrow> (world, bool) js" where
  "router_push route w = (w_router w (w_trace w) route, w\<lparr>w_trace := w_trace w @ [RouterPush route]\<rparr>)"

definition pushRoute :: "string \<Rightarrow> (world, bool) js" where
  "pushRoute route = catch (router_push route)
     (\<lambda>error. if isNavigationCancellation error then ret False else throw error)"

section \<open>Problem pages\<close>

text \<open>The match of \<open>/\/problems\/([^/?#]+)/\<close>: the leftmost one whose group is not empty.\<close>

definition slug_char :: "char \<Rightarrow> bool" where
  "slug_char c = (c \<noteq> CHR ''/'' \<and> c \<noteq> CHR ''?'' \<and> c \<noteq> CHR ''#'')"

fun parseProblemSlug :: "string \<Rightarrow> string option" where
  "parseProblemSlug [] = None"
| "parseProblemSlug (c # cs) =
     (let m = takeWhile slug_char (drop 10 (c # cs)) in
      if starts_with (c # cs) ''/problems/'' \<and> m \<noteq> [] then Some m else parseProblemSlug cs)"

definition problemUrl :: "string \<Rightarrow> string" where
  "problemUrl slug = ''https://leetcode.com/problems/'' @ slug @ ''/''"

definition resolveResumeSlug :: "string \<Rightarrow> string list \<Rightarrow> string option" where
  "resolveResumeSlug tabUrl ps =
     (if ps = [] then None
      else
        (let currentSlug = parseProblemSlug tabUrl in
         if (case currentSlug of None \<Rightarrow> False | Some s \<Rightarrow> s \<in> set ps) then None
         else if \<not> str_includes tabUrl ''leetcode.com'' then None
         else Some (hd ps)))"

definition str_or_null :: "string option \<Rightarrow> jv" where
  "str_or_null x = (case x of None \<Rightarrow> JNull | Some s \<Rightarrow> JStr s)"

section \<open>The single door for automatic navigation\<close>

text \<open>
  \<open>chrome.tabs.update\<close>: rejected with an error, or the tab is on its way to the new URL.
\<close>

definition tabs_update :: "jv \<Rightarrow> string \<Rightarrow> (world, unit) js" where
  "tabs_update tid url w =
     (let w' = w\<lparr>w_trace := w_trace w @ [TabUpdate tid url]\<rparr> in
      case w_tabs w (w_trace w) url of
        Some e \<Rightarrow> (Inl e, w')
      | None \<Rightarrow> (Inr (), w'\<lparr>w_tab := Some (tid, JStr url)\<rparr>))"

definition navigateActiveTab :: "(string \<Rightarrow> jv) \<Rightarrow> (world, unit) js" where
  "navigateActiveTab decide =
     bnd (asks w_chrome) (\<lambda>present.
       if \<not> present then ret ()
       else catch
         (bnd (asks w_tab) (\<lambda>tab.
            case tab of
              None \<Rightarrow> ret ()
            | Some (tid, url) \<Rightarrow>
                if \<not> truthy tid \<or> \<not> truthy url then ret ()
                else
                  (let targetSlug = decide (to_str url) in
                   if \<not> truthy targetSlug \<or>
                      strict_eq (str_or_null (parseProblemSlug (to_str url))) targetSlug
                   then ret ()
                   else tabs_update tid (problemUrl (to_str targetSlug)))))
         (\<lambda>error. ret ()))"

definition resume_decision :: "string list \<Rightarrow> string \<Rightarrow> jv" where
  "resume_decision ps url = str_or_null (resolveResumeSlug url ps)"

section \<open>Lemmas\<close>

definition slug_ok :: "string \<Rightarrow> bool" where
  "slug_ok s \<longleftrightarrow> s \<noteq> [] \<and> list_all slug_char s"

lemma pushRoute_act:
  "pushRoute route w =
     (case w_router w (w_trace w) route of
        Inr b \<Rightarrow> Inr b
      | Inl e \<Rightarrow> if isNavigationCancellation e then Inr False else Inl e,
      w\<lparr>w_trace := w_trace w @ [RouterPush route]\<rparr>)"
  by (simp add: pushRoute_def router_push_def catch_def split: sum.split)

lemma parseProblemSlug_hit:
  "slug_ok s \<Longrightarrow> r = [] \<or> \<not> slug_char (hd r) \<Longrightarrow> parseProblemSlug (''/problems/'' @ s @ r) = Some s"
proof -
  assume s: "slug_ok s" and r: "r = [] \<or> \<not> slug_char (hd r)"
  have "takeWhile slug_char (s @ r) = s"
    using s r by (cases r) (auto simp: slug_ok_def list_all_iff takeWhile_append2)
  then show ?thesis using s by (simp add: slug_ok_def)
qed

lemma parse_problemUrl: "slug_ok s \<Longrightarrow> parseProblemSlug (problemUrl s) = Some s"
proof -
  assume s: "slug_ok s"
  have hit: "parseProblemSlug (''/problems/'' @ s @ ''/'') = Some s"
    by (rule parseProblemSlug_hit [OF s]) (simp add: slug_char_def)
  show ?thesis using hit by (simp add: problemUrl_def slug_char_def)
qed

lemma parseProblemSlug_ok: "parseProblemSlug u = Some s \<Longrightarrow> slug_ok s"
proof (induction u rule: parseProblemSlug.induct)
  case (2 c cs)
  then show ?case
    by (auto simp: Let_def slug_ok_def list_all_iff dest: set_takeWhileD simp del: set_takeWhileD
        split: if_splits)
qed simp

lemma resolveResumeSlug_Some_iff:
  "resolveResumeSlug u ps = Some s \<longleftrightarrow>
     ps \<noteq> [] \<and> s = hd ps \<and> str_includes u ''leetcode.com'' \<and>
     (\<forall>c. parseProblemSlug u = Some c \<longrightarrow> c \<notin> set ps)"
  by (auto simp: resolveResumeSlug_def Let_def split: option.splits if_splits)

lemma resolveResumeSlug_after_move:
  "ps \<noteq> [] \<Longrightarrow> slug_ok (hd ps) \<Longrightarrow> resolveResumeSlug (problemUrl (hd ps)) ps = None"
  by (simp add: resolveResumeSlug_def parse_problemUrl)

lemma navigateActiveTab_Inr: "\<exists>w'. navigateActiveTab decide w = (Inr (), w')"
  by (auto simp: navigateActiveTab_def tabs_update_def catch_def Let_def split: option.splits)

definition tab_moves :: "effect list \<Rightarrow> (jv \<times> string) list" where
  "tab_moves = List.map_filter (\<lambda>e. case e of TabUpdate i u \<Rightarrow> Some (i, u) | _ \<Rightarrow> None)"

lemma tab_moves_simps [simp]:
  "tab_moves [] = []"
  "tab_moves (xs @ ys) = tab_moves xs @ tab_moves ys"
  "tab_moves (TabUpdate i u # es) = (i, u) # tab_moves es"
  by (simp_all add: tab_moves_def map_filter_def)

text \<open>What one call does: nothing, or one move to a page the tab is not on.\<close>

lemma navigateActiveTab_effect:
  "snd (navigateActiveTab decide w) = w \<or>
   (\<exists>tid url target. w_chrome w \<and> w_tab w = Some (tid, url) \<and> target = decide (to_str url) \<and>
      truthy target \<and> str_or_null (parseProblemSlug (to_str url)) \<noteq> target \<and>
      w_trace (snd (navigateActiveTab decide w)) =
        w_trace w @ [TabUpdate tid (problemUrl (to_str target))])"
proof (cases "w_chrome w \<and> w_tab w \<noteq> None")
  case False
  then show ?thesis by (cases "w_tab w") (auto simp: navigateActiveTab_def catch_def)
next
  case True
  then obtain tid url where t: "w_tab w = Some (tid, url)" by auto
  show ?thesis
  proof (cases "truthy tid \<and> truthy url \<and> truthy (decide (to_str url)) \<and>
      \<not> strict_eq (str_or_null (parseProblemSlug (to_str url))) (decide (to_str url))")
    case False
    with True t show ?thesis by (auto simp: navigateActiveTab_def catch_def Let_def)
  next
    case move: True
    have "str_or_null (parseProblemSlug (to_str url)) \<noteq> decide (to_str url)"
      using move by (cases "parseProblemSlug (to_str url)") (auto simp: str_or_null_def)
    with True t move show ?thesis
      by (auto simp: navigateActiveTab_def catch_def Let_def tabs_update_def split: option.split)
  qed
qed

lemma resume_stays:
  "w_tab w = Some (tid, JStr (problemUrl (hd ps))) \<Longrightarrow> ps \<noteq> [] \<Longrightarrow> slug_ok (hd ps) \<Longrightarrow>
   navigateActiveTab (resume_decision ps) w = (Inr (), w)"
  by (auto simp: navigateActiveTab_def catch_def Let_def resume_decision_def str_or_null_def
      resolveResumeSlug_after_move)

lemma resume_twice:
  assumes "slug_ok (hd ps)" and "\<And>h u. w_tabs w h u = None"
  shows "snd (navigateActiveTab (resume_decision ps) (snd (navigateActiveTab (resume_decision ps) w))) =
    snd (navigateActiveTab (resume_decision ps) w)"
proof (cases "snd (navigateActiveTab (resume_decision ps) w) = w")
  case True
  then show ?thesis by simp
next
  case False
  from navigateActiveTab_effect [of "resume_decision ps" w] False
  obtain tid url where t: "w_chrome w" "w_tab w = Some (tid, url)"
    and tr: "truthy (resume_decision ps (to_str url))" by auto
  then obtain s where s: "resolveResumeSlug (to_str url) ps = Some s" "s = hd ps" "ps \<noteq> []"
    by (cases "resolveResumeSlug (to_str url) ps")
       (auto simp: resume_decision_def str_or_null_def resolveResumeSlug_Some_iff)
  have "w_tab (snd (navigateActiveTab (resume_decision ps) w)) = Some (tid, JStr (problemUrl (hd ps)))"
    using False t s assms(2)
    by (auto simp: navigateActiveTab_def catch_def Let_def tabs_update_def resume_decision_def
        str_or_null_def split: option.splits)
  from resume_stays [OF this s(3) assms(1)] show ?thesis by simp
qed

section \<open>Tab moves as an observation\<close>

definition moves :: "world \<Rightarrow> (jv \<times> string) list" where
  "moves w = tab_moves (w_trace w)"

definition no_move :: "effect \<Rightarrow> bool" where
  "no_move e \<longleftrightarrow> (case e of TabUpdate i u \<Rightarrow> False | _ \<Rightarrow> True)"

lemma tab_moves_no_move [simp]: "no_move e \<Longrightarrow> tab_moves (e # es) = tab_moves es"
  by (cases e) (auto simp: no_move_def tab_moves_def map_filter_def)

lemma moves_emit [frame_intro]: "no_move e \<Longrightarrow> preserves moves (emit e)"
  by (simp add: preserves_def moves_def)

lemma moves_basic [frame_intro]:
  "preserves moves (on_room f)" "preserves moves (on_user g)" "preserves moves (storage_set kvs)"
  "preserves moves (storage_remove k)" "preserves moves (fetch_req q)" "preserves moves (pushRoute r)"
  by (auto simp: preserves_def moves_def no_move_def fetch_req_def Let_def pushRoute_act split: http.split)

lemma moves_http [frame_intro]: "preserves moves (http_get p)" "preserves moves (http_post p b)"
  unfolding http_get_def http_post_def by (intro frame_intro)+

text \<open>The fields that navigating the tab does not touch.\<close>

lemma navigate_frame [frame_intro]:
  "preserves w_room (navigateActiveTab d)" "preserves w_local (navigateActiveTab d)"
  "preserves w_chrome (navigateActiveTab d)" "preserves w_now (navigateActiveTab d)"
  "preserves w_user (navigateActiveTab d)"
  by (auto simp: preserves_def navigateActiveTab_def catch_def Let_def tabs_update_def split: option.split)

section \<open>The door as a decision on the tab\<close>

text \<open>The move that a pass through the door makes, from what it sees of the tab alone.\<close>

definition door :: "(string \<Rightarrow> jv) \<Rightarrow> bool \<Rightarrow> (jv \<times> jv) option \<Rightarrow> (jv \<times> string) option" where
  "door decide present tab =
     (case tab of
        None \<Rightarrow> None
      | Some (tid, url) \<Rightarrow>
          if present \<and> truthy tid \<and> truthy url \<and> truthy (decide (to_str url)) \<and>
             \<not> strict_eq (str_or_null (parseProblemSlug (to_str url))) (decide (to_str url))
          then Some (tid, problemUrl (to_str (decide (to_str url)))) else None)"

lemma navigateActiveTab_door:
  "snd (navigateActiveTab decide w) =
     (case door decide (w_chrome w) (w_tab w) of None \<Rightarrow> w | Some (tid, u) \<Rightarrow> snd (tabs_update tid u w))"
  by (cases "w_tab w"; cases "w_chrome w")
     (auto simp: door_def navigateActiveTab_def catch_def Let_def tabs_update_def split: option.split)

lemma moves_navigate:
  "moves (snd (navigateActiveTab decide w)) =
     moves w @ (case door decide (w_chrome w) (w_tab w) of None \<Rightarrow> [] | Some m \<Rightarrow> [m])"
  by (auto simp: navigateActiveTab_door moves_def tabs_update_def Let_def split: option.split)

lemma tab_navigate:
  "(\<And>h u. w_tabs w h u = None) \<Longrightarrow> w_tab (snd (navigateActiveTab decide w)) =
     (case door decide (w_chrome w) (w_tab w) of None \<Rightarrow> w_tab w | Some (tid, u) \<Rightarrow> Some (tid, JStr u))"
  by (auto simp: navigateActiveTab_door tabs_update_def Let_def split: option.split)

lemma resume_decision_cases:
  "resume_decision ps u = JNull \<or> (ps \<noteq> [] \<and> resume_decision ps u = JStr (hd ps))"
  using resolveResumeSlug_Some_iff [of u ps "hd ps"] resolveResumeSlug_Some_iff [of u ps]
  by (cases "resolveResumeSlug u ps") (auto simp: resume_decision_def str_or_null_def)

lemma door_resume_Some:
  assumes "door (resume_decision ps) c tab = Some (tid, u)"
  shows "ps \<noteq> [] \<and> u = problemUrl (hd ps)"
proof -
  obtain i url where t: "tab = Some (i, url)" using assms by (cases tab) (auto simp: door_def)
  from resume_decision_cases [of ps "to_str url"] assms show ?thesis
    by (auto simp: door_def t split: if_splits)
qed

lemma door_resume_arrived:
  assumes "slug_ok (hd ps)"
  shows "door (resume_decision ps) c (Some (tid, JStr (problemUrl (hd ps)))) = None"
proof -
  have "resume_decision ps (problemUrl (hd ps)) = JNull"
  proof (cases "ps = []")
    case True
    then show ?thesis by (simp add: resume_decision_def resolveResumeSlug_def str_or_null_def)
  next
    case False
    then show ?thesis
      by (simp add: resume_decision_def resolveResumeSlug_after_move [OF False assms] str_or_null_def)
  qed
  then show ?thesis by (simp add: door_def)
qed

text \<open>Once through the door, a second pass with the same problems has nothing to do.\<close>

lemma door_settles:
  assumes "slug_ok (hd ps)" "\<And>h u. w_tabs w h u = None"
  shows "door (resume_decision ps) c (w_tab (snd (navigateActiveTab (resume_decision ps) w))) = None \<or> \<not> w_chrome w"
proof (cases "door (resume_decision ps) (w_chrome w) (w_tab w)")
  case None
  then have "w_tab (snd (navigateActiveTab (resume_decision ps) w)) = w_tab w"
    using tab_navigate [OF assms(2)] by simp
  with None show ?thesis by (auto simp: door_def split: option.splits if_splits)
next
  case (Some m)
  then obtain tid where "m = (tid, problemUrl (hd ps))"
    by (cases m) (use door_resume_Some in blast)
  with Some have "w_tab (snd (navigateActiveTab (resume_decision ps) w)) = Some (tid, JStr (problemUrl (hd ps)))"
    using tab_navigate [OF assms(2)] by simp
  then show ?thesis by (simp add: door_resume_arrived [OF assms(1)])
qed

lemma navigate_outside [frame_intro]:
  "preserves w_tabs (navigateActiveTab d)"
  by (auto simp: preserves_def navigateActiveTab_door tabs_update_def Let_def split: option.split)

section \<open>Properties\<close>

text \<open>
  The slug parser inverts the builder of problem URLs, and whatever it returns is a slug of
  which the builder's URL is parsed back.
\<close>

theorem slug_round_trip:
  "(slug_ok s \<longrightarrow> parseProblemSlug (problemUrl s) = Some s) \<and>
   (parseProblemSlug u = Some s \<longrightarrow> parseProblemSlug (problemUrl s) = Some s)"
  using parse_problemUrl parseProblemSlug_ok by blast

theorem slug_round_trip_witness:
  "parseProblemSlug (problemUrl ''two-sum'') = Some ''two-sum'' \<and>
   parseProblemSlug ''https://leetcode.com/problems/two-sum/description/?tab=1'' = Some ''two-sum''"
  using slug_round_trip [of "''two-sum''" "''https://leetcode.com/problems/two-sum/description/?tab=1''"]
  by (simp add: slug_ok_def slug_char_def)

text \<open>
  The resume decision moves the tab exactly when the round has problems, the tab is on LeetCode
  and it is on none of the round's problems; the target is the first problem.
\<close>

theorem resume_decision_spec:
  "resolveResumeSlug u ps = Some s \<longleftrightarrow>
     ps \<noteq> [] \<and> s = hd ps \<and> (\<exists>a b. u = a @ ''leetcode.com'' @ b) \<and>
     \<not> (\<exists>c. parseProblemSlug u = Some c \<and> c \<in> set ps)"
  using resolveResumeSlug_Some_iff [of u ps s] str_includes_iff [of u "''leetcode.com''"] by blast

text \<open>
  One pass through the navigation door issues nothing or a single tab update, and an update
  goes to a page other than the problem page the tab shows (never a reload of the current page).
\<close>

theorem door_never_reloads:
  "w_trace (snd (navigateActiveTab decide w)) = w_trace w \<or>
   (\<exists>tid url target. w_tab w = Some (tid, url) \<and> target = decide (to_str url) \<and> truthy target \<and>
      str_or_null (parseProblemSlug (to_str url)) \<noteq> target \<and>
      w_trace (snd (navigateActiveTab decide w)) = w_trace w @ [TabUpdate tid (problemUrl (to_str target))])"
  using navigateActiveTab_effect [of decide w] by auto



text \<open>
  \<open>pushRoute\<close> swallows exactly the cancelled navigations: it throws if and only if the router
  rejects with an error that is no cancellation, and then throws that error.
\<close>

theorem pushRoute_errors:
  "fst (pushRoute route w) = Inl e \<longleftrightarrow>
     w_router w (w_trace w) route = Inl e \<and> \<not> isNavigationCancellation e"
  by (auto simp: pushRoute_act split: sum.splits)

end
