(* ===== verification/JS_Date.thy ===== *)
theory JS_Date
  imports JS_Value
begin

text \<open>
  \<open>new Date(v).getTime()\<close> for the values the program passes: a number is its own time value, and a
  string in the date-time format with a time zone that the backend's JSON encoder writes
  (\<open>YYYY-MM-DDThh:mm:ss\<close>, an optional fraction, then \<open>Z\<close> or an offset) is read as the number of
  milliseconds since the epoch. Every other value gives NaN here; the local-time and
  implementation-defined forms of the JavaScript library are not modelled.
\<close>

fun read_fixed :: "nat \<Rightarrow> string \<Rightarrow> (nat \<times> string) option" where
  "read_fixed n s =
     (if length s < n \<or> \<not> list_all is_digit (take n s) then None
      else Some (read_digits 0 (take n s), drop n s))"

definition expect :: "char \<Rightarrow> string \<Rightarrow> string option" where
  "expect c s = (case s of [] \<Rightarrow> None | x # xs \<Rightarrow> if x = c then Some xs else None)"

text \<open>Days since 1970-01-01 of a day of the Gregorian calendar.\<close>

definition days_from_civil :: "int \<Rightarrow> int \<Rightarrow> int \<Rightarrow> int" where
  "days_from_civil y m d =
     (let y' = (if m \<le> 2 then y - 1 else y);
          era = y' div 400;
          yoe = y' mod 400;
          mp = (m + 9) mod 12;
          doy = (153 * mp + 2) div 5 + d - 1;
          doe = yoe * 365 + yoe div 4 - yoe div 100 + doy in
      era * 146097 + doe - 719468)"

text \<open>The milliseconds of a fraction: its first three digits, the rest cut off.\<close>

definition frac_ms :: "string \<Rightarrow> nat" where
  "frac_ms ds = read_digits 0 (take 3 (ds @ ''000''))"

definition read_zone :: "string \<Rightarrow> int option" where
  "read_zone s =
     (if s = ''Z'' then Some 0
      else case s of
        [] \<Rightarrow> None
      | c # r \<Rightarrow>
          if c = CHR ''+'' \<or> c = CHR ''-'' then
            (case read_fixed 2 r of None \<Rightarrow> None | Some (h, r1) \<Rightarrow>
             (case expect CHR '':'' r1 of None \<Rightarrow> None | Some r2 \<Rightarrow>
              (case read_fixed 2 r2 of None \<Rightarrow> None | Some (m, r3) \<Rightarrow>
                 if r3 \<noteq> [] then None
                 else Some ((if c = CHR ''+'' then 1 else - 1) * (int h * 60 + int m)))))
          else None)"

definition parse_date :: "string \<Rightarrow> int option" where
  "parse_date s =
     (case read_fixed 4 s of None \<Rightarrow> None | Some (y, r1) \<Rightarrow>
     (case expect CHR ''-'' r1 of None \<Rightarrow> None | Some r2 \<Rightarrow>
     (case read_fixed 2 r2 of None \<Rightarrow> None | Some (mo, r3) \<Rightarrow>
     (case expect CHR ''-'' r3 of None \<Rightarrow> None | Some r4 \<Rightarrow>
     (case read_fixed 2 r4 of None \<Rightarrow> None | Some (d, r5) \<Rightarrow>
     (case expect CHR ''T'' r5 of None \<Rightarrow> None | Some r6 \<Rightarrow>
     (case read_fixed 2 r6 of None \<Rightarrow> None | Some (h, r7) \<Rightarrow>
     (case expect CHR '':'' r7 of None \<Rightarrow> None | Some r8 \<Rightarrow>
     (case read_fixed 2 r8 of None \<Rightarrow> None | Some (mi, r9) \<Rightarrow>
     (case expect CHR '':'' r9 of None \<Rightarrow> None | Some r10 \<Rightarrow>
     (case read_fixed 2 r10 of None \<Rightarrow> None | Some (se, r11) \<Rightarrow>
       (let (ms, rz) = (case expect CHR ''.'' r11 of
              None \<Rightarrow> (0, r11)
            | Some r12 \<Rightarrow> (frac_ms (takeWhile is_digit r12), dropWhile is_digit r12)) in
        (case read_zone rz of None \<Rightarrow> None | Some off \<Rightarrow>
           if 1 \<le> mo \<and> mo \<le> 12 \<and> 1 \<le> d \<and> d \<le> 31 \<and> h \<le> 23 \<and> mi \<le> 59 \<and> se \<le> 59
           then Some (((days_from_civil (int y) (int mo) (int d) * 24 + int h) * 60 + int mi - off)
                      * 60000 + int se * 1000 + int ms)
           else None)))))))))))))"

definition get_time :: "jv \<Rightarrow> jv" where
  "get_time v =
     (case v of
        JNum n \<Rightarrow> JNum n
      | JStr s \<Rightarrow> (case parse_date s of Some t \<Rightarrow> JNum t | None \<Rightarrow> JNaN)
      | JNull \<Rightarrow> JNum 0
      | _ \<Rightarrow> JNaN)"

lemma epoch: "parse_date ''1970-01-01T00:00:00Z'' = Some 0"
  by code_simp

lemma date_2026: "parse_date ''2026-03-01T12:34:56.789123-05:00'' = Some 1772386496789"
  by code_simp

text \<open>Consecutive months meet: the length of each month, leap years included.\<close>

lemma civil_next_month:
  "1 \<le> m \<Longrightarrow> m < 12 \<Longrightarrow> m \<noteq> 2 \<Longrightarrow>
   days_from_civil y (m + 1) 1 = days_from_civil y m (if m \<in> {4, 6, 9, 11} then 30 else 31) + 1"
proof -
  assume m: "1 \<le> m" "m < 12" "m \<noteq> 2"
  then have "m = 1 \<or> m = 3 \<or> m = 4 \<or> m = 5 \<or> m = 6 \<or> m = 7 \<or> m = 8 \<or> m = 9 \<or> m = 10 \<or> m = 11"
    by presburger
  then show ?thesis by (auto simp: days_from_civil_def Let_def)
qed

lemma civil_next_year: "days_from_civil (y + 1) 1 1 = days_from_civil y 12 31 + 1"
  by (simp add: days_from_civil_def Let_def)

end
