(* ===== verification/Retry.thy ===== *)
theory Retry
  imports World
begin

text \<open>
  The retry discipline that the panel's loaders share: on status 429 a request is repeated after
  1, 2 and 4 seconds, at most three times, and whatever answer comes then is final. Each loader of
  the source writes the recursion out; the locale states its common shape once, and every loader
  of the model interprets it.
\<close>

text \<open>The effects of the first \<open>n\<close> refused attempts.\<close>

definition backoff_log :: "request \<Rightarrow> nat \<Rightarrow> effect list" where
  "backoff_log q n = concat (map (\<lambda>i. [Fetch q, Sleep (1000 * 2 ^ i)]) [0..<n])"

lemma backoff_log_Suc: "backoff_log q (Suc n) = backoff_log q n @ [Fetch q, Sleep (1000 * 2 ^ n)]"
  by (simp add: backoff_log_def)

definition refused :: "world \<Rightarrow> effect list \<Rightarrow> request \<Rightarrow> bool" where
  "refused w h q = (case w_server w h q of NetError e \<Rightarrow> False | Response st b \<Rightarrow> st = 429)"

definition get_request :: "world \<Rightarrow> string \<Rightarrow> request" where
  "get_request w path = \<lparr>rq_method = ''GET'', rq_url = w_serverUrl w @ path, rq_body = None, rq_credentials = True\<rparr>"

definition add_log :: "effect list \<Rightarrow> world \<Rightarrow> world" where
  "add_log es w = w\<lparr>w_trace := w_trace w @ es\<rparr>"

lemma add_log_simps [simp]:
  "add_log [] w = w" "add_log es (add_log ds w) = add_log (ds @ es) w"
  "w_server (add_log es w) = w_server w" "w_trace (add_log es w) = w_trace w @ es"
  "get_request (add_log es w) path = get_request w path" "w_room (add_log es w) = w_room w"
  "w_user (add_log es w) = w_user w" "w_chrome (add_log es w) = w_chrome w"
  "w_local (add_log es w) = w_local w" "w_tab (add_log es w) = w_tab w"
  "w_now (add_log es w) = w_now w" "w_serverUrl (add_log es w) = w_serverUrl w"
  "w_router (add_log es w) = w_router w" "w_tabs (add_log es w) = w_tabs w"
  "w_counts (add_log es w) = w_counts w" "w_settings (add_log es w) = w_settings w"
  "w_panel (add_log es w) = w_panel w"
  "get_request (w\<lparr>w_room := s\<rparr>) path = get_request w path"
  by (simp_all add: add_log_def get_request_def)

lemma http_get_log: "http_get path w =
    (case w_server w (w_trace w) (get_request w path) of
       NetError e \<Rightarrow> (Inl e, add_log [Fetch (get_request w path)] w)
     | Response st body \<Rightarrow> (Inr (st, body), add_log [Fetch (get_request w path)] w))"
  by (simp add: http_get_def fetch_req_def get_request_def add_log_def Let_def split: http.split)

locale retrying =
  fixes attempt_at :: "nat \<Rightarrow> (world, 'a) js"
    and path :: string
    and settle :: "nat \<times> jv option \<Rightarrow> (world, 'a) js"
    and on_error :: "jv \<Rightarrow> (world, 'a) js"
  assumes attempt_unfold:
    "attempt_at k = catch (bnd (http_get path) (\<lambda>res.
       if res_status res = 429 \<and> k < 3
       then seqm (emit (Sleep (1000 * 2 ^ k))) (attempt_at (k + 1))
       else settle res)) on_error"
    and on_error_total: "\<exists>x w'. on_error e w = (Inr x, w')"
begin

text \<open>The final answer: the response is settled, or the error handled.\<close>

definition outcome :: "http \<Rightarrow> world \<Rightarrow> (jv + 'a) \<times> world" where
  "outcome ans w = (case ans of NetError e \<Rightarrow> on_error e w | Response st b \<Rightarrow> catch (settle (st, b)) on_error w)"

lemma attempt_total: "\<exists>x w'. attempt_at k w = (Inr x, w')"
  using on_error_total by (subst attempt_unfold) (auto simp: catch_def split: prod.split sum.split)

lemma attempt_refused:
  assumes "k < 3" "refused w (w_trace w) (get_request w path)"
  shows "attempt_at k w =
    attempt_at (Suc k) (add_log [Fetch (get_request w path), Sleep (1000 * 2 ^ k)] w)"
proof -
  let ?w = "add_log [Fetch (get_request w path), Sleep (1000 * 2 ^ k)] w"
  from assms(2) obtain b where b: "w_server w (w_trace w) (get_request w path) = Response 429 b"
    by (auto simp: refused_def split: http.splits)
  obtain x w' where t: "attempt_at (Suc k) ?w = (Inr x, w')" using attempt_total by blast
  have *: "emit e w = (Inr (), add_log [e] w)" for e w by (simp add: add_log_def)
  show ?thesis
    using assms(1) t
    by (subst attempt_unfold) (simp add: catch_def bnd_def seqm_def http_get_log b res_status_def * del: effect_act)
qed

lemma attempt_final:
  assumes "\<not> (k < 3 \<and> refused w (w_trace w) (get_request w path))"
  shows "attempt_at k w =
    outcome (w_server w (w_trace w) (get_request w path)) (add_log [Fetch (get_request w path)] w)"
proof (cases "w_server w (w_trace w) (get_request w path)")
  case (NetError e)
  then show ?thesis
    by (subst attempt_unfold) (simp add: catch_def bnd_def http_get_log outcome_def)
next
  case (Response st b)
  with assms have "\<not> (st = 429 \<and> k < 3)" by (auto simp: refused_def)
  with Response show ?thesis
    by (subst attempt_unfold) (auto simp: catch_def bnd_def http_get_log outcome_def res_status_def)
qed

lemma attempt_characterised:
  "k \<le> 3 \<Longrightarrow> \<exists>n \<le> 3 - k. attempt_at k w =
     (let w' = add_log (concat (map (\<lambda>i. [Fetch (get_request w path), Sleep (1000 * 2 ^ i)]) [k..<k + n])) w in
      outcome (w_server w' (w_trace w') (get_request w path)) (add_log [Fetch (get_request w path)] w'))"
proof (induction "3 - k" arbitrary: k w)
  case 0
  then have "attempt_at k w = outcome (w_server w (w_trace w) (get_request w path))
      (add_log [Fetch (get_request w path)] w)"
    by (intro attempt_final) simp
  then show ?case by (intro exI [of _ 0]) simp
next
  case (Suc m)
  show ?case
  proof (cases "refused w (w_trace w) (get_request w path)")
    case False
    then have "attempt_at k w = outcome (w_server w (w_trace w) (get_request w path))
        (add_log [Fetch (get_request w path)] w)"
      by (intro attempt_final) simp
    then show ?thesis by (intro exI [of _ 0]) simp
  next
    case True
    let ?w = "add_log [Fetch (get_request w path), Sleep (1000 * 2 ^ k)] w"
    have k: "k < 3" using Suc.hyps(2) by simp
    have "m = 3 - Suc k" "Suc k \<le> 3" using Suc.hyps(2) by simp_all
    from Suc.hyps(1) [OF this, of ?w]
    obtain n where n: "n \<le> 3 - Suc k" "attempt_at (Suc k) ?w =
     (let w' = add_log (concat (map (\<lambda>i. [Fetch (get_request w path), Sleep (1000 * 2 ^ i)]) [Suc k..<Suc k + n])) ?w in
      outcome (w_server w' (w_trace w') (get_request w path)) (add_log [Fetch (get_request w path)] w'))"
      by auto
    have "[k..<k + Suc n] = k # [Suc k..<Suc k + n]" by (simp add: upt_conv_Cons)
    with n k attempt_refused [OF k True] show ?thesis
      by (intro exI [of _ "Suc n"]) (auto simp: Let_def)
  qed
qed

text \<open>Started at attempt 0: at most four requests, with the waits 1, 2, 4 seconds between them.\<close>

lemma attempts_bounded:
  "\<exists>n \<le> 3. attempt_at 0 w =
     outcome (w_server w (w_trace w @ backoff_log (get_request w path) n) (get_request w path))
       (add_log (backoff_log (get_request w path) n @ [Fetch (get_request w path)]) w)"
  using attempt_characterised [of 0 w] by (auto simp: Let_def backoff_log_def)

lemma attempts_exhausted:
  assumes "\<And>h. refused w h (get_request w path)"
  shows "attempt_at 0 w =
     outcome (w_server w (w_trace w @ backoff_log (get_request w path) 3) (get_request w path))
       (add_log (backoff_log (get_request w path) 3 @ [Fetch (get_request w path)]) w)"
proof -
  have r: "refused (add_log es w) h (get_request w path)" for es h
    using assms by (simp add: refused_def)
  have "attempt_at 0 w = attempt_at 3 (add_log (backoff_log (get_request w path) 3) w)"
    using attempt_refused [of 0 w] attempt_refused [of 1 "add_log (backoff_log (get_request w path) 1) w"]
      attempt_refused [of 2 "add_log (backoff_log (get_request w path) 2) w"] r r [of "[]"]
    by (simp add: backoff_log_def eval_nat_numeral)
  also have "\<dots> = outcome (w_server w (w_trace w @ backoff_log (get_request w path) 3) (get_request w path))
       (add_log (backoff_log (get_request w path) 3 @ [Fetch (get_request w path)]) w)"
    by (subst attempt_final) simp_all
  finally show ?thesis .
qed

end

end
