(* ===== verification/Room_Init.thy ===== *)
theory Room_Init
  imports Navigation JS_Date Retry
begin

text \<open>
  Entering a room (\<open>hooks/useRoomInit.ts\<close>): the participants of a room, joining a room by code,
  creating one (room, round, join), and the lookup of the active room when the panel opens. The
  hook's functions close over the user store of the render they were created in; that user is the
  argument \<open>me\<close>.
\<close>

section \<open>Reading dynamic payloads\<close>

text \<open>The elements of an indexable value, as \<open>.length\<close> and \<open>[i]\<close> see them.\<close>

definition js_elems :: "jv \<Rightarrow> jv list" where
  "js_elems v = (case v of JArr vs \<Rightarrow> vs | JStr s \<Rightarrow> map (\<lambda>c. JStr [c]) s | _ \<Rightarrow> [])"

text \<open>A value of declared type \<open>string[]\<close>; other shapes are outside the model.\<close>

definition slugs_of :: "jv \<Rightarrow> string list" where
  "slugs_of v = (case v of JArr vs \<Rightarrow> map to_str vs | _ \<Rightarrow> [])"

fun map_throws :: "('a \<Rightarrow> jv + 'b) \<Rightarrow> 'a list \<Rightarrow> jv + 'b list" where
  "map_throws f [] = Inr []"
| "map_throws f (x # xs) =
     (case f x of Inl e \<Rightarrow> Inl e
      | Inr y \<Rightarrow> (case map_throws f xs of Inl e \<Rightarrow> Inl e | Inr ys \<Rightarrow> Inr (y # ys)))"

definition nonblank :: "jv \<Rightarrow> bool" where
  "nonblank v = (case v of JStr s \<Rightarrow> trim s \<noteq> [] | _ \<Rightarrow> False)"

text \<open>\<open>`/rooms/${id}${rest}`\<close>\<close>

definition room_path :: "string \<Rightarrow> string \<Rightarrow> string" where
  "room_path rid rest = ''/rooms/'' @ rid @ rest"

section \<open>Participants\<close>

definition mapBackendUser :: "jv \<Rightarrow> jv + app_user" where
  "mapBackendUser user =
     (if is_nullish user then Inl type_error
      else
        (let fld = opt_get user;
             names = filter truthy [fld ''firstName'', fld ''lastName''];
             full = JStr (trim (join '' '' (map to_str names))) in
         Inr \<lparr>au_id = js_or (fld ''authID'') (JStr (to_str (fld ''id''))),
              au_name = js_or (js_or (js_or (fld ''handle'') full) (fld ''email''))
                          (JStr (to_str (fld ''id''))),
              au_email = js_or (fld ''email'') (JStr []),
              au_photo = js_or (fld ''photoURL'') (JStr [])\<rparr>))"

definition self_participant :: "user_store \<Rightarrow> app_user" where
  "self_participant me =
     \<lparr>au_id = userId me,
      au_name = js_or (js_or (username me) (email me)) (userId me),
      au_email = js_or (email me) (JStr []),
      au_photo = js_or (iconUrl me) (JStr [])\<rparr>"

definition users_of :: "jv \<Rightarrow> jv + app_user list" where
  "users_of d = (case d of JArr us \<Rightarrow> map_throws mapBackendUser us | _ \<Rightarrow> Inr [])"

definition load_participants :: "nat \<times> jv option \<Rightarrow> (world, unit) js" where
  "load_participants res =
     (if \<not> res_ok res
      then throw (mk_error ''Error''
             (''Failed to load participants ('' @ show_int (int (res_status res)) @ '')''))
      else bnd (res_json res) (\<lambda>data.
           bnd (lift (get data ''data'')) (\<lambda>d.
           bnd (lift (users_of d)) (\<lambda>roomUsers.
           on_room (setParticipants roomUsers)))))"

definition setRoomParticipants :: "user_store \<Rightarrow> jv \<Rightarrow> (world, unit) js" where
  "setRoomParticipants me rid = catch
     (bnd (http_get (room_path (to_str rid) ''/participants'')) load_participants)
     (\<lambda>error. when_do (truthy (userId me)) (on_room (setParticipants [self_participant me])))"

section \<open>Error messages\<close>

definition parseJsonSafe :: "nat \<times> jv option \<Rightarrow> (world, jv) js" where
  "parseJsonSafe res = catch (res_json res) (\<lambda>_. ret JNull)"

definition extractErrorMessage :: "jv \<Rightarrow> string \<Rightarrow> string" where
  "extractErrorMessage payload fallback =
     (if \<not> truthy payload then fallback
      else if nonblank payload then to_str payload
      else if nonblank (opt_get payload ''error'') then to_str (opt_get payload ''error'')
      else if nonblank (opt_get payload ''message'') then to_str (opt_get payload ''message'')
      else if nonblank (opt_get payload ''details'') then to_str (opt_get payload ''details'')
      else fallback)"

definition sanitizeRoundCreationError :: "string \<Rightarrow> string" where
  "sanitizeRoundCreationError msg =
     (if msg = [] then ''Failed to create round.''
      else if str_includes msg ''Not enough tagged problems found.''
      then ''Failed to create round. Not enough tagged problems found.''
      else msg)"

datatype action_result = Success | Failure string

section \<open>Joining\<close>

text \<open>\<open>room.rounds?.[room.rounds.length - 1]\<close>\<close>

definition last_round :: "jv \<Rightarrow> jv" where
  "last_round rounds = arr_get (js_elems rounds) (int (length (js_elems rounds)) - 1)"

definition round_status :: "jv \<Rightarrow> jv" where
  "round_status rnd = js_or (opt_get rnd ''Status'') (opt_get rnd ''status'')"

definition remember_room :: "jv \<Rightarrow> (world, unit) js" where
  "remember_room rid = in_chrome (seq_list
     [storage_set [(''activeRoomId'', rid)], storage_remove ''nextProblem'', emit (SetBadge [])])"

text \<open>The part of \<open>joinRoom\<close> after the server has accepted.\<close>

definition enter_joined_room :: "user_store \<Rightarrow> jv \<Rightarrow> jv \<Rightarrow> (world, action_result) js" where
  "enter_joined_room me room rid =
     seqm (on_room (initRoom rid (opt_get room ''shortCode'') (opt_get room ''adminId'')
             (strict_eq (userId me) (opt_get room ''adminId''))))
     (seqm (on_room (setHasRoundEnded
             (strict_eq (round_status (last_round (opt_get room ''rounds''))) (JStr ''ended''))))
     (seqm (setRoomParticipants me rid)
     (seqm (on_room (setRoomNotice JNull))
     (bnd (pushRoute ''/room-page'') (\<lambda>_.
      seqm (remember_room rid)
     (ret Success))))))"

definition joinRoom :: "user_store \<Rightarrow> string \<Rightarrow> (world, action_result) js" where
  "joinRoom me code = catch
     (bnd (http_post (room_path code ''/join'') None) (\<lambda>res.
      bnd (parseJsonSafe res) (\<lambda>data.
        if \<not> res_ok res then ret (Failure (extractErrorMessage data ''Failed to join room.''))
        else
          bnd (lift (get data ''data'')) (\<lambda>room.
          bnd (lift (get room ''id'')) (\<lambda>rid.
          enter_joined_room me room rid)))))
     (\<lambda>e. ret (Failure ''Failed to join room. Please try again.''))"

section \<open>Creating\<close>

definition room_body :: "jv \<Rightarrow> string \<Rightarrow> (string \<times> jv) list" where
  "room_body options code =
     [(''roomName'', JStr code), (''ttl'', JNum 360),
      (''profanityFilter'', js_coalesce (opt_get options ''profanityFilter'') (JBool False))]"

definition round_params :: "jv \<Rightarrow> (string \<times> jv) list" where
  "round_params options =
     (let opt = opt_get options in
      [(''duration'', js_or (opt ''duration'') (JNum 30)),
       (''numEasyProblems'', js_or (opt ''easy'') (JNum 0)),
       (''numMediumProblems'', js_or (opt ''medium'') (JNum 0)),
       (''numHardProblems'', js_or (opt ''hard'') (JNum 0)),
       (''tags'', js_or (opt ''tags'') (JArr [])),
       (''companies'', js_or (opt ''companies'') (JArr [])),
       (''blind75'', js_or (opt ''blind75'') (JBool False)),
       (''neetcode150'', js_or (opt ''neetcode150'') (JBool False)),
       (''recentlyAsked'', js_or (opt ''recentlyAsked'') (JBool False)),
       (''excludePaid'', js_or (opt ''excludePaid'') (JBool False)),
       (''anyDifficulty'', js_or (opt ''anyDifficulty'') (JBool False)),
       (''numAnyDifficultyProblems'', js_or (opt ''anyDifficultyCount'') (JNum 0)),
       (''problemIds'', js_or (opt ''problemIds'') (JArr []))])"

definition notice_of :: "jv \<Rightarrow> jv" where
  "notice_of roundData =
     (let warningMessage = opt_get roundData ''warningMessage'' in
      if nonblank warningMessage then warningMessage else JNull)"

text \<open>Step 4 of \<open>createRoom\<close>: the room, its round and the membership exist on the server.\<close>

definition enter_created_room :: "user_store \<Rightarrow> jv \<Rightarrow> jv \<Rightarrow> jv \<Rightarrow> jv \<Rightarrow> (world, action_result) js" where
  "enter_created_room me options room rid roundData =
     seqm (on_room (initRoom rid (opt_get room ''shortCode'') (opt_get room ''adminId'')
             (strict_eq (userId me) (opt_get room ''adminId''))))
     (seqm (setRoomParticipants me rid)
     (seqm (on_room (setRoundDuration (js_or (opt_get options ''duration'') (JNum 30))))
     (seqm (on_room (setRoomNotice (notice_of roundData)))
     (seqm (remember_room rid)
     (bnd (pushRoute ''/room-page'') (\<lambda>_. ret Success))))))"

definition join_created_room :: "user_store \<Rightarrow> jv \<Rightarrow> jv \<Rightarrow> jv \<Rightarrow> jv \<Rightarrow> (world, action_result) js" where
  "join_created_room me options room rid roundData =
     bnd (http_post (room_path (to_str rid) ''/join'') None) (\<lambda>joinRes.
       if \<not> res_ok joinRes
       then bnd (parseJsonSafe joinRes) (\<lambda>joinData.
         ret (Failure (extractErrorMessage joinData ''Room was created, but failed to join.'')))
       else enter_created_room me options room rid roundData)"

definition create_round :: "user_store \<Rightarrow> jv \<Rightarrow> jv \<Rightarrow> jv \<Rightarrow> (world, action_result) js" where
  "create_round me options room rid =
     bnd (http_post (room_path (to_str rid) ''/rounds/create'')
            (Some (json_stringify (round_params options)))) (\<lambda>roundRes.
     bnd (parseJsonSafe roundRes) (\<lambda>roundData.
       if \<not> res_ok roundRes
       then ret (Failure (sanitizeRoundCreationError
              (extractErrorMessage roundData ''Failed to create round.'')))
       else join_created_room me options room rid roundData))"

definition createRoom :: "user_store \<Rightarrow> string \<Rightarrow> jv \<Rightarrow> (world, action_result) js" where
  "createRoom me code options = catch
     (bnd (lift (get options ''profanityFilter'')) (\<lambda>_.
      bnd (http_post ''/rooms'' (Some (json_stringify (room_body options code)))) (\<lambda>res.
      bnd (parseJsonSafe res) (\<lambda>data.
        if \<not> res_ok res then ret (Failure (extractErrorMessage data ''Failed to create room.''))
        else
          bnd (lift (get data ''data'')) (\<lambda>room.
          bnd (lift (get room ''id'')) (\<lambda>rid.
          create_round me options room rid))))))
     (\<lambda>e. ret (Failure ''Failed to create room. Please try again.''))"

section \<open>The active room\<close>

text \<open>What the last round of a room found active says about the round state.\<close>

definition restore_round :: "jv \<Rightarrow> (world, unit) js" where
  "restore_round rounds =
     (if js_elems rounds = [] then ret ()
      else
        (let lastRound = last_round rounds in
         bnd (lift (get lastRound ''Status'')) (\<lambda>_.
         let status = round_status lastRound;
             duration = js_or (opt_get lastRound ''duration'') (opt_get lastRound ''Duration'') in
         seqm (on_room (setHasRoundEnded (strict_eq status (JStr ''ended''))))
         (seqm (when_do (is_num duration) (on_room (setRoundDuration duration)))
         (if strict_eq status (JStr ''started'') then
            seqm (on_room (setIsRoundStarted True))
            (let startTimeStr = js_or (opt_get lastRound ''LastUpdatedTime'')
                                  (opt_get lastRound ''lastUpdatedTime'');
                 startTime = get_time startTimeStr;
                 endTime = js_add startTime (js_mul (js_mul duration (JNum 60)) (JNum 1000)) in
             bnd (asks w_now) (\<lambda>now.
               when_do (js_gt endTime (JNum now))
                 (seqm (on_room (setRoundEndTime endTime))
                    (in_chrome (storage_set [(''roundEndTime'', endTime)])))))
          else
            seqm (on_room (setIsRoundStarted False)) (on_room (setRoundEndTime JNull)))))))"

definition enter_active_room :: "user_store \<Rightarrow> jv \<Rightarrow> (world, bool) js" where
  "enter_active_room me room =
     bnd (lift (get room ''id'')) (\<lambda>rid.
     bnd (asks w_user) (\<lambda>current.
     seqm (on_room (initRoom rid (opt_get room ''shortCode'') (opt_get room ''adminId'')
             (strict_eq (userId current) (opt_get room ''adminId''))))
     (seqm (setRoomParticipants me rid)
     (seqm (on_room (setRoomNotice JNull))
     (seqm (in_chrome
        (seqm (storage_set [(''activeRoomId'', rid)])
          (bnd (storage_get ''problems'') (\<lambda>ps.
             on_room (setProblems (slugs_of (js_or ps (JArr []))))))))
     (bnd (pushRoute ''/room-page'') (\<lambda>_.
     seqm (restore_round (opt_get room ''rounds'')) (ret True)))))))) "

definition active_room_response :: "user_store \<Rightarrow> nat \<times> jv option \<Rightarrow> (world, bool) js" where
  "active_room_response me res =
     (if res_ok res then
        bnd (res_json res) (\<lambda>data.
        bnd (lift (get data ''id'')) (\<lambda>_.
          if truthy (opt_get data ''id'') \<or> truthy (opt_get data ''roomID'') then
            (let rid = js_or (opt_get data ''id'') (opt_get data ''roomID'') in
             bnd (http_get (room_path (to_str rid) [])) (\<lambda>roomRes.
               if res_ok roomRes then
                 bnd (res_json roomRes) (\<lambda>roomData.
                 bnd (lift (get roomData ''data'')) (\<lambda>room.
                   enter_active_room me room))
               else ret False))
          else ret False))
      else ret False)"

function checkActiveRoom :: "user_store \<Rightarrow> nat \<Rightarrow> (world, bool) js" where
  "checkActiveRoom me attempt = catch
     (bnd (http_get ''/rooms/active'') (\<lambda>res.
        if res_status res = 429 \<and> attempt < 3 then
          seqm (emit (Sleep (1000 * 2 ^ attempt))) (checkActiveRoom me (attempt + 1))
        else active_room_response me res))
     (\<lambda>e. ret False)"
  by pat_completeness auto
termination
  by (relation "measure (\<lambda>(me, attempt). 3 - attempt)") auto

declare checkActiveRoom.simps [simp del]


section \<open>Frame and totality\<close>

definition post_request :: "world \<Rightarrow> string \<Rightarrow> string option \<Rightarrow> request" where
  "post_request w path body =
     \<lparr>rq_method = ''POST'', rq_url = w_serverUrl w @ path, rq_body = body, rq_credentials = True\<rparr>"

lemma http_post_log: "http_post path body w =
    (case w_server w (w_trace w) (post_request w path body) of
       NetError e \<Rightarrow> (Inl e, add_log [Fetch (post_request w path body)] w)
     | Response st b \<Rightarrow> (Inr (st, b), add_log [Fetch (post_request w path body)] w))"
  by (simp add: http_post_def fetch_req_def post_request_def add_log_def Let_def split: http.split)

lemma post_request_add_log [simp]: "post_request (add_log es w) path body = post_request w path body"
  by (simp add: post_request_def add_log_def)

lemma catch_total: "(\<And>e w. \<exists>x w'. h e w = (Inr x, w')) \<Longrightarrow> \<exists>x w'. catch m h w = (Inr x, w')"
  by (cases "m w") (auto simp: catch_def split: sum.split)

lemma res_json_act: "res_json r w = (case snd r of None \<Rightarrow> Inl syntax_error | Some v \<Rightarrow> Inr v, w)"
  by (simp add: res_json_def split: option.split)

lemma parseJsonSafe_act: "parseJsonSafe r w = (Inr (case snd r of None \<Rightarrow> JNull | Some v \<Rightarrow> v), w)"
  by (simp add: parseJsonSafe_def catch_def res_json_act split: option.split)

lemma setParticipants_same: "setParticipants (participants s) s = s"
  by (simp add: setParticipants_def)

lemma load_participants_act:
  "(\<exists>e. load_participants res w = (Inl e, w)) \<or>
   (\<exists>us. load_participants res w = (Inr (), w\<lparr>w_room := setParticipants us (w_room w)\<rparr>))"
proof (cases "res_ok res \<and> snd res \<noteq> None")
  case False
  then show ?thesis by (auto simp: load_participants_def bnd_def res_json_act)
next
  case True
  then obtain data where d: "res_ok res" "res_json res w = (Inr data, w)"
    by (auto simp: res_json_act)
  show ?thesis
  proof (cases "get data ''data''")
    case (Inl e)
    with d show ?thesis by (simp add: load_participants_def bnd_def)
  next
    case (Inr v)
    with d show ?thesis
      by (cases "users_of v") (auto simp: load_participants_def bnd_def)
  qed
qed

lemma setRoomParticipants_frame:
  "\<exists>us. setRoomParticipants me rid w =
     (Inr (), (add_log [Fetch (get_request w (room_path (to_str rid) ''/participants''))] w)
        \<lparr>w_room := setParticipants us (w_room w)\<rparr>)"
proof -
  let ?rq = "get_request w (room_path (to_str rid) ''/participants'')"
  let ?w = "add_log [Fetch ?rq] w"
  have quiet: "\<exists>us. (Inr (), ?w) =
      (Inr (), ?w\<lparr>w_room := setParticipants us (w_room w)\<rparr>)"
    by (rule exI [of _ "participants (w_room w)"]) (simp add: setParticipants_same)
  have fallback: "\<exists>us. when_do (truthy (userId me)) (on_room (setParticipants [self_participant me])) ?w =
      (Inr (), ?w\<lparr>w_room := setParticipants us (w_room w)\<rparr>)"
  proof (cases "truthy (userId me)")
    case True
    then show ?thesis by (intro exI [of _ "[self_participant me]"]) simp
  next
    case False
    then have "when_do (truthy (userId me)) (on_room (setParticipants [self_participant me])) ?w = (Inr (), ?w)"
      by simp
    then show ?thesis using quiet by (simp only:)
  qed
  show ?thesis
  proof (cases "w_server w (w_trace w) ?rq")
    case (NetError e)
    then show ?thesis
      using fallback by (simp add: setRoomParticipants_def catch_def bnd_def http_get_log)
  next
    case (Response st b)
    have eq: "setRoomParticipants me rid w = (case load_participants (st, b) ?w of
        (Inl e, w') \<Rightarrow> when_do (truthy (userId me)) (on_room (setParticipants [self_participant me])) w'
      | (Inr x, w') \<Rightarrow> (Inr x, w'))"
      unfolding setRoomParticipants_def catch_def
      by (subst bnd_Inr [where x = "(st, b)" and w' = ?w]) (simp_all add: http_get_log Response)
    from load_participants_act [of "(st, b)" ?w] show ?thesis
    proof
      assume "\<exists>e. load_participants (st, b) ?w = (Inl e, ?w)"
      then show ?thesis unfolding eq using fallback by auto
    next
      assume "\<exists>us. load_participants (st, b) ?w = (Inr (), ?w\<lparr>w_room := setParticipants us (w_room ?w)\<rparr>)"
      then show ?thesis unfolding eq by auto
    qed
  qed
qed

lemma joinRoom_total: "\<exists>r w'. joinRoom me code w = (Inr r, w')"
  unfolding joinRoom_def by (rule catch_total) auto

lemma createRoom_total: "\<exists>r w'. createRoom me code options w = (Inr r, w')"
  unfolding createRoom_def by (rule catch_total) auto

lemma checkActiveRoom_total: "\<exists>r w'. checkActiveRoom me attempt w = (Inr r, w')"
  by (subst checkActiveRoom.simps) (rule catch_total, auto)


section \<open>Entering changes the room only after the server agreed\<close>

definition joined_store :: "user_store \<Rightarrow> jv \<Rightarrow> jv \<Rightarrow> app_user list \<Rightarrow> room_store \<Rightarrow> room_store" where
  "joined_store me room rid us s =
     setRoomNotice JNull (setParticipants us (setHasRoundEnded
       (strict_eq (round_status (last_round (opt_get room ''rounds''))) (JStr ''ended''))
       (initRoom rid (opt_get room ''shortCode'') (opt_get room ''adminId'')
         (strict_eq (userId me) (opt_get room ''adminId'')) s)))"

definition created_store ::
    "user_store \<Rightarrow> jv \<Rightarrow> jv \<Rightarrow> jv \<Rightarrow> jv \<Rightarrow> app_user list \<Rightarrow> room_store \<Rightarrow> room_store" where
  "created_store me options room rid roundData us s =
     setRoomNotice (notice_of roundData) (setRoundDuration (js_or (opt_get options ''duration'') (JNum 30))
       (setParticipants us (initRoom rid (opt_get room ''shortCode'') (opt_get room ''adminId'')
         (strict_eq (userId me) (opt_get room ''adminId'')) s)))"

lemma pushRoute_keeps:
  "w_room (snd (pushRoute route w)) = w_room w" "w_local (snd (pushRoute route w)) = w_local w"
  "w_chrome (snd (pushRoute route w)) = w_chrome w"
  by (simp_all add: pushRoute_act)

lemma remember_room_act:
  "\<exists>w'. remember_room rid w = (Inr (), w') \<and> w_room w' = w_room w \<and>
     (w_chrome w \<longrightarrow> w_local w' = (w_local w)(''activeRoomId'' \<mapsto> rid, ''nextProblem'' := None)) \<and>
     (\<not> w_chrome w \<longrightarrow> w' = w)"
  by (cases "w_chrome w") (auto simp: remember_room_def map_add_def fun_eq_iff)

lemma enter_joined_room_act:
  assumes "enter_joined_room me room rid w = (r, w')"
  shows "\<exists>us. w_room w' = joined_store me room rid us (w_room w)"
    and "r = Inr Success \<or> (\<exists>e. r = Inl e)"
    and "r = Inr Success \<Longrightarrow> w_chrome w \<Longrightarrow> w_local w' = (w_local w)(''activeRoomId'' \<mapsto> rid, ''nextProblem'' := None)"
proof -
  let ?w1 = "w\<lparr>w_room := setHasRoundEnded
       (strict_eq (round_status (last_round (opt_get room ''rounds''))) (JStr ''ended''))
       (initRoom rid (opt_get room ''shortCode'') (opt_get room ''adminId'')
         (strict_eq (userId me) (opt_get room ''adminId'')) (w_room w))\<rparr>"
  obtain us where us: "setRoomParticipants me rid ?w1 =
     (Inr (), (add_log [Fetch (get_request ?w1 (room_path (to_str rid) ''/participants''))] ?w1)
        \<lparr>w_room := setParticipants us (w_room ?w1)\<rparr>)"
    using setRoomParticipants_frame by blast
  let ?w2 = "(add_log [Fetch (get_request ?w1 (room_path (to_str rid) ''/participants''))] ?w1)
        \<lparr>w_room := joined_store me room rid us (w_room w)\<rparr>"
  have run: "enter_joined_room me room rid w = bnd (pushRoute ''/room-page'') (\<lambda>_.
      seqm (remember_room rid) (ret Success)) ?w2"
    by (simp add: enter_joined_room_def seqm_def bnd_def us [simplified] joined_store_def)
  obtain p w3 where p: "pushRoute ''/room-page'' ?w2 = (p, w3)" by fastforce
  have w3: "w_room w3 = joined_store me room rid us (w_room w)" "w_local w3 = w_local w" "w_chrome w3 = w_chrome w"
    using pushRoute_keeps [of "''/room-page''" ?w2] p by simp_all
  obtain w4 where w4: "remember_room rid w3 = (Inr (), w4)" "w_room w4 = w_room w3"
     "w_chrome w3 \<longrightarrow> w_local w4 = (w_local w3)(''activeRoomId'' \<mapsto> rid, ''nextProblem'' := None)"
    using remember_room_act [of rid w3] by blast
  show "\<exists>us. w_room w' = joined_store me room rid us (w_room w)"
    using assms run p w3 w4 by (cases p) (auto simp: bnd_def seqm_def)
  show "r = Inr Success \<or> (\<exists>e. r = Inl e)"
    using assms run p w4 by (cases p) (auto simp: bnd_def seqm_def)
  show "r = Inr Success \<Longrightarrow> w_chrome w \<Longrightarrow> w_local w' = (w_local w)(''activeRoomId'' \<mapsto> rid, ''nextProblem'' := None)"
    using assms run p w3 w4 by (cases p) (auto simp: bnd_def seqm_def)
qed


lemma enter_created_room_act:
  assumes "enter_created_room me options room rid roundData w = (r, w')"
  shows "\<exists>us. w_room w' = created_store me options room rid roundData us (w_room w)"
    and "r = Inr Success \<or> (\<exists>e. r = Inl e)"
proof -
  let ?w1 = "w\<lparr>w_room := initRoom rid (opt_get room ''shortCode'') (opt_get room ''adminId'')
         (strict_eq (userId me) (opt_get room ''adminId'')) (w_room w)\<rparr>"
  obtain us where us: "setRoomParticipants me rid ?w1 =
     (Inr (), (add_log [Fetch (get_request ?w1 (room_path (to_str rid) ''/participants''))] ?w1)
        \<lparr>w_room := setParticipants us (w_room ?w1)\<rparr>)"
    using setRoomParticipants_frame by blast
  let ?w2 = "(add_log [Fetch (get_request ?w1 (room_path (to_str rid) ''/participants''))] ?w1)
        \<lparr>w_room := created_store me options room rid roundData us (w_room w)\<rparr>"
  have run: "enter_created_room me options room rid roundData w =
      seqm (remember_room rid) (bnd (pushRoute ''/room-page'') (\<lambda>_. ret Success)) ?w2"
    by (simp add: enter_created_room_def seqm_def bnd_def us [simplified] created_store_def)
  obtain w3 where w3: "remember_room rid ?w2 = (Inr (), w3)"
      "w_room w3 = created_store me options room rid roundData us (w_room w)"
    using remember_room_act [of rid ?w2] by auto
  obtain p w4 where p: "pushRoute ''/room-page'' w3 = (p, w4)" "w_room w4 = w_room w3"
    using pushRoute_keeps [of "''/room-page''" w3] by (metis prod.collapse)
  show "\<exists>us. w_room w' = created_store me options room rid roundData us (w_room w)"
    using assms run w3 p by (cases p) (auto simp: bnd_def seqm_def)
  show "r = Inr Success \<or> (\<exists>e. r = Inl e)"
    using assms run w3 p by (cases p) (auto simp: bnd_def seqm_def)
qed

text \<open>The server's answer to a request after the effects \<open>h\<close>.\<close>

definition accepted :: "world \<Rightarrow> effect list \<Rightarrow> request \<Rightarrow> bool" where
  "accepted w h q = (case w_server w h q of NetError e \<Rightarrow> False | Response st b \<Rightarrow> 200 \<le> st \<and> st \<le> 299)"

definition try_again_join :: action_result where
  "try_again_join = Failure ''Failed to join room. Please try again.''"

definition try_again_create :: action_result where
  "try_again_create = Failure ''Failed to create room. Please try again.''"

lemma joinRoom_cases:
  fixes me code w
  defines "q \<equiv> post_request w (room_path code ''/join'') None"
  shows "(\<exists>m. joinRoom me code w = (Inr (Failure m), add_log [Fetch q] w)) \<or>
    (\<exists>room rid us r w'. accepted w (w_trace w) q \<and> joinRoom me code w = (Inr r, w') \<and>
       w_room w' = joined_store me room rid us (w_room w) \<and>
       (r = Success \<or> r = try_again_join))"
proof -
  let ?h = "\<lambda>e. ret (Failure ''Failed to join room. Please try again.'') :: (world, action_result) js"
  let ?w = "add_log [Fetch q] w"
  show ?thesis
  proof (cases "w_server w (w_trace w) q")
    case (NetError e)
    then show ?thesis
      by (auto simp: joinRoom_def catch_def bnd_def http_post_log q_def)
  next
    case (Response st b)
    let ?data = "case b of None \<Rightarrow> JNull | Some v \<Rightarrow> v"
    have run: "joinRoom me code w = catch (
        if \<not> res_ok (st, b) then ret (Failure (extractErrorMessage ?data ''Failed to join room.''))
        else bnd (lift (get ?data ''data'')) (\<lambda>room. bnd (lift (get room ''id'')) (\<lambda>rid.
          enter_joined_room me room rid))) ?h ?w"
      using Response by (simp add: joinRoom_def catch_def bnd_def http_post_log q_def parseJsonSafe_act)
    consider "\<not> res_ok (st, b)"
      | e where "res_ok (st, b)" "get ?data ''data'' = Inl e"
      | room e where "res_ok (st, b)" "get ?data ''data'' = Inr room" "get room ''id'' = Inl e"
      | room rid where "res_ok (st, b)" "get ?data ''data'' = Inr room" "get room ''id'' = Inr rid"
      by (metis sumE)
    then show ?thesis
    proof cases
      case 4
      obtain r w' where rw: "enter_joined_room me room rid ?w = (r, w')" by fastforce
      obtain us where "w_room w' = joined_store me room rid us (w_room w)"
        using enter_joined_room_act(1) [OF rw] by auto
      moreover have "r = Inr Success \<or> (\<exists>e. r = Inl e)" by (rule enter_joined_room_act(2) [OF rw])
      moreover have "accepted w (w_trace w) q"
        using 4 Response by (simp add: accepted_def res_ok_def)
      moreover have "joinRoom me code w = (Inr (case r of Inl e \<Rightarrow> try_again_join | Inr x \<Rightarrow> x), w')"
        using 4 run rw by (cases r) (simp_all add: catch_def try_again_join_def)
      ultimately show ?thesis by (cases r) fastforce+
    qed (auto simp: run)
  qed
qed


text \<open>The three requests of \<open>createRoom\<close>.\<close>

definition rooms_request :: "world \<Rightarrow> jv \<Rightarrow> string \<Rightarrow> request" where
  "rooms_request w options code = post_request w ''/rooms'' (Some (json_stringify (room_body options code)))"

definition round_request :: "world \<Rightarrow> jv \<Rightarrow> jv \<Rightarrow> request" where
  "round_request w options rid =
     post_request w (room_path (to_str rid) ''/rounds/create'') (Some (json_stringify (round_params options)))"

definition join_request :: "world \<Rightarrow> jv \<Rightarrow> request" where
  "join_request w rid = post_request w (room_path (to_str rid) ''/join'') None"

lemma join_created_room_cases:
  fixes me options room rid roundData w
  defines "q \<equiv> join_request w rid"
  shows "(\<exists>r. join_created_room me options room rid roundData w = (r, add_log [Fetch q] w) \<and>
            (\<forall>x. r = Inr x \<longrightarrow> (\<exists>m. x = Failure m))) \<or>
    (accepted w (w_trace w) q \<and>
     join_created_room me options room rid roundData w =
       enter_created_room me options room rid roundData (add_log [Fetch q] w))"
proof (cases "w_server w (w_trace w) q")
  case (NetError e)
  then show ?thesis by (simp add: join_created_room_def bnd_def http_post_log q_def join_request_def)
next
  case (Response st b)
  then show ?thesis
    by (cases "res_ok (st, b)")
       (auto simp: join_created_room_def bnd_def http_post_log q_def join_request_def accepted_def
         res_ok_def parseJsonSafe_act)
qed

lemma create_round_cases:
  fixes me options room rid w
  defines "q \<equiv> round_request w options rid"
  shows "(\<exists>r. create_round me options room rid w = (r, add_log [Fetch q] w) \<and>
            (\<forall>x. r = Inr x \<longrightarrow> (\<exists>m. x = Failure m))) \<or>
    (\<exists>roundData. accepted w (w_trace w) q \<and>
       create_round me options room rid w =
         join_created_room me options room rid roundData (add_log [Fetch q] w))"
proof (cases "w_server w (w_trace w) q")
  case (NetError e)
  then show ?thesis by (simp add: create_round_def bnd_def http_post_log q_def round_request_def)
next
  case (Response st b)
  then show ?thesis
    by (cases "res_ok (st, b)")
       (auto simp: create_round_def bnd_def http_post_log q_def round_request_def accepted_def
         res_ok_def parseJsonSafe_act)
qed

lemma join_request_add_log [simp]: "join_request (add_log es w) rid = join_request w rid"
  by (simp add: join_request_def)

lemma accepted_add_log [simp]: "accepted (add_log es w) h q = accepted w h q"
  by (simp add: accepted_def)

lemma round_request_add_log [simp]: "round_request (add_log es w) options rid = round_request w options rid"
  by (simp add: round_request_def)

text \<open>All three requests were accepted, in this order.\<close>

definition created_on_server :: "world \<Rightarrow> jv \<Rightarrow> string \<Rightarrow> jv \<Rightarrow> bool" where
  "created_on_server w options code rid =
     (let q1 = rooms_request w options code; q2 = round_request w options rid; q3 = join_request w rid in
      accepted w (w_trace w) q1 \<and> accepted w (w_trace w @ [Fetch q1]) q2 \<and>
      accepted w (w_trace w @ [Fetch q1, Fetch q2]) q3)"

lemma create_round_outcome:
  fixes me options room rid w
  defines "q2 \<equiv> round_request w options rid" and "q3 \<equiv> join_request w rid"
  assumes run: "create_round me options room rid w = (r, w')"
  shows "(w_room w' = w_room w \<and> (\<forall>x. r = Inr x \<longrightarrow> (\<exists>m. x = Failure m))) \<or>
    (accepted w (w_trace w) q2 \<and> accepted w (w_trace w @ [Fetch q2]) q3 \<and>
     (\<exists>roundData us. w_room w' = created_store me options room rid roundData us (w_room w)) \<and>
     (r = Inr Success \<or> (\<exists>e. r = Inl e)))"
proof -
  from create_round_cases [of me options room rid w]
  consider (a) "w_room w' = w_room w" "\<forall>x. r = Inr x \<longrightarrow> (\<exists>m. x = Failure m)"
    | (b) rd where "accepted w (w_trace w) q2"
        "join_created_room me options room rid rd (add_log [Fetch q2] w) = (r, w')"
    using run unfolding q2_def by fastforce
  then show ?thesis
  proof cases
    case b
    from join_created_room_cases [of me options room rid rd "add_log [Fetch q2] w"]
    consider (c) "w_room w' = w_room w" "\<forall>x. r = Inr x \<longrightarrow> (\<exists>m. x = Failure m)"
      | (d) "accepted w (w_trace w @ [Fetch q2]) q3"
          "enter_created_room me options room rid rd (add_log [Fetch q2, Fetch q3] w) = (r, w')"
      using b(2) unfolding q3_def by fastforce
    then show ?thesis
    proof cases
      case d
      from enter_created_room_act [OF d(2)] b(1) d(1) show ?thesis by auto
    qed blast
  qed blast
qed

lemma createRoom_outcome:
  "(w_room (snd (createRoom me code options w)) = w_room w \<and>
      (\<exists>m. fst (createRoom me code options w) = Inr (Failure m))) \<or>
   (\<exists>room rid roundData us. created_on_server w options code rid \<and>
      w_room (snd (createRoom me code options w)) = created_store me options room rid roundData us (w_room w) \<and>
      fst (createRoom me code options w) \<in> {Inr Success, Inr try_again_create})"
proof -
  let ?q = "rooms_request w options code"
  let ?h = "\<lambda>e. ret (Failure ''Failed to create room. Please try again.'') :: (world, action_result) js"
  let ?w = "add_log [Fetch ?q] w"
  show ?thesis
  proof (cases "get options ''profanityFilter''")
    case (Inl e)
    then show ?thesis by (simp add: createRoom_def)
  next
    case options: (Inr pf)
    show ?thesis
    proof (cases "w_server w (w_trace w) ?q")
      case (NetError e)
      with options show ?thesis
        by (simp add: createRoom_def catch_def bnd_def http_post_log rooms_request_def)
    next
      case (Response st b)
      let ?data = "case b of None \<Rightarrow> JNull | Some v \<Rightarrow> v"
      have run: "createRoom me code options w = catch (
          if \<not> res_ok (st, b) then ret (Failure (extractErrorMessage ?data ''Failed to create room.''))
          else bnd (lift (get ?data ''data'')) (\<lambda>room. bnd (lift (get room ''id'')) (\<lambda>rid.
            create_round me options room rid))) ?h ?w"
        using Response options
        by (simp add: createRoom_def catch_def bnd_def http_post_log parseJsonSafe_act rooms_request_def)
      consider "\<not> res_ok (st, b)"
        | e where "res_ok (st, b)" "get ?data ''data'' = Inl e"
        | room e where "res_ok (st, b)" "get ?data ''data'' = Inr room" "get room ''id'' = Inl e"
        | room rid where "res_ok (st, b)" "get ?data ''data'' = Inr room" "get room ''id'' = Inr rid"
        by (metis sumE)
      then show ?thesis
      proof cases
        case 4
        obtain r w' where rw: "create_round me options room rid ?w = (r, w')" by fastforce
        have eq: "createRoom me code options w = (Inr (case r of Inl e \<Rightarrow> try_again_create | Inr x \<Rightarrow> x), w')"
          using 4 run rw by (cases r) (simp_all add: catch_def try_again_create_def)
        have acc: "accepted w (w_trace w) ?q" using 4 Response by (simp add: accepted_def res_ok_def)
        from create_round_outcome [OF rw] show ?thesis
        proof
          assume "w_room w' = w_room ?w \<and> (\<forall>x. r = Inr x \<longrightarrow> (\<exists>m. x = Failure m))"
          with eq show ?thesis by (cases r) (auto simp: try_again_create_def)
        next
          assume *: "accepted ?w (w_trace ?w) (round_request ?w options rid) \<and>
            accepted ?w (w_trace ?w @ [Fetch (round_request ?w options rid)]) (join_request ?w rid) \<and>
            (\<exists>roundData us. w_room w' = created_store me options room rid roundData us (w_room ?w)) \<and>
            (r = Inr Success \<or> (\<exists>e. r = Inl e))"
          then have "created_on_server w options code rid"
            using acc by (simp add: created_on_server_def Let_def)
          with * eq show ?thesis by (cases r) fastforce+
        qed
      qed (auto simp: run)
    qed
  qed
qed

section \<open>The retry contract of the active-room lookup\<close>

interpretation active: retrying "checkActiveRoom me" "''/rooms/active''" "active_room_response me" "\<lambda>e. ret False"
  for me
proof
  show "checkActiveRoom me k = catch (bnd (http_get ''/rooms/active'') (\<lambda>res.
       if res_status res = 429 \<and> k < 3 then seqm (emit (Sleep (1000 * 2 ^ k))) (checkActiveRoom me (k + 1))
       else active_room_response me res)) (\<lambda>e. ret False)" for k
    by (rule checkActiveRoom.simps)
  show "\<exists>x w'. ret False w = (Inr x, w')" for w :: world
    by (intro exI) (rule script_simps)
qed

section \<open>Round flags\<close>

text \<open>A round is never both running and over.\<close>

definition round_flags_ok :: "room_store \<Rightarrow> bool" where
  "round_flags_ok s \<longleftrightarrow> \<not> (isRoundStarted s \<and> hasRoundEnded s)"

lemma flags_on_room [keeps_intro]:
  "keeps round_flags_ok (on_room (setParticipants us))"
  "keeps round_flags_ok (on_room (setRoomNotice v))"
  "keeps round_flags_ok (on_room (setProblems ps))"
  "keeps round_flags_ok (on_room (setRoundDuration v))"
  "keeps round_flags_ok (on_room (setRoundEndTime v))"
  "keeps round_flags_ok (on_room (setIsRoundStarted False))"
  "keeps round_flags_ok (on_room (setHasRoundEnded False))"
  "keeps round_flags_ok (on_room (setActiveTab t))"
  "keeps round_flags_ok (on_room resetRoom)"
  "keeps round_flags_ok (on_room (initRoom rid code admin b))"
  by (auto intro!: keeps_on_room simp: round_flags_ok_def store_simps roomStoreInit_def)

lemma keeps_pushRoute [keeps_intro]: "keeps Q (pushRoute r)"
  by (rule keeps_same_room) (simp add: pushRoute_act)

lemma keeps_parseJsonSafe [keeps_intro]: "keeps Q (parseJsonSafe res)"
  unfolding parseJsonSafe_def by (intro keeps_intro)

lemma flags_setRoomParticipants [keeps_intro]: "keeps round_flags_ok (setRoomParticipants me rid)"
  unfolding setRoomParticipants_def load_participants_def by (intro keeps_intro)

lemma keeps_remember_room [keeps_intro]: "keeps Q (remember_room rid)"
  unfolding remember_room_def seq_list.simps by (intro keeps_intro)

lemma flags_ended_then_started:
  assumes "st \<Longrightarrow> \<not> b" "keeps round_flags_ok k" "keeps round_flags_ok k'"
  shows "keeps round_flags_ok (seqm (on_room (setHasRoundEnded b))
     (seqm (when_do c (on_room (setRoundDuration d)))
       (if st then seqm (on_room (setIsRoundStarted True)) k
        else seqm (on_room (setIsRoundStarted False)) k')))" (is "keeps _ ?m")
proof (rule keepsI)
  fix w :: world
  let ?s = "w_room w\<lparr>hasRoundEnded := b, roundDuration := (if c then d else roundDuration (w_room w)),
       isRoundStarted := st\<rparr>"
  have "?m w = (if st then k else k') (w\<lparr>w_room := ?s\<rparr>)"
    by (cases c; cases st) (simp_all add: store_simps)
  moreover have "round_flags_ok ?s" using assms(1) by (auto simp: round_flags_ok_def)
  ultimately show "round_flags_ok (w_room (snd (?m w)))"
    using keepsD [OF assms(2), of "w\<lparr>w_room := ?s\<rparr>"] keepsD [OF assms(3), of "w\<lparr>w_room := ?s\<rparr>"]
    by (cases st) simp_all
qed

lemma flags_restore_round [keeps_intro]: "keeps round_flags_ok (restore_round rounds)"
  unfolding restore_round_def Let_def
  by (intro keeps_if keeps_bnd keeps_basic flags_ended_then_started)
     (auto intro!: keeps_intro dest: strict_eq_imp_eq)

lemma flags_active_room_response [keeps_intro]: "keeps round_flags_ok (active_room_response me res)"
  unfolding active_room_response_def Let_def enter_active_room_def by (intro keeps_intro)

text \<open>What every attempt of a retried lookup keeps.\<close>

lemma flags_checkActiveRoom [keeps_intro]: "keeps round_flags_ok (checkActiveRoom me k)"
proof (induction "3 - k" arbitrary: k)
  case 0
  then show ?case
    by (subst checkActiveRoom.simps) (auto intro!: keeps_intro)
next
  case (Suc n)
  then have "keeps round_flags_ok (checkActiveRoom me (k + 1))" by simp
  then show ?case
    by (subst checkActiveRoom.simps) (intro keeps_intro)
qed

lemma flags_enter_joined_room [keeps_intro]: "keeps round_flags_ok (enter_joined_room me room rid)"
proof -
  have k: "keeps round_flags_ok (seqm (setRoomParticipants me rid) (seqm (on_room (setRoomNotice JNull))
     (bnd (pushRoute ''/room-page'') (\<lambda>_. seqm (remember_room rid) (ret Success)))))"
    by (intro keeps_intro)
  show ?thesis
    by (rule keepsI, unfold enter_joined_room_def, simp, rule keepsD [OF k])
       (simp add: round_flags_ok_def store_simps)
qed

lemma flags_joinRoom [keeps_intro]: "keeps round_flags_ok (joinRoom me code)"
  unfolding joinRoom_def by (intro keeps_intro)

lemma flags_createRoom [keeps_intro]: "keeps round_flags_ok (createRoom me code options)"
  unfolding createRoom_def create_round_def join_created_room_def enter_created_room_def
  by (intro keeps_intro)

section \<open>Answers to the user\<close>

definition answer_ok :: "action_result \<Rightarrow> bool" where
  "answer_ok r = (case r of Success \<Rightarrow> True | Failure m \<Rightarrow> trim m \<noteq> [])"

lemma nonblank_to_str: "nonblank v \<Longrightarrow> trim (to_str v) \<noteq> []"
  by (cases v) (auto simp: nonblank_def)

lemma extractErrorMessage_nonblank: "trim fb \<noteq> [] \<Longrightarrow> trim (extractErrorMessage payload fb) \<noteq> []"
  by (auto simp: extractErrorMessage_def dest: nonblank_to_str)

lemma trim_Cons: "\<not> js_space c \<Longrightarrow> trim (c # s) \<noteq> []"
  by (auto simp: trim_def dropWhile_eq_Nil_conv simp del: rev.simps)

lemma sanitize_nonblank: "trim msg \<noteq> [] \<Longrightarrow> trim (sanitizeRoundCreationError msg) \<noteq> []"
  by (auto simp: sanitizeRoundCreationError_def intro!: trim_Cons simp: js_space_def)

lemma yields_answer [yields_intro]:
  "yields answer_ok (ret Success)"
  "trim m \<noteq> [] \<Longrightarrow> yields answer_ok (ret (Failure m))"
  by (auto intro!: yields_ret simp: answer_ok_def)

lemma literal_nonblank: "trim (CHR ''F'' # s) \<noteq> []" "trim (CHR ''R'' # s) \<noteq> []"
  by (rule trim_Cons, simp add: js_space_def)+

lemma answers_joinRoom: "yields answer_ok (joinRoom me code)"
  unfolding joinRoom_def enter_joined_room_def
  by (intro yields_intro extractErrorMessage_nonblank literal_nonblank)

lemma answers_createRoom: "yields answer_ok (createRoom me code options)"
  unfolding createRoom_def create_round_def join_created_room_def enter_created_room_def
  by (intro yields_intro extractErrorMessage_nonblank sanitize_nonblank literal_nonblank)

section \<open>Properties\<close>



text \<open>
  Entering a room never throws, and the user is never shown an empty error: both actions
  return success or a failure whose message has a visible character.
\<close>

theorem room_actions_answer:
  "(\<exists>r. fst (joinRoom me code w) = Inr r \<and> answer_ok r) \<and>
   (\<exists>r. fst (createRoom me code options w) = Inr r \<and> answer_ok r)"
proof -
  obtain r w' where "joinRoom me code w = (Inr r, w')" using joinRoom_total by blast
  moreover obtain q v where "createRoom me code options w = (Inr q, v)" using createRoom_total by blast
  ultimately show ?thesis
    using yieldsD [OF answers_joinRoom, of me code w r] yieldsD [OF answers_createRoom, of me code options w q]
    by simp
qed

text \<open>
  C40: the lookup of the active room ends after at most four requests, with waits of one, two and
  four seconds after refused ones; whatever answer comes last decides, and no error escapes.
\<close>

theorem checkActiveRoom_retries:
  "\<exists>n \<le> 3. checkActiveRoom me 0 w =
     active.outcome me (w_server w (w_trace w @ backoff_log (get_request w ''/rooms/active'') n)
         (get_request w ''/rooms/active''))
       (add_log (backoff_log (get_request w ''/rooms/active'') n @ [Fetch (get_request w ''/rooms/active'')]) w)"
  by (rule active.attempts_bounded)

end
