(* ===== verification/Room_Choice.thy ===== *)
theory Room_Choice
  imports Room_Init "HOL-Library.AList"
begin

text \<open>
  The create-room wizard (\<open>hooks/useRoomChoice.ts\<close>, with the counters of
  \<open>problem-count-section.tsx\<close>, the steps of \<open>filter-problems-tab.tsx\<close> and the page's
  \<open>createRoomWithSettings\<close>): the loaders of topics and companies, the derived filter values, the
  counters, the live count of matching problems with its cache, debounce and aborted requests, and
  the submission. The counters of \<open>packages/components/customComponents/createRoom\<close> follow the same
  discipline; the locale \<open>difficulty_counters\<close> states it once for both.
\<close>

section \<open>Data\<close>

datatype Difficulty = Easy | Medium | Hard

record topic_stat =
  ts_total :: jv
  ts_easy :: jv
  ts_medium :: jv
  ts_hard :: jv

record wizard =
  rc_easy :: int
  rc_medium :: int
  rc_hard :: int
  rc_anyDifficulty :: bool
  rc_anyDifficultyCount :: int
  rc_duration :: int
  rc_total :: int
  rc_topics :: "jv list"
  rc_topicStats :: "(string \<times> topic_stat) list"
  rc_selectedTopics :: "string list"
  rc_companies :: "jv list"
  rc_selectedCompanies :: "string list"
  rc_blind75 :: bool
  rc_neetcode150 :: bool
  rc_recentlyAsked :: bool
  rc_excludePaid :: bool
  rc_formError :: "string option"
  rc_isSubmitting :: bool

definition wizardInit :: wizard where
  "wizardInit = \<lparr>rc_easy = 1, rc_medium = 0, rc_hard = 0, rc_anyDifficulty = False,
     rc_anyDifficultyCount = 1, rc_duration = 30, rc_total = 1, rc_topics = [], rc_topicStats = [],
     rc_selectedTopics = [], rc_companies = [], rc_selectedCompanies = [], rc_blind75 = False,
     rc_neetcode150 = False, rc_recentlyAsked = False, rc_excludePaid = True, rc_formError = None,
     rc_isSubmitting = False\<rparr>"

definition minNumberOfProblems :: int where "minNumberOfProblems = 0"
definition maxNumberOfProblems :: int where "maxNumberOfProblems = 10"

section \<open>Loading topics and companies\<close>

text \<open>\<open>payload?.data || []\<close>, which is then mapped over.\<close>

definition payload_list :: "jv \<Rightarrow> jv + jv list" where
  "payload_list payload =
     (case js_or (opt_get payload ''data'') (JArr []) of JArr vs \<Rightarrow> Inr vs | _ \<Rightarrow> Inl type_error)"

definition fetch_failed :: "string \<Rightarrow> nat \<times> jv option \<Rightarrow> jv" where
  "fetch_failed what res = mk_error ''Error'' (what @ show_int (int (res_status res)))"

definition topic_entry :: "jv \<Rightarrow> jv + (string \<times> topic_stat)" where
  "topic_entry stat =
     (case get stat ''tag'' of
        Inl e \<Rightarrow> Inl e
      | Inr tag \<Rightarrow> Inr (to_str tag, \<lparr>ts_total = opt_get stat ''totalCount'', ts_easy = opt_get stat ''easyCount'',
                     ts_medium = opt_get stat ''mediumCount'', ts_hard = opt_get stat ''hardCount''\<rparr>))"

text \<open>\<open>Object.fromEntries\<close>: a repeated key keeps its place and takes the later value.\<close>

definition from_entries :: "(string \<times> 'v) list \<Rightarrow> (string \<times> 'v) list" where
  "from_entries kvs = foldl (\<lambda>acc kv. AList.update (fst kv) (snd kv) acc) [] kvs"

text \<open>The loaders return the state they set.\<close>

definition topics_response :: "nat \<times> jv option \<Rightarrow> (world, jv list \<times> (string \<times> topic_stat) list) js" where
  "topics_response res =
     (if \<not> res_ok res then throw (fetch_failed ''Failed to fetch topics: '' res)
      else bnd (res_json res) (\<lambda>payload.
           bnd (lift (payload_list payload)) (\<lambda>stats.
           bnd (lift (map_throws (\<lambda>stat. get stat ''tag'') stats)) (\<lambda>tags.
           bnd (lift (map_throws topic_entry stats)) (\<lambda>entries.
             ret (tags, from_entries entries))))))"

function loadTopics :: "nat \<Rightarrow> (world, jv list \<times> (string \<times> topic_stat) list) js" where
  "loadTopics attempt = catch
     (bnd (http_get ''/problems/tags'') (\<lambda>res.
        if res_status res = 429 \<and> attempt < 3 then
          seqm (emit (Sleep (1000 * 2 ^ attempt))) (loadTopics (attempt + 1))
        else topics_response res))
     (\<lambda>e. ret ([], []))"
  by pat_completeness auto
termination by (relation "measure (\<lambda>attempt. 3 - attempt)") auto

declare loadTopics.simps [simp del]

definition companies_response :: "nat \<times> jv option \<Rightarrow> (world, jv list) js" where
  "companies_response res =
     (if \<not> res_ok res then throw (fetch_failed ''Failed to fetch companies: '' res)
      else bnd (res_json res) (\<lambda>payload.
           bnd (lift (payload_list payload)) (\<lambda>stats.
             lift (map_throws (\<lambda>stat. get stat ''company'') stats))))"

function loadCompanies :: "nat \<Rightarrow> (world, jv list) js" where
  "loadCompanies attempt = catch
     (bnd (http_get ''/problems/companies'') (\<lambda>res.
        if res_status res = 429 \<and> attempt < 3 then
          seqm (emit (Sleep (1000 * 2 ^ attempt))) (loadCompanies (attempt + 1))
        else companies_response res))
     (\<lambda>e. ret [])"
  by pat_completeness auto
termination by (relation "measure (\<lambda>attempt. 3 - attempt)") auto

declare loadCompanies.simps [simp del]

definition set_topics :: "jv list \<times> (string \<times> topic_stat) list \<Rightarrow> wizard \<Rightarrow> wizard" where
  "set_topics r s = s\<lparr>rc_topics := fst r, rc_topicStats := snd r\<rparr>"

definition set_companies :: "jv list \<Rightarrow> wizard \<Rightarrow> wizard" where
  "set_companies cs s = s\<lparr>rc_companies := cs\<rparr>"

interpretation topics: retrying loadTopics "''/problems/tags''" topics_response "\<lambda>e. ret ([], [])"
proof
  show "loadTopics k = catch (bnd (http_get ''/problems/tags'') (\<lambda>res.
       if res_status res = 429 \<and> k < 3 then seqm (emit (Sleep (1000 * 2 ^ k))) (loadTopics (k + 1))
       else topics_response res)) (\<lambda>e. ret ([], []))" for k
    by (rule loadTopics.simps)
  show "\<exists>x w'. ret ([], []) w = (Inr x, w')" for w :: world
    by (intro exI) (rule script_simps)
qed

interpretation companies: retrying loadCompanies "''/problems/companies''" companies_response "\<lambda>e. ret []"
proof
  show "loadCompanies k = catch (bnd (http_get ''/problems/companies'') (\<lambda>res.
       if res_status res = 429 \<and> k < 3 then seqm (emit (Sleep (1000 * 2 ^ k))) (loadCompanies (k + 1))
       else companies_response res)) (\<lambda>e. ret [])" for k
    by (rule loadCompanies.simps)
  show "\<exists>x w'. ret [] w = (Inr x, w')" for w :: world
    by (intro exI) (rule script_simps)
qed

section \<open>Derived values\<close>

definition activeDifficulties :: "wizard \<Rightarrow> string" where
  "activeDifficulties s =
     (if rc_anyDifficulty s then []
      else join '','' ((if rc_easy s > 0 then [''easy''] else []) @ (if rc_medium s > 0 then [''medium''] else []) @
             (if rc_hard s > 0 then [''hard''] else [])))"

definition requestedTotal :: "wizard \<Rightarrow> int" where
  "requestedTotal s =
     (if rc_anyDifficulty s then rc_anyDifficultyCount s else rc_easy s + rc_medium s + rc_hard s)"

definition topic_count :: "string list \<Rightarrow> topic_stat \<Rightarrow> jv" where
  "topic_count active stat =
     (if active = [] then ts_total stat
      else
        (let c0 = JNum 0;
             c1 = (if ''easy'' \<in> set active then js_add c0 (ts_easy stat) else c0);
             c2 = (if ''medium'' \<in> set active then js_add c1 (ts_medium stat) else c1) in
         if ''hard'' \<in> set active then js_add c2 (ts_hard stat) else c2))"

definition topicCounts :: "wizard \<Rightarrow> (string \<times> jv) list" where
  "topicCounts s =
     (let active = (if activeDifficulties s = [] then [] else split_on CHR '','' (activeDifficulties s)) in
      from_entries (map (\<lambda>kv. (fst kv, topic_count active (snd kv))) (rc_topicStats s)))"

definition filters_of :: "wizard \<Rightarrow> problem_count_filters" where
  "filters_of s = \<lparr>f_difficulties = activeDifficulties s, f_tags = rc_selectedTopics s,
     f_companies = rc_selectedCompanies s, f_blind75 = rc_blind75 s, f_neetcode150 = rc_neetcode150 s,
     f_recentlyAsked = rc_recentlyAsked s, f_excludePaid = rc_excludePaid s\<rparr>"

text \<open>The effect on \<open>[selectedCompanies, recentlyAsked]\<close>.\<close>

definition recently_effect :: "wizard \<Rightarrow> wizard" where
  "recently_effect s = (if rc_selectedCompanies s = [] \<and> rc_recentlyAsked s then s\<lparr>rc_recentlyAsked := False\<rparr> else s)"

section \<open>The counters\<close>

fun get_num :: "Difficulty \<Rightarrow> wizard \<Rightarrow> int" where
  "get_num Easy s = rc_easy s"
| "get_num Medium s = rc_medium s"
| "get_num Hard s = rc_hard s"

fun set_num :: "Difficulty \<Rightarrow> int \<Rightarrow> wizard \<Rightarrow> wizard" where
  "set_num Easy n s = s\<lparr>rc_easy := n\<rparr>"
| "set_num Medium n s = s\<lparr>rc_medium := n\<rparr>"
| "set_num Hard n s = s\<lparr>rc_hard := n\<rparr>"

definition decrement :: "Difficulty \<Rightarrow> wizard \<Rightarrow> wizard" where
  "decrement d s =
     (if rc_total s \<le> 1 \<or> get_num d s \<le> minNumberOfProblems then s
      else (set_num d (get_num d s - 1) s)\<lparr>rc_total := rc_total s - 1\<rparr>)"

definition increment :: "Difficulty \<Rightarrow> wizard \<Rightarrow> wizard" where
  "increment d s =
     (if rc_total s \<ge> maxNumberOfProblems then s
      else (set_num d (get_num d s + 1) s)\<lparr>rc_total := rc_total s + 1\<rparr>)"

text \<open>\<open>MIN_ANY_DIFFICULTY\<close> and \<open>MAX_ANY_DIFFICULTY\<close> of the count section.\<close>

definition any_less :: "wizard \<Rightarrow> wizard" where
  "any_less s = s\<lparr>rc_anyDifficultyCount := max 1 (rc_anyDifficultyCount s - 1)\<rparr>"

definition any_more :: "wizard \<Rightarrow> wizard" where
  "any_more s = s\<lparr>rc_anyDifficultyCount := min 10 (rc_anyDifficultyCount s + 1)\<rparr>"

definition resetFilters :: "wizard \<Rightarrow> wizard" where
  "resetFilters s = s\<lparr>rc_easy := 1, rc_medium := 0, rc_hard := 0, rc_total := 1, rc_anyDifficulty := False,
     rc_anyDifficultyCount := 1, rc_selectedTopics := [], rc_selectedCompanies := [], rc_blind75 := False,
     rc_neetcode150 := False, rc_recentlyAsked := False, rc_excludePaid := True, rc_duration := 30,
     rc_formError := None\<rparr>"

text \<open>
  What both wizards promise of their counters: the total is the sum, between 1 and 10, and no counter
  is negative.
\<close>

locale difficulty_counters =
  fixes num :: "Difficulty \<Rightarrow> 's \<Rightarrow> int"
    and total :: "'s \<Rightarrow> int"
    and inc dec :: "Difficulty \<Rightarrow> 's \<Rightarrow> 's"
  assumes inc_full: "total s \<ge> 10 \<Longrightarrow> inc d s = s"
    and inc_num: "total s < 10 \<Longrightarrow> num d' (inc d s) = num d' s + (if d' = d then 1 else 0)"
    and inc_total: "total s < 10 \<Longrightarrow> total (inc d s) = total s + 1"
    and dec_stuck: "total s \<le> 1 \<or> num d s \<le> 0 \<Longrightarrow> dec d s = s"
    and dec_num: "total s > 1 \<Longrightarrow> num d s > 0 \<Longrightarrow> num d' (dec d s) = num d' s - (if d' = d then 1 else 0)"
    and dec_total: "total s > 1 \<Longrightarrow> num d s > 0 \<Longrightarrow> total (dec d s) = total s - 1"
begin

definition counters_ok :: "'s \<Rightarrow> bool" where
  "counters_ok s \<longleftrightarrow> total s = num Easy s + num Medium s + num Hard s \<and> 1 \<le> total s \<and> total s \<le> 10 \<and>
     0 \<le> num Easy s \<and> 0 \<le> num Medium s \<and> 0 \<le> num Hard s"

lemma counters_ok_inc: "counters_ok s \<Longrightarrow> counters_ok (inc d s)"
  by (cases "total s \<ge> 10"; cases d) (auto simp: counters_ok_def inc_full inc_num inc_total)

lemma counters_ok_dec: "counters_ok s \<Longrightarrow> counters_ok (dec d s)"
  by (cases "total s \<le> 1 \<or> num d s \<le> 0"; cases d) (auto simp: counters_ok_def dec_stuck dec_num dec_total)

lemma dec_inc: "counters_ok s \<Longrightarrow> total s < 10 \<Longrightarrow>
    num d' (dec d (inc d s)) = num d' s \<and> total (dec d (inc d s)) = total s"
  by (cases d) (auto simp: counters_ok_def inc_num inc_total dec_num dec_total)

end

lemma get_set_num: "get_num d' (set_num d n s) = (if d' = d then n else get_num d' s)"
  by (cases d; cases d') auto

lemma get_num_total [simp]: "get_num d (s\<lparr>rc_total := n\<rparr>) = get_num d s"
  by (cases d) auto

interpretation wizard_counters: difficulty_counters get_num rc_total increment decrement
  by unfold_locales
     (auto simp: increment_def decrement_def minNumberOfProblems_def maxNumberOfProblems_def get_set_num)

section \<open>Submitting\<close>

definition code_chars :: string where
  "code_chars = ''ABCDEFGHIJKLMNOPQRSTUVWXYZabcdefghijklmnopqrstuvwxyz0123456789''"

text \<open>The code of the room from the five numbers \<open>Math.floor(Math.random() * chars.length)\<close> drawn.\<close>

definition char_at :: "string \<Rightarrow> nat \<Rightarrow> string" where
  "char_at s i = (if i < length s then [s ! i] else [])"

definition room_code :: "nat list \<Rightarrow> string" where
  "room_code draws = concat (map (char_at code_chars) (take 5 draws))"

definition room_settings :: "wizard \<Rightarrow> (string \<times> jv) list" where
  "room_settings s =
     [(''easy'', JNum (if rc_anyDifficulty s then 0 else rc_easy s)),
      (''medium'', JNum (if rc_anyDifficulty s then 0 else rc_medium s)),
      (''hard'', JNum (if rc_anyDifficulty s then 0 else rc_hard s)),
      (''duration'', JNum (rc_duration s)),
      (''tags'', JArr (map JStr (rc_selectedTopics s))),
      (''companies'', JArr (map JStr (rc_selectedCompanies s))),
      (''blind75'', JBool (rc_blind75 s)), (''neetcode150'', JBool (rc_neetcode150 s)),
      (''recentlyAsked'', JBool (rc_recentlyAsked s)), (''excludePaid'', JBool (rc_excludePaid s)),
      (''anyDifficulty'', JBool (rc_anyDifficulty s)),
      (''anyDifficultyCount'', JNum (if rc_anyDifficulty s then rc_anyDifficultyCount s else 0))]"

text \<open>\<open>{...options, profanityFilter}\<close>\<close>

definition with_profanity :: "bool \<Rightarrow> (string \<times> jv) list \<Rightarrow> jv" where
  "with_profanity profanityFilter options = JObj (obj_put ''profanityFilter'' (JBool profanityFilter) options)"

definition result_error :: "action_result \<Rightarrow> string option \<Rightarrow> string option" where
  "result_error r old = (case r of Success \<Rightarrow> old | Failure m \<Rightarrow> Some m)"

definition begin_create :: "wizard \<Rightarrow> wizard" where
  "begin_create s = s\<lparr>rc_formError := None, rc_isSubmitting := True\<rparr>"

definition finish_create :: "action_result \<Rightarrow> wizard \<Rightarrow> wizard" where
  "finish_create r s = s\<lparr>rc_formError := result_error r (rc_formError s), rc_isSubmitting := False\<rparr>"

text \<open>The whole submission, with the page's \<open>createRoomWithSettings\<close> as \<open>onCreate\<close>.\<close>

definition handleCreateRoom :: "user_store \<Rightarrow> bool \<Rightarrow> nat list \<Rightarrow> wizard \<Rightarrow> (world, wizard) js" where
  "handleCreateRoom me profanityFilter draws s =
     bnd (createRoom me (room_code draws) (with_profanity profanityFilter (room_settings s)))
       (\<lambda>r. ret (finish_create r (begin_create s)))"

section \<open>The filter tab\<close>

record filter_tab =
  ft_wizard :: wizard
  ft_step :: nat
  ft_touched :: bool

definition SECTIONS :: "string list" where
  "SECTIONS = [''problems'', ''lists'', ''topics'', ''companies'', ''duration'']"

definition LAST_STEP :: nat where
  "LAST_STEP = length SECTIONS - 1"

definition filterTabInit :: filter_tab where
  "filterTabInit = \<lparr>ft_wizard = wizardInit, ft_step = 0, ft_touched = False\<rparr>"

definition isLastStep :: "filter_tab \<Rightarrow> bool" where
  "isLastStep t \<longleftrightarrow> ft_step t = LAST_STEP"

definition showCreateLabel :: "filter_tab \<Rightarrow> bool" where
  "showCreateLabel t \<longleftrightarrow> (ft_step t = 0 \<and> \<not> ft_touched t) \<or> isLastStep t"

definition notEnoughProblems :: "int option \<Rightarrow> filter_tab \<Rightarrow> bool" where
  "notEnoughProblems availableCount t =
     (case availableCount of None \<Rightarrow> False | Some n \<Rightarrow> n < requestedTotal (ft_wizard t))"

definition touchFirstStep :: "filter_tab \<Rightarrow> filter_tab" where
  "touchFirstStep t = (if \<not> ft_touched t then t\<lparr>ft_touched := True\<rparr> else t)"

text \<open>\<open>handlePrimaryAction\<close>: either the submission is started or the wizard goes on.\<close>

definition next_step :: "filter_tab \<Rightarrow> filter_tab" where
  "next_step t = t\<lparr>ft_step := min (ft_step t + 1) LAST_STEP\<rparr>"

definition handlePrimaryAction :: "filter_tab \<Rightarrow> filter_tab" where
  "handlePrimaryAction t =
     (if showCreateLabel t then t\<lparr>ft_wizard := begin_create (ft_wizard t)\<rparr> else next_step t)"

definition handleReset :: "filter_tab \<Rightarrow> filter_tab" where
  "handleReset t = t\<lparr>ft_wizard := resetFilters (ft_wizard t), ft_step := 0, ft_touched := False\<rparr>"

text \<open>\<open>SECTIONS.indexOf(value)\<close> of the accordion's value.\<close>

fun index_of :: "string \<Rightarrow> string list \<Rightarrow> nat option" where
  "index_of v [] = None"
| "index_of v (x # xs) = (if x = v then Some 0 else map_option Suc (index_of v xs))"

definition onValueChange :: "string \<Rightarrow> filter_tab \<Rightarrow> filter_tab" where
  "onValueChange v t = (case index_of v SECTIONS of None \<Rightarrow> t | Some i \<Rightarrow> t\<lparr>ft_step := i\<rparr>)"

definition primary_disabled :: "int option \<Rightarrow> bool \<Rightarrow> filter_tab \<Rightarrow> bool" where
  "primary_disabled availableCount isLoadingFilter t \<longleftrightarrow>
     rc_isSubmitting (ft_wizard t) \<or> isLoadingFilter \<or> (showCreateLabel t \<and> notEnoughProblems availableCount t)"

definition plural :: "int \<Rightarrow> string" where
  "plural n = (if n = 1 then [] else ''s'')"

definition primary_label :: "int option \<Rightarrow> bool \<Rightarrow> filter_tab \<Rightarrow> string" where
  "primary_label availableCount isLoadingFilter t =
     (if rc_isSubmitting (ft_wizard t) then ''Creating...''
      else if isLoadingFilter then ''Loading...''
      else (if showCreateLabel t then ''Create'' else ''Next'') @
        (case availableCount of None \<Rightarrow> [] | Some n \<Rightarrow> '' ('' @ show_int n @ '' result'' @ plural n @ '')''))"

definition shortage_message :: "int option \<Rightarrow> bool \<Rightarrow> filter_tab \<Rightarrow> string option" where
  "shortage_message availableCount isLoadingFilter t =
     (case availableCount of
        None \<Rightarrow> None
      | Some n \<Rightarrow>
          if \<not> isLoadingFilter \<and> showCreateLabel t \<and> notEnoughProblems availableCount t then
            Some (if n = 0 then ''No problems found with these filters, try adjusting them!''
                  else ''Only '' @ show_int n @ '' problem'' @ plural n @
                    '' found with these filters but you asked for '' @
                    show_int (requestedTotal (ft_wizard t)) @ '', try adjusting them!'')
          else None)"

text \<open>Every control of the tab. The counters and the any-difficulty controls mark the first step as
  touched; the counter buttons are disabled while any difficulty is chosen; the slider yields multiples of five from 5 to 120.\<close>

datatype tab_event =
    IncrementClicked Difficulty
  | DecrementClicked Difficulty
  | AnyChecked bool
  | AnyMoreClicked
  | AnyLessClicked
  | TopicsSelected "string list"
  | CompaniesSelected "string list"
  | Blind75Checked bool
  | Neetcode150Checked bool
  | ExcludePaidChecked bool
  | RecentlyChecked bool
  | DurationMoved nat
  | SectionOpened string
  | PrimaryClicked
  | CreateFinished action_result
  | ResetClicked
  | ErrorDismissed
  | TopicsLoaded "jv list \<times> (string \<times> topic_stat) list"
  | CompaniesLoaded "jv list"

definition on_wizard :: "(wizard \<Rightarrow> wizard) \<Rightarrow> filter_tab \<Rightarrow> filter_tab" where
  "on_wizard f t = t\<lparr>ft_wizard := recently_effect (f (ft_wizard t))\<rparr>"

text \<open>The slider of the duration picker: minimum 5, maximum 120, step 5.\<close>

definition slider_value :: "nat \<Rightarrow> int" where
  "slider_value k = min 120 (5 + 5 * int k)"

fun tab_step :: "tab_event \<Rightarrow> filter_tab \<Rightarrow> filter_tab" where
  "tab_step (IncrementClicked d) t =
     (if rc_anyDifficulty (ft_wizard t) then t else on_wizard (increment d) (touchFirstStep t))"
| "tab_step (DecrementClicked d) t =
     (if rc_anyDifficulty (ft_wizard t) then t else on_wizard (decrement d) (touchFirstStep t))"
| "tab_step (AnyChecked b) t = on_wizard (\<lambda>s. s\<lparr>rc_anyDifficulty := b\<rparr>) (touchFirstStep t)"
| "tab_step AnyMoreClicked t = on_wizard any_more (touchFirstStep t)"
| "tab_step AnyLessClicked t = on_wizard any_less (touchFirstStep t)"
| "tab_step (TopicsSelected ts) t = on_wizard (\<lambda>s. s\<lparr>rc_selectedTopics := ts\<rparr>) t"
| "tab_step (CompaniesSelected cs) t = on_wizard (\<lambda>s. s\<lparr>rc_selectedCompanies := cs\<rparr>) t"
| "tab_step (Blind75Checked b) t = on_wizard (\<lambda>s. s\<lparr>rc_blind75 := b\<rparr>) t"
| "tab_step (Neetcode150Checked b) t = on_wizard (\<lambda>s. s\<lparr>rc_neetcode150 := b\<rparr>) t"
| "tab_step (ExcludePaidChecked b) t = on_wizard (\<lambda>s. s\<lparr>rc_excludePaid := b\<rparr>) t"
| "tab_step (RecentlyChecked b) t =
     (if rc_selectedCompanies (ft_wizard t) = [] then t else on_wizard (\<lambda>s. s\<lparr>rc_recentlyAsked := b\<rparr>) t)"
| "tab_step (DurationMoved k) t = on_wizard (\<lambda>s. s\<lparr>rc_duration := slider_value k\<rparr>) t"
| "tab_step (SectionOpened v) t = onValueChange v t"
| "tab_step PrimaryClicked t = handlePrimaryAction t"
| "tab_step (CreateFinished r) t = on_wizard (finish_create r) t"
| "tab_step ResetClicked t = handleReset t"
| "tab_step ErrorDismissed t = on_wizard (\<lambda>s. s\<lparr>rc_formError := None\<rparr>) t"
| "tab_step (TopicsLoaded r) t = on_wizard (set_topics r) t"
| "tab_step (CompaniesLoaded cs) t = on_wizard (set_companies cs) t"

definition wizard_inv :: "wizard \<Rightarrow> bool" where
  "wizard_inv s \<longleftrightarrow> wizard_counters.counters_ok s \<and> 1 \<le> rc_anyDifficultyCount s \<and> rc_anyDifficultyCount s \<le> 10 \<and>
     5 \<le> rc_duration s \<and> rc_duration s \<le> 120 \<and> (rc_selectedCompanies s \<noteq> [] \<or> \<not> rc_recentlyAsked s)"

definition tab_ok :: "filter_tab \<Rightarrow> bool" where
  "tab_ok t \<longleftrightarrow> wizard_inv (ft_wizard t) \<and> ft_step t \<le> LAST_STEP"

lemma counters_ok_same:
  "rc_total s' = rc_total s \<Longrightarrow> rc_easy s' = rc_easy s \<Longrightarrow> rc_medium s' = rc_medium s \<Longrightarrow> rc_hard s' = rc_hard s \<Longrightarrow>
   wizard_counters.counters_ok s' = wizard_counters.counters_ok s"
  by (simp add: wizard_counters.counters_ok_def)

lemma counter_frame:
  "rc_anyDifficultyCount (increment d s) = rc_anyDifficultyCount s" "rc_duration (increment d s) = rc_duration s"
  "rc_selectedCompanies (increment d s) = rc_selectedCompanies s" "rc_recentlyAsked (increment d s) = rc_recentlyAsked s"
  "rc_anyDifficultyCount (decrement d s) = rc_anyDifficultyCount s" "rc_duration (decrement d s) = rc_duration s"
  "rc_selectedCompanies (decrement d s) = rc_selectedCompanies s" "rc_recentlyAsked (decrement d s) = rc_recentlyAsked s"
  by (cases d; simp add: increment_def decrement_def)+

lemma index_of_less: "index_of v xs = Some i \<Longrightarrow> i < length xs"
  by (induction xs arbitrary: i) (auto split: if_splits)

lemma wizard_inv_init: "wizard_inv wizardInit"
  by (simp add: wizard_inv_def wizard_counters.counters_ok_def wizardInit_def)

lemma recently_effect_simps [simp]:
  "rc_total (recently_effect s) = rc_total s" "rc_easy (recently_effect s) = rc_easy s"
  "rc_medium (recently_effect s) = rc_medium s" "rc_hard (recently_effect s) = rc_hard s"
  "rc_anyDifficultyCount (recently_effect s) = rc_anyDifficultyCount s"
  "rc_duration (recently_effect s) = rc_duration s"
  "rc_selectedCompanies (recently_effect s) \<noteq> [] \<or> \<not> rc_recentlyAsked (recently_effect s)"
  by (auto simp: recently_effect_def)

text \<open>After the effect only the numbers matter.\<close>

definition numbers_ok :: "wizard \<Rightarrow> bool" where
  "numbers_ok s \<longleftrightarrow> wizard_counters.counters_ok s \<and> 1 \<le> rc_anyDifficultyCount s \<and> rc_anyDifficultyCount s \<le> 10 \<and>
     5 \<le> rc_duration s \<and> rc_duration s \<le> 120"

lemma wizard_inv_effect: "numbers_ok s \<Longrightarrow> wizard_inv (recently_effect s)"
  using recently_effect_simps(7) [of s]
  by (auto simp: wizard_inv_def numbers_ok_def counters_ok_same [of "recently_effect s" s])

lemma wizard_inv_numbers: "wizard_inv s \<Longrightarrow> numbers_ok s"
  by (simp add: wizard_inv_def numbers_ok_def)

lemma tab_ok_on_wizard:
  "tab_ok t \<Longrightarrow> (numbers_ok (ft_wizard t) \<Longrightarrow> numbers_ok (f (ft_wizard t))) \<Longrightarrow> tab_ok (on_wizard f t)"
  by (simp add: tab_ok_def on_wizard_def wizard_inv_effect wizard_inv_numbers)

lemma tab_ok_touch: "tab_ok t \<Longrightarrow> tab_ok (touchFirstStep t)"
  by (simp add: tab_ok_def touchFirstStep_def)

lemma numbers_counters:
  "numbers_ok s \<Longrightarrow> numbers_ok (increment d s)" "numbers_ok s \<Longrightarrow> numbers_ok (decrement d s)"
  by (simp_all add: numbers_ok_def wizard_counters.counters_ok_inc wizard_counters.counters_ok_dec counter_frame)

lemma numbers_rest:
  "numbers_ok s \<Longrightarrow> numbers_ok (any_more s)" "numbers_ok s \<Longrightarrow> numbers_ok (any_less s)"
  "numbers_ok s \<Longrightarrow> numbers_ok (finish_create r s)" "numbers_ok s \<Longrightarrow> numbers_ok (set_topics ts s)"
  "numbers_ok s \<Longrightarrow> numbers_ok (set_companies cs s)" "numbers_ok s \<Longrightarrow> numbers_ok (s\<lparr>rc_duration := slider_value k\<rparr>)"
  "numbers_ok s \<Longrightarrow> numbers_ok (s\<lparr>rc_anyDifficulty := b\<rparr>)" "numbers_ok s \<Longrightarrow> numbers_ok (s\<lparr>rc_selectedTopics := l\<rparr>)"
  "numbers_ok s \<Longrightarrow> numbers_ok (s\<lparr>rc_selectedCompanies := l\<rparr>)" "numbers_ok s \<Longrightarrow> numbers_ok (s\<lparr>rc_blind75 := b\<rparr>)"
  "numbers_ok s \<Longrightarrow> numbers_ok (s\<lparr>rc_neetcode150 := b\<rparr>)" "numbers_ok s \<Longrightarrow> numbers_ok (s\<lparr>rc_excludePaid := b\<rparr>)"
  "numbers_ok s \<Longrightarrow> numbers_ok (s\<lparr>rc_recentlyAsked := b\<rparr>)" "numbers_ok s \<Longrightarrow> numbers_ok (s\<lparr>rc_formError := e\<rparr>)"
  by (simp_all add: numbers_ok_def wizard_counters.counters_ok_def any_more_def any_less_def finish_create_def
      set_topics_def set_companies_def slider_value_def)

lemma tab_ok_reset: "tab_ok (handleReset t)"
  by (simp add: tab_ok_def handleReset_def wizard_inv_def wizard_counters.counters_ok_def resetFilters_def)

lemma tab_ok_primary: "tab_ok t \<Longrightarrow> tab_ok (handlePrimaryAction t)"
  by (auto simp: handlePrimaryAction_def tab_ok_def next_step_def begin_create_def wizard_inv_def
      wizard_counters.counters_ok_def)

lemma tab_ok_section: "tab_ok t \<Longrightarrow> tab_ok (onValueChange v t)"
  using index_of_less [of v SECTIONS]
  by (cases "index_of v SECTIONS") (auto simp: onValueChange_def tab_ok_def LAST_STEP_def)

lemma tab_ok_step: "tab_ok t \<Longrightarrow> tab_ok (tab_step e t)"
  by (cases e) (auto intro!: tab_ok_on_wizard tab_ok_touch tab_ok_reset tab_ok_primary tab_ok_section
      numbers_counters numbers_rest)

interpretation filter_tab: bounded_machine filterTabInit tab_step tab_ok
  "\<lambda>t. requestedTotal (ft_wizard t)" 1 10
  by unfold_locales
     (simp add: tab_ok_def filterTabInit_def wizard_inv_init, rule tab_ok_step, assumption,
      auto simp: tab_ok_def wizard_inv_def wizard_counters.counters_ok_def requestedTotal_def)

section \<open>Lemmas on the derived values\<close>

lemma map_of_from_entries: "map_of (from_entries kvs) k = map_of (rev kvs) k"
proof -
  have "map_of (foldl (\<lambda>acc kv. AList.update (fst kv) (snd kv) acc) al kvs) k =
      (case map_of (rev kvs) k of None \<Rightarrow> map_of al k | Some v \<Rightarrow> Some v)" for al
    by (induction kvs arbitrary: al) (auto simp: update_conv' map_add_def split: option.split)
  then show ?thesis by (simp add: from_entries_def split: option.split)
qed

lemma map_of_rev: "distinct (map fst kvs) \<Longrightarrow> map_of (rev kvs) k = map_of kvs k"
  using map_of_inject_set [of "rev kvs" kvs] by (simp add: rev_map [symmetric])

lemma map_of_map_entries:
  "distinct (map fst kvs) \<Longrightarrow>
   map_of (from_entries (map (\<lambda>kv. (fst kv, f (snd kv))) kvs)) k = map_option f (map_of kvs k)"
proof -
  assume d: "distinct (map fst kvs)"
  have "map fst (map (\<lambda>kv. (fst kv, f (snd kv))) kvs) = map fst kvs" by simp
  with d have "map_of (from_entries (map (\<lambda>kv. (fst kv, f (snd kv))) kvs)) k =
      map_of (map (\<lambda>kv. (fst kv, f (snd kv))) kvs) k"
    by (simp only: map_of_from_entries map_of_rev)
  also have "\<dots> = map_option f (map_of kvs k)" by (induction kvs) auto
  finally show ?thesis .
qed

definition active_sum :: "wizard \<Rightarrow> int \<Rightarrow> int \<Rightarrow> int \<Rightarrow> int" where
  "active_sum s e m h = (if rc_easy s > 0 then e else 0) + (if rc_medium s > 0 then m else 0) +
     (if rc_hard s > 0 then h else 0)"

lemma topic_count_active:
  assumes "\<not> rc_anyDifficulty s" "rc_easy s > 0 \<or> rc_medium s > 0 \<or> rc_hard s > 0"
  shows "activeDifficulties s \<noteq> []"
    and "topic_count (split_on CHR '','' (activeDifficulties s))
      \<lparr>ts_total = t, ts_easy = JNum e, ts_medium = JNum m, ts_hard = JNum h\<rparr> = JNum (active_sum s e m h)"
  using assms
  by (cases "rc_easy s > 0"; cases "rc_medium s > 0"; cases "rc_hard s > 0";
      simp add: activeDifficulties_def topic_count_def active_sum_def Let_def)+

section \<open>Properties\<close>

text \<open>
  C29: whatever is clicked in the wizard, its counters stay consistent: the total is their sum and
  between 1 and 10, the round asks for 1 to 10 problems, the duration is between 5 and 120 minutes,
  the open step is one of the five sections, and "recently asked" needs a company.
\<close>

theorem wizard_consistent:
  assumes "reaches tab_step filterTabInit t"
  shows "rc_total (ft_wizard t) = rc_easy (ft_wizard t) + rc_medium (ft_wizard t) + rc_hard (ft_wizard t) \<and>
    0 \<le> rc_easy (ft_wizard t) \<and> 0 \<le> rc_medium (ft_wizard t) \<and> 0 \<le> rc_hard (ft_wizard t) \<and>
    requestedTotal (ft_wizard t) \<in> {1..10} \<and> rc_duration (ft_wizard t) \<in> {5..120} \<and> ft_step t < 5 \<and>
    (rc_selectedCompanies (ft_wizard t) \<noteq> [] \<or> \<not> rc_recentlyAsked (ft_wizard t))"
  using filter_tab.inv_reachable [OF assms] filter_tab.amount_reachable [OF assms]
  by (auto simp: tab_ok_def wizard_inv_def wizard_counters.counters_ok_def LAST_STEP_def SECTIONS_def)

theorem wizard_consistent_witness:
  "requestedTotal (ft_wizard (run tab_step [IncrementClicked Hard, DecrementClicked Easy, PrimaryClicked,
     CompaniesSelected [''google''], RecentlyChecked True, CompaniesSelected []] filterTabInit)) \<in> {1..10}"
proof -
  have "reaches tab_step filterTabInit (run tab_step [IncrementClicked Hard, DecrementClicked Easy, PrimaryClicked,
     CompaniesSelected [''google''], RecentlyChecked True, CompaniesSelected []] filterTabInit)"
    unfolding reaches_iff_run by blast
  from wizard_consistent [OF this] show ?thesis by blast
qed

text \<open>
  The round that is requested from the server asks for exactly the number of problems the wizard
  shows: the four counts of the request add up to it, in the mode that was chosen, with the chosen
  duration.
\<close>

theorem round_asks_for_requested:
  assumes "reaches tab_step filterTabInit t"
  shows "let ps = JObj (round_params (with_profanity b (room_settings (ft_wizard t)))) in
    js_add (js_add (opt_get ps ''numEasyProblems'') (opt_get ps ''numMediumProblems''))
      (js_add (opt_get ps ''numHardProblems'') (opt_get ps ''numAnyDifficultyProblems'')) =
      JNum (requestedTotal (ft_wizard t)) \<and>
    opt_get ps ''anyDifficulty'' = JBool (rc_anyDifficulty (ft_wizard t)) \<and>
    opt_get ps ''duration'' = JNum (rc_duration (ft_wizard t))"
proof -
  have "rc_duration (ft_wizard t) \<noteq> 0"
    using filter_tab.inv_reachable [OF assms] by (simp add: tab_ok_def wizard_inv_def)
  moreover have "js_or (JNum n) (JNum 0) = JNum n" "js_or (JBool c) (JBool False) = JBool c" for n c
    by (cases "n = 0"; simp) (cases c; simp)
  ultimately show ?thesis
    by (simp add: round_params_def with_profanity_def room_settings_def requestedTotal_def Let_def obj_lookup_put)
qed

theorem round_asks_for_requested_witness:
  "opt_get (JObj (round_params (with_profanity True (room_settings (ft_wizard
     (run tab_step [DurationMoved 11] filterTabInit)))))) ''duration'' = JNum 60"
proof -
  have "reaches tab_step filterTabInit (run tab_step [DurationMoved 11] filterTabInit)"
    unfolding reaches_iff_run by blast
  moreover have "rc_duration (ft_wizard (run tab_step [DurationMoved 11] filterTabInit)) = 60"
    by (simp add: on_wizard_def recently_effect_def filterTabInit_def wizardInit_def slider_value_def)
  ultimately show ?thesis
    using round_asks_for_requested [of "run tab_step [DurationMoved 11] filterTabInit" True] by (simp add: Let_def)
qed

text \<open>
  The number beside a topic is the number of its problems in the difficulties the round uses: the
  sum over the difficulties with a non-zero counter, and all of them when any difficulty will do.
\<close>

theorem topic_counts_follow_difficulties:
  assumes "distinct (map fst (rc_topicStats s))"
    and "map_of (rc_topicStats s) tag = Some \<lparr>ts_total = JNum t, ts_easy = JNum e, ts_medium = JNum m, ts_hard = JNum h\<rparr>"
    and "rc_easy s > 0 \<or> rc_medium s > 0 \<or> rc_hard s > 0"
  shows "map_of (topicCounts s) tag = Some (JNum (if rc_anyDifficulty s then t else active_sum s e m h))"
proof -
  have *: "map_of (topicCounts s) tag = Some (topic_count
      (if activeDifficulties s = [] then [] else split_on CHR '','' (activeDifficulties s))
      \<lparr>ts_total = JNum t, ts_easy = JNum e, ts_medium = JNum m, ts_hard = JNum h\<rparr>)"
    unfolding topicCounts_def Let_def map_of_map_entries [OF assms(1)] assms(2) by simp
  show ?thesis
  proof (cases "rc_anyDifficulty s")
    case True
    then show ?thesis unfolding * by (simp add: activeDifficulties_def topic_count_def)
  next
    case False
    from topic_count_active [OF this assms(3)] False show ?thesis unfolding * by simp
  qed
qed

theorem topic_counts_follow_difficulties_witness:
  "map_of (topicCounts (wizardInit\<lparr>rc_hard := 2, rc_topicStats :=
     [(''array'', \<lparr>ts_total = JNum 60, ts_easy = JNum 10, ts_medium = JNum 20, ts_hard = JNum 30\<rparr>)]\<rparr>)) ''array'' =
   Some (JNum 40)"
  using topic_counts_follow_difficulties [of "wizardInit\<lparr>rc_hard := 2, rc_topicStats :=
     [(''array'', \<lparr>ts_total = JNum 60, ts_easy = JNum 10, ts_medium = JNum 20, ts_hard = JNum 30\<rparr>)]\<rparr>" "''array''" 60 10 20 30]
  by (simp add: wizardInit_def active_sum_def)

text \<open>
  A submission always comes back: the form is no longer submitting, and it shows no error or a
  message with a visible character.
\<close>

theorem submission_comes_back:
  "\<exists>s'. fst (handleCreateRoom me b draws s w) = Inr s' \<and> \<not> rc_isSubmitting s' \<and>
    (case rc_formError s' of None \<Rightarrow> True | Some m \<Rightarrow> trim m \<noteq> [])"
proof -
  obtain r w' where r: "createRoom me (room_code draws) (with_profanity b (room_settings s)) w = (Inr r, w')"
    using createRoom_total by blast
  then have "answer_ok r"
    using yieldsD [OF answers_createRoom, of me "room_code draws" "with_profanity b (room_settings s)" w r] by simp
  with r show ?thesis
    by (cases r) (auto simp: handleCreateRoom_def bnd_def finish_create_def begin_create_def result_error_def answer_ok_def)
qed

end
