(* ===== verification/Form_Encoding.thy ===== *)
theory Form_Encoding
  imports BSG_Prelude
begin

text \<open>
  The query strings of the program: \<open>URLSearchParams.toString()\<close> on the sending side, which the wizard
  and the gateway use, and the parser of the URL standard as its reference inverse. The round trip
  shows that no filter value can be mistaken for another, whatever characters it holds.
\<close>

section \<open>Encoding\<close>

definition hex_upper :: "nat \<Rightarrow> char" where
  "hex_upper d = (if d < 10 then char_of (48 + d) else char_of (55 + d))"

definition percent :: "nat \<Rightarrow> string" where
  "percent b = [CHR ''%'', hex_upper (b div 16), hex_upper (b mod 16)]"

text \<open>
  The form encoding of \<open>URLSearchParams.toString\<close>: letters, digits and four marks as they are, a space
  as plus, the rest as percent-encoded UTF-8.
\<close>

definition form_char :: "char \<Rightarrow> string" where
  "form_char c =
     (let n = (of_char c :: nat) in
      if (48 \<le> n \<and> n \<le> 57) \<or> (65 \<le> n \<and> n \<le> 90) \<or> (97 \<le> n \<and> n \<le> 122) \<or> n = 42 \<or> n = 45 \<or> n = 46 \<or> n = 95
      then [c]
      else if n = 32 then ''+''
      else if n < 128 then percent n
      else percent (192 + n div 64) @ percent (128 + n mod 64))"

definition form_encode :: "string \<Rightarrow> string" where
  "form_encode s = concat (map form_char s)"

definition params_string :: "(string \<times> string) list \<Rightarrow> string" where
  "params_string ps = join ''&'' (map (\<lambda>kv. form_encode (fst kv) @ ''='' @ form_encode (snd kv)) ps)"

section \<open>Decoding\<close>

definition hex_upper_val :: "char \<Rightarrow> nat" where
  "hex_upper_val c = (if is_digit c then digit_val c else of_char c - 55)"

fun form_bytes :: "string \<Rightarrow> nat list" where
  "form_bytes [] = []"
| "form_bytes (c # cs) =
     (if c = CHR ''+'' then 32 # form_bytes cs
      else if c = CHR ''%'' then
        (case cs of a # b # r \<Rightarrow> (16 * hex_upper_val a + hex_upper_val b) # form_bytes r | _ \<Rightarrow> of_char c # form_bytes cs)
      else of_char c # form_bytes cs)"

fun utf8_decode :: "nat list \<Rightarrow> string" where
  "utf8_decode [] = []"
| "utf8_decode (n # ns) =
     (if n < 192 then char_of n # utf8_decode ns
      else (case ns of [] \<Rightarrow> [] | m # r \<Rightarrow> char_of ((n - 192) * 64 + (m - 128)) # utf8_decode r))"

definition form_decode :: "string \<Rightarrow> string" where
  "form_decode s = utf8_decode (form_bytes s)"

definition param_of :: "string \<Rightarrow> string \<times> string" where
  "param_of t = (form_decode (takeWhile (\<lambda>c. c \<noteq> CHR ''='') t), form_decode (tl (dropWhile (\<lambda>c. c \<noteq> CHR ''='') t)))"

definition params_parse :: "string \<Rightarrow> (string \<times> string) list" where
  "params_parse s = map param_of (filter (\<lambda>t. t \<noteq> []) (split_on CHR ''&'' s))"

section \<open>The round trip\<close>

definition utf8 :: "char \<Rightarrow> nat list" where
  "utf8 c = (let n = of_char c in if n < 128 then [n] else [192 + n div 64, 128 + n mod 64])"

lemma hex_upper_val: "d < 16 \<Longrightarrow> hex_upper_val (hex_upper d) = d"
  by (auto simp: hex_upper_val_def hex_upper_def is_digit_def digit_val_def Let_def)

lemma form_bytes_percent: "b < 256 \<Longrightarrow> form_bytes (percent b @ r) = b # form_bytes r"
proof -
  assume "b < 256"
  then have "b div 16 < 16" "b mod 16 < 16" by simp_all
  then show ?thesis by (simp add: percent_def hex_upper_val)
qed

lemma form_bytes_char: "form_bytes (form_char c @ r) = utf8 c @ form_bytes r"
proof -
  let ?n = "of_char c :: nat"
  have "192 + ?n div 64 < 256" "128 + ?n mod 64 < 256" using nat_of_char_less_256 [of c] by linarith+
  then show ?thesis
    by (auto simp: form_char_def utf8_def Let_def form_bytes_percent char_eq_code)
qed

lemma utf8_decode_char: "utf8_decode (utf8 c @ r) = c # utf8_decode r"
proof -
  let ?n = "of_char c :: nat"
  have "?n < 256" by simp
  then have "?n div 64 * 64 + ?n mod 64 = ?n" "192 \<le> 192 + ?n div 64" by simp_all
  then show ?thesis by (auto simp: utf8_def Let_def)
qed

lemma form_bytes_encode: "form_bytes (form_encode s) = concat (map utf8 s)"
  by (induction s) (simp_all add: form_encode_def form_bytes_char)

lemma utf8_decode_encode: "utf8_decode (concat (map utf8 s)) = s"
  by (induction s) (simp_all add: utf8_decode_char)

lemma form_decode_encode: "form_decode (form_encode s) = s"
  by (simp add: form_decode_def form_bytes_encode utf8_decode_encode)

lemma hex_upper_set: "d < 16 \<Longrightarrow> hex_upper d \<noteq> CHR ''&'' \<and> hex_upper d \<noteq> CHR ''=''"
  by (auto simp: hex_upper_def char_eq_code)

lemma form_char_set: "CHR ''&'' \<notin> set (form_char c)" "CHR ''='' \<notin> set (form_char c)"
proof -
  have h: "x < 256 \<Longrightarrow> CHR ''&'' \<notin> set (percent x) \<and> CHR ''='' \<notin> set (percent x)" for x
  proof -
    assume "x < 256"
    then have "x div 16 < 16" "x mod 16 < 16" by simp_all
    then show ?thesis using hex_upper_set [of "x div 16"] hex_upper_set [of "x mod 16"] by (auto simp: percent_def)
  qed
  have b: "192 + (of_char c :: nat) div 64 < 256" "128 + (of_char c :: nat) mod 64 < 256" "(of_char c :: nat) < 256"
    using nat_of_char_less_256 [of c] by linarith+
  show "CHR ''&'' \<notin> set (form_char c)" "CHR ''='' \<notin> set (form_char c)"
    using h [OF b(1)] h [OF b(2)] h [OF b(3)] by (auto simp: form_char_def Let_def char_eq_code)
qed

lemma form_encode_set: "CHR ''&'' \<notin> set (form_encode s)" "CHR ''='' \<notin> set (form_encode s)"
  using form_char_set by (auto simp: form_encode_def)

lemma form_encode_inj: "form_encode s = form_encode t \<longleftrightarrow> s = t"
  by (metis form_decode_encode)

lemma param_of_pair: "param_of (form_encode k @ ''='' @ form_encode v) = (k, v)"
proof -
  have "takeWhile (\<lambda>c. c \<noteq> CHR ''='') (form_encode k @ CHR ''='' # form_encode v) = form_encode k"
    "dropWhile (\<lambda>c. c \<noteq> CHR ''='') (form_encode k @ CHR ''='' # form_encode v) = CHR ''='' # form_encode v"
    using form_encode_set(2) [of k] by (subst takeWhile_append2 dropWhile_append2; auto)+
  then show ?thesis by (simp add: param_of_def form_decode_encode)
qed

theorem params_parse_string: "params_parse (params_string ps) = ps"
proof -
  let ?ts = "map (\<lambda>kv. form_encode (fst kv) @ ''='' @ form_encode (snd kv)) ps"
  show ?thesis
  proof (cases "ps = []")
    case True
    then show ?thesis by (simp add: params_parse_def params_string_def)
  next
    case False
    then have "split_on CHR ''&'' (params_string ps) = ?ts"
      unfolding params_string_def using form_encode_set(1) by (intro split_on_join) (auto simp: list_all_iff)
    moreover have "filter (\<lambda>t. t \<noteq> []) ?ts = ?ts" by (simp add: filter_True)
    moreover have "map param_of ?ts = ps"
      using param_of_pair by (simp add: comp_def)
    ultimately show ?thesis by (simp add: params_parse_def)
  qed
qed

end
