(* ===== verification/Problem_Count.thy ===== *)
theory Problem_Count
  imports Room_Choice Form_Encoding
begin

text \<open>
  The live count of the problems that match the filters (the effect of \<open>hooks/useRoomChoice.ts\<close> on
  the filter values): cache lookup, the 300 ms debounce, the request with its query string, and the
  abort of a superseded request. Every run of the effect is an entry of \<open>cv_runs\<close>; the events are a
  change of the filters, a timer going off and an answer arriving, in any order. An aborted request
  rejects with an \<open>AbortError\<close>, which the code ignores, so its answer is no event.
\<close>

section \<open>The query\<close>

definition count_params :: "problem_count_filters \<Rightarrow> (string \<times> string) list" where
  "count_params f =
     (if f_difficulties f \<noteq> [] then [(''difficulties'', f_difficulties f)] else []) @
     (if f_tags f \<noteq> [] then [(''tags'', join '','' (f_tags f))] else []) @
     (if f_companies f \<noteq> [] then [(''companies'', join '','' (f_companies f))] else []) @
     (if f_blind75 f then [(''blind75'', ''true'')] else []) @
     (if f_neetcode150 f then [(''neetcode150'', ''true'')] else []) @
     (if f_recentlyAsked f then [(''recentlyAsked'', ''true'')] else []) @
     (if f_excludePaid f then [(''excludePaid'', ''true'')] else [])"

definition count_path :: "problem_count_filters \<Rightarrow> string" where
  "count_path f = ''/problems/count?'' @ params_string (count_params f)"

section \<open>The machine\<close>

datatype run_status = Waiting | InFlight | Settled | Aborted

record count_run =
  cr_key :: string
  cr_filters :: problem_count_filters
  cr_status :: run_status

text \<open>\<open>cv_answers\<close> is a history variable: the counts that live requests were answered with.\<close>

record count_view =
  cv_available :: "int option"
  cv_loading :: bool
  cv_cache :: count_store
  cv_runs :: "count_run list"
  cv_current :: "nat option"
  cv_sent :: "string list"
  cv_answers :: "(string \<times> int) list"

definition countViewInit :: count_view where
  "countViewInit = \<lparr>cv_available = None, cv_loading = False, cv_cache = countStoreInit, cv_runs = [],
     cv_current = None, cv_sent = [], cv_answers = []\<rparr>"

definition set_status :: "nat \<Rightarrow> run_status \<Rightarrow> count_view \<Rightarrow> count_view" where
  "set_status i st v = v\<lparr>cv_runs := (cv_runs v)[i := (cv_runs v ! i)\<lparr>cr_status := st\<rparr>]\<rparr>"

definition status_is :: "nat \<Rightarrow> run_status \<Rightarrow> count_view \<Rightarrow> bool" where
  "status_is i st v \<longleftrightarrow> i < length (cv_runs v) \<and> cr_status (cv_runs v ! i) = st"

text \<open>The cleanup: \<open>clearTimeout(timeout); controller.abort()\<close>.\<close>

definition count_cleanup :: "count_view \<Rightarrow> count_view" where
  "count_cleanup v =
     (case cv_current v of
        None \<Rightarrow> v
      | Some i \<Rightarrow>
          (if status_is i Waiting v \<or> status_is i InFlight v then set_status i Aborted v else v)
            \<lparr>cv_current := None\<rparr>)"

definition count_effect :: "problem_count_filters \<Rightarrow> count_view \<Rightarrow> count_view" where
  "count_effect f v =
     (let v1 = count_cleanup v; cacheKey = buildProblemCountKey f in
      case getCount cacheKey (cv_cache v1) of
        Some cached \<Rightarrow> v1\<lparr>cv_available := Some cached, cv_loading := False\<rparr>
      | None \<Rightarrow> v1\<lparr>cv_loading := True,
          cv_runs := cv_runs v1 @ [\<lparr>cr_key = cacheKey, cr_filters = f, cr_status = Waiting\<rparr>],
          cv_current := Some (length (cv_runs v1))\<rparr>)"

definition count_timeout :: "nat \<Rightarrow> count_view \<Rightarrow> count_view" where
  "count_timeout i v =
     (if status_is i Waiting v
      then (set_status i InFlight v)\<lparr>cv_sent := cv_sent v @ [count_path (cr_filters (cv_runs v ! i))]\<rparr>
      else v)"

text \<open>What an answer yields: the count (\<open>typeof payload?.data === 'number'\<close>) or an error.\<close>

definition count_of_answer :: "http \<Rightarrow> jv + int option" where
  "count_of_answer ans =
     (case ans of
        NetError e \<Rightarrow> Inl e
      | Response st body \<Rightarrow>
          if \<not> res_ok (st, body) then Inl (fetch_failed ''Failed to fetch available count: '' (st, body))
          else (case body of
                  None \<Rightarrow> Inl syntax_error
                | Some payload \<Rightarrow> Inr (case opt_get payload ''data'' of JNum n \<Rightarrow> Some n | _ \<Rightarrow> None)))"

definition count_answer :: "nat \<Rightarrow> http \<Rightarrow> count_view \<Rightarrow> count_view" where
  "count_answer i ans v =
     (if \<not> status_is i InFlight v then v
      else
        (case count_of_answer ans of
           Inl e \<Rightarrow>
             if opt_get e ''name'' \<noteq> JStr ''AbortError''
             then (set_status i Settled v)\<lparr>cv_loading := False\<rparr> else v
         | Inr available \<Rightarrow>
             (let v1 = (set_status i Settled v)\<lparr>cv_available := available, cv_loading := False\<rparr> in
              case available of
                None \<Rightarrow> v1
              | Some n \<Rightarrow> v1\<lparr>cv_cache := setCount (cr_key (cv_runs v ! i)) n (cv_cache v1),
                    cv_answers := cv_answers v @ [(cr_key (cv_runs v ! i), n)]\<rparr>)))"

datatype count_event = FiltersChanged problem_count_filters | DebounceElapsed nat | CountAnswered nat http

fun count_step :: "count_event \<Rightarrow> count_view \<Rightarrow> count_view" where
  "count_step (FiltersChanged f) v = count_effect f v"
| "count_step (DebounceElapsed i) v = count_timeout i v"
| "count_step (CountAnswered i ans) v = count_answer i ans v"

section \<open>The invariant\<close>

text \<open>Only the current run is alive, it is loading exactly then, and the cache holds answers.\<close>

definition alive :: "nat \<Rightarrow> count_view \<Rightarrow> bool" where
  "alive i v \<longleftrightarrow> status_is i Waiting v \<or> status_is i InFlight v"

definition count_inv :: "count_view \<Rightarrow> bool" where
  "count_inv v \<longleftrightarrow>
     (\<forall>i. alive i v \<longrightarrow> cv_current v = Some i) \<and>
     (cv_loading v \<longleftrightarrow> (\<exists>i. cv_current v = Some i \<and> alive i v)) \<and>
     (\<forall>k n. getCount k (cv_cache v) = Some n \<longrightarrow> (k, n) \<in> set (cv_answers v))"

lemma count_inv_init: "count_inv countViewInit"
  by (simp add: count_inv_def countViewInit_def countStoreInit_def getCount_def alive_def status_is_def)

lemma status_set: "status_is j st' (set_status i st v) \<longleftrightarrow>
    j < length (cv_runs v) \<and> (if j = i then st' = st else cr_status (cv_runs v ! j) = st')"
  by (auto simp: status_is_def set_status_def nth_list_update)

lemma status_update [simp]:
  "status_is i st (v\<lparr>cv_loading := b\<rparr>) = status_is i st v" "status_is i st (v\<lparr>cv_available := a\<rparr>) = status_is i st v"
  "status_is i st (v\<lparr>cv_current := c\<rparr>) = status_is i st v" "status_is i st (v\<lparr>cv_sent := p\<rparr>) = status_is i st v"
  "status_is i st (v\<lparr>cv_cache := m\<rparr>) = status_is i st v" "status_is i st (v\<lparr>cv_answers := q\<rparr>) = status_is i st v"
  by (simp_all add: status_is_def)

lemma set_status_fields [simp]:
  "cv_loading (set_status i st v) = cv_loading v" "cv_available (set_status i st v) = cv_available v"
  "cv_current (set_status i st v) = cv_current v" "cv_cache (set_status i st v) = cv_cache v"
  "cv_answers (set_status i st v) = cv_answers v" "length (cv_runs (set_status i st v)) = length (cv_runs v)"
  "cv_sent (set_status i st v) = cv_sent v"
  by (simp_all add: set_status_def)

lemma count_invD:
  assumes "count_inv v"
  shows "alive i v \<Longrightarrow> cv_current v = Some i"
    and "cv_loading v \<longleftrightarrow> (\<exists>i. cv_current v = Some i \<and> alive i v)"
    and "getCount k (cv_cache v) = Some n \<Longrightarrow> (k, n) \<in> set (cv_answers v)"
  using assms unfolding count_inv_def by blast+

lemma ended_alive:
  "st = Settled \<or> st = Aborted \<Longrightarrow> alive j (set_status i st v) \<longleftrightarrow> j \<noteq> i \<and> alive j v"
  by (auto simp: alive_def status_set) (auto simp: status_is_def)

lemma alive_update [simp]:
  "alive i (v\<lparr>cv_loading := b\<rparr>) = alive i v" "alive i (v\<lparr>cv_available := a\<rparr>) = alive i v"
  "alive i (v\<lparr>cv_cache := m\<rparr>) = alive i v" "alive i (v\<lparr>cv_answers := q\<rparr>) = alive i v"
  "alive i (v\<lparr>cv_current := c\<rparr>) = alive i v"
  by (simp_all add: alive_def)

lemma count_cleanup_alive:
  "count_cleanup v =
     (case cv_current v of
        None \<Rightarrow> v
      | Some i \<Rightarrow> (if alive i v then set_status i Aborted v else v)\<lparr>cv_current := None\<rparr>)"
  by (simp add: count_cleanup_def alive_def split: option.split)

lemma cleanup_fields:
  "cv_current (count_cleanup v) = None" "cv_cache (count_cleanup v) = cv_cache v"
  "cv_answers (count_cleanup v) = cv_answers v" "cv_available (count_cleanup v) = cv_available v"
  by (cases "cv_current v"; simp add: count_cleanup_alive)+

lemma cleanup_dead: "count_inv v \<Longrightarrow> \<not> alive i (count_cleanup v)"
  using count_invD(1) [of v i] by (cases "cv_current v") (auto simp: count_cleanup_alive ended_alive)

lemmas cleanup_idle = cleanup_dead cleanup_fields

lemma status_append:
  "status_is j st (v\<lparr>cv_runs := cv_runs v @ [r]\<rparr>) \<longleftrightarrow> status_is j st v \<or> (j = length (cv_runs v) \<and> cr_status r = st)"
  by (auto simp: status_is_def nth_append)

lemma count_inv_effect: "count_inv v \<Longrightarrow> count_inv (count_effect f v)"
proof -
  assume inv: "count_inv v"
  note idle = cleanup_dead [OF inv] cleanup_fields [of v]
  let ?c = "count_cleanup v"
  show ?thesis
  proof (cases "getCount (buildProblemCountKey f) (cv_cache ?c)")
    case (Some n)
    with inv idle show ?thesis
      by (simp add: count_effect_def Let_def count_inv_def alive_def)
  next
    case None
    let ?r = "\<lparr>cr_key = buildProblemCountKey f, cr_filters = f, cr_status = Waiting\<rparr>"
    have "alive i (?c\<lparr>cv_loading := True, cv_runs := cv_runs ?c @ [?r], cv_current := Some (length (cv_runs ?c))\<rparr>)
        \<longleftrightarrow> i = length (cv_runs ?c)" for i
      using idle(1) [of i] status_append [of i _ "?c\<lparr>cv_loading := True\<rparr>" ?r] by (auto simp: alive_def)
    with None inv idle show ?thesis
      by (simp add: count_effect_def Let_def count_inv_def)
  qed
qed

lemma count_inv_timeout: "count_inv v \<Longrightarrow> count_inv (count_timeout i v)"
  by (auto simp: count_timeout_def count_inv_def alive_def status_set) (auto simp: status_is_def)

lemma count_inv_answer: "count_inv v \<Longrightarrow> count_inv (count_answer i ans v)"
proof (cases "status_is i InFlight v")
  case False
  then show "count_inv v \<Longrightarrow> ?thesis" by (simp add: count_answer_def)
next
  case True
  assume inv: "count_inv v"
  have cur: "cv_current v = Some i" using True by (intro count_invD(1) [OF inv]) (simp add: alive_def)
  have idle: "\<not> alive j (set_status i Settled v)" for j
    using inv cur by (auto simp: ended_alive dest: count_invD(1))
  show ?thesis
  proof (cases "count_of_answer ans")
    case (Inl e)
    with True inv idle show ?thesis by (auto simp: count_answer_def count_inv_def)
  next
    case (Inr c)
    with True inv idle show ?thesis
      by (cases c) (auto simp: count_answer_def count_inv_def getCount_def setCount_def split: if_splits)
  qed
qed

lemma count_inv_step: "count_inv v \<Longrightarrow> count_inv (count_step e v)"
  by (cases e) (simp_all add: count_inv_effect count_inv_timeout count_inv_answer)

interpretation counting: machine countViewInit count_step count_inv
  by unfold_locales (rule count_inv_init, rule count_inv_step)

section \<open>Properties\<close>

text \<open>
  The wizard says it is loading exactly while a request for the filters of the last change is
  waiting or on its way, and every count in the cache is one that the server gave for that
  combination of filters.
\<close>

theorem loading_is_exact:
  assumes "reaches count_step countViewInit v"
  shows "(cv_loading v \<longleftrightarrow> (\<exists>i. cv_current v = Some i \<and> (status_is i Waiting v \<or> status_is i InFlight v))) \<and>
    (getCount k (cv_cache v) = None \<or> (k, the (getCount k (cv_cache v))) \<in> set (cv_answers v))"
proof -
  note inv = counting.inv_reachable [OF assms]
  from count_invD(2) [OF inv] count_invD(3) [OF inv, of k] show ?thesis
    by (cases "getCount k (cv_cache v)") (simp_all add: alive_def)
qed

definition easy_only :: problem_count_filters where
  "easy_only = \<lparr>f_difficulties = ''easy'', f_tags = [], f_companies = [], f_blind75 = False,
     f_neetcode150 = False, f_recentlyAsked = False, f_excludePaid = True\<rparr>"

theorem loading_is_exact_witness:
  "cv_loading (run count_step [FiltersChanged easy_only, DebounceElapsed 0] countViewInit)"
proof -
  let ?v = "run count_step [FiltersChanged easy_only, DebounceElapsed 0] countViewInit"
  have "reaches count_step countViewInit ?v" unfolding reaches_iff_run by blast
  moreover have "cv_current ?v = Some 0 \<and> status_is 0 InFlight ?v"
    by (simp add: count_effect_def count_cleanup_def countViewInit_def countStoreInit_def getCount_def Let_def
        count_timeout_def status_is_def set_status_def)
  ultimately show ?thesis using loading_is_exact [of ?v "[]"] by blast
qed

text \<open>
  An answer to a superseded request changes nothing: neither the shown count, nor the loading
  state, nor the cache.
\<close>

theorem superseded_answer_ignored:
  assumes "reaches count_step countViewInit v" "cv_current v \<noteq> Some i"
  shows "count_step (CountAnswered i ans) v = v"
  using count_invD(1) [OF counting.inv_reachable [OF assms(1)], of i] assms(2)
  by (auto simp add: count_answer_def alive_def)

theorem superseded_answer_ignored_witness:
  "count_step (CountAnswered 0 (Response 200 (Some (JObj [(''data'', JNum 5)]))))
     (run count_step [FiltersChanged easy_only, DebounceElapsed 0, FiltersChanged (easy_only\<lparr>f_blind75 := True\<rparr>)] countViewInit) =
   run count_step [FiltersChanged easy_only, DebounceElapsed 0, FiltersChanged (easy_only\<lparr>f_blind75 := True\<rparr>)] countViewInit"
proof (rule superseded_answer_ignored)
  let ?v = "run count_step [FiltersChanged easy_only, DebounceElapsed 0, FiltersChanged (easy_only\<lparr>f_blind75 := True\<rparr>)] countViewInit"
  show "reaches count_step countViewInit ?v" unfolding reaches_iff_run by blast
  show "cv_current ?v \<noteq> Some 0"
    by (simp add: count_effect_def count_cleanup_def countViewInit_def countStoreInit_def getCount_def Let_def
        count_timeout_def status_is_def set_status_def)
qed

text \<open>
  Going back to a combination of filters that was answered before shows its count at once and
  sends no request.
\<close>

theorem cached_count_shown:
  assumes "getCount (buildProblemCountKey f) (cv_cache v) = Some n"
  shows "cv_available (count_effect f v) = Some n \<and> \<not> cv_loading (count_effect f v) \<and>
    cv_current (count_effect f v) = None \<and> cv_sent (count_effect f v) = cv_sent v"
  using assms by (auto simp: count_effect_def Let_def count_cleanup_def split: option.split)

theorem cached_count_shown_witness:
  "cv_available (count_effect easy_only
     (countViewInit\<lparr>cv_cache := setCount (buildProblemCountKey easy_only) 9 countStoreInit\<rparr>)) = Some 9"
  using cached_count_shown [of easy_only "countViewInit\<lparr>cv_cache := setCount (buildProblemCountKey easy_only) 9 countStoreInit\<rparr>" 9]
  by (simp add: getCount_def setCount_def)

end
