(* ===== verification/Problem_Picker.thy ===== *)
theory Problem_Picker
  imports Room_Choice
begin

text \<open>
  Picking problems by hand (\<open>hooks/useProblemPicker.ts\<close> and \<open>choose-problems-tab.tsx\<close>): the loader of
  the catalogue, the selection with its cap of ten, and the submission of the ids.
\<close>

definition MAX_CHOSEN_PROBLEMS :: nat where
  "MAX_CHOSEN_PROBLEMS = 10"

record picker =
  pk_problems :: "jv list"
  pk_isLoading :: bool
  pk_selected :: "string list"
  pk_duration :: int
  pk_formError :: "string option"
  pk_isSubmitting :: bool

definition pickerInit :: picker where
  "pickerInit = \<lparr>pk_problems = [], pk_isLoading = True, pk_selected = [], pk_duration = 30,
     pk_formError = None, pk_isSubmitting = False\<rparr>"

section \<open>Loading the catalogue\<close>

text \<open>\<open>None\<close>: the component went away and the request was aborted, nothing is set.\<close>

definition problems_response :: "nat \<times> jv option \<Rightarrow> (world, jv list option) js" where
  "problems_response res =
     (if \<not> res_ok res then throw (fetch_failed ''Failed to fetch problems: '' res)
      else bnd (res_json res) (\<lambda>payload.
        ret (Some (case js_or (opt_get payload ''data'') (JArr []) of JArr vs \<Rightarrow> vs | _ \<Rightarrow> []))))"

definition problems_failed :: "jv \<Rightarrow> (world, jv list option) js" where
  "problems_failed e = (if opt_get e ''name'' = JStr ''AbortError'' then ret None else ret (Some []))"

function loadProblems :: "nat \<Rightarrow> (world, jv list option) js" where
  "loadProblems attempt = catch
     (bnd (http_get ''/problems/list'') (\<lambda>res.
        if res_status res = 429 \<and> attempt < 3 then
          seqm (emit (Sleep (1000 * 2 ^ attempt))) (loadProblems (attempt + 1))
        else problems_response res))
     problems_failed"
  by pat_completeness auto
termination by (relation "measure (\<lambda>attempt. 3 - attempt)") auto

declare loadProblems.simps [simp del]

definition set_problems :: "jv list option \<Rightarrow> picker \<Rightarrow> picker" where
  "set_problems r s = (case r of None \<Rightarrow> s | Some ps \<Rightarrow> s\<lparr>pk_problems := ps, pk_isLoading := False\<rparr>)"

interpretation catalogue: retrying loadProblems "''/problems/list''" problems_response problems_failed
proof
  show "loadProblems k = catch (bnd (http_get ''/problems/list'') (\<lambda>res.
       if res_status res = 429 \<and> k < 3 then seqm (emit (Sleep (1000 * 2 ^ k))) (loadProblems (k + 1))
       else problems_response res)) problems_failed" for k
    by (rule loadProblems.simps)
  show "\<exists>x w'. problems_failed e w = (Inr x, w')" for e and w :: world
    by (auto simp: problems_failed_def)
qed

section \<open>Selecting\<close>

definition problemNames :: "picker \<Rightarrow> jv list" where
  "problemNames s = map (\<lambda>p. opt_get p ''name'') (pk_problems s)"

text \<open>\<open>new Map(...)\<close>: the last entry of a repeated name counts.\<close>

definition idsByName :: "picker \<Rightarrow> jv \<rightharpoonup> jv" where
  "idsByName s = map_of (rev (map (\<lambda>p. (opt_get p ''name'', opt_get p ''id'')) (pk_problems s)))"

definition selectProblems :: "string list \<Rightarrow> picker \<Rightarrow> picker" where
  "selectProblems names s = s\<lparr>pk_selected := take MAX_CHOSEN_PROBLEMS names\<rparr>"

definition problemIds :: "picker \<Rightarrow> jv list" where
  "problemIds s = filter is_num
     (map (\<lambda>n. case idsByName s (JStr n) of None \<Rightarrow> JUndef | Some i \<Rightarrow> i) (pk_selected s))"

definition picker_settings :: "picker \<Rightarrow> (string \<times> jv) list" where
  "picker_settings s = [(''duration'', JNum (pk_duration s)), (''problemIds'', JArr (problemIds s))]"

definition begin_pick :: "picker \<Rightarrow> picker" where
  "begin_pick s =
     (if problemIds s = [] then s\<lparr>pk_formError := None\<rparr> else s\<lparr>pk_formError := None, pk_isSubmitting := True\<rparr>)"

definition finish_pick :: "action_result \<Rightarrow> picker \<Rightarrow> picker" where
  "finish_pick r s = s\<lparr>pk_formError := result_error r (pk_formError s), pk_isSubmitting := False\<rparr>"

definition handlePickedRoom :: "user_store \<Rightarrow> bool \<Rightarrow> nat list \<Rightarrow> picker \<Rightarrow> (world, picker) js" where
  "handlePickedRoom me profanityFilter draws s =
     (if problemIds s = [] then ret (begin_pick s)
      else bnd (createRoom me (room_code draws) (with_profanity profanityFilter (picker_settings s)))
             (\<lambda>r. ret (finish_pick r (begin_pick s))))"

definition resetSelection :: "picker \<Rightarrow> picker" where
  "resetSelection s = s\<lparr>pk_selected := [], pk_duration := 30, pk_formError := None\<rparr>"

section \<open>The tab\<close>

definition atLimit :: "picker \<Rightarrow> bool" where
  "atLimit s \<longleftrightarrow> MAX_CHOSEN_PROBLEMS \<le> length (pk_selected s)"

definition pick_placeholder :: "picker \<Rightarrow> string" where
  "pick_placeholder s =
     (if pk_isLoading s then ''Loading problems...''
      else if pk_selected s \<noteq> [] then [] else ''e.g. Two Sum, Valid Parentheses...'')"

definition pick_disabled :: "picker \<Rightarrow> bool" where
  "pick_disabled s \<longleftrightarrow> pk_isSubmitting s \<or> pk_selected s = []"

datatype pick_event =
    CatalogueLoaded "jv list option"
  | NamesSelected "string list"
  | PickDurationMoved nat
  | PickClicked
  | PickFinished action_result
  | PickReset
  | PickErrorDismissed

fun pick_step :: "pick_event \<Rightarrow> picker \<Rightarrow> picker" where
  "pick_step (CatalogueLoaded r) s = set_problems r s"
| "pick_step (NamesSelected ns) s = selectProblems ns s"
| "pick_step (PickDurationMoved k) s = s\<lparr>pk_duration := slider_value k\<rparr>"
| "pick_step PickClicked s = begin_pick s"
| "pick_step (PickFinished r) s = finish_pick r s"
| "pick_step PickReset s = resetSelection s"
| "pick_step PickErrorDismissed s = s\<lparr>pk_formError := None\<rparr>"

definition pick_inv :: "picker \<Rightarrow> bool" where
  "pick_inv s \<longleftrightarrow> length (pk_selected s) \<le> MAX_CHOSEN_PROBLEMS \<and> 5 \<le> pk_duration s \<and> pk_duration s \<le> 120"

lemma pick_inv_step: "pick_inv s \<Longrightarrow> pick_inv (pick_step e s)"
  by (cases e) (auto simp: pick_inv_def set_problems_def selectProblems_def begin_pick_def finish_pick_def
      resetSelection_def slider_value_def split: option.split)

interpretation picking: bounded_machine pickerInit pick_step pick_inv "\<lambda>s. int (length (pk_selected s))" 0 10
  by unfold_locales (simp add: pick_inv_def pickerInit_def, rule pick_inv_step, assumption,
      auto simp: pick_inv_def MAX_CHOSEN_PROBLEMS_def)

section \<open>Properties\<close>

text \<open>
  The hand-picked request respects the server's limits: in every reachable state it names at most
  ten problems, every id is a number, and each is the id the catalogue has for a selected name.
\<close>

theorem picked_ids_ok:
  assumes "reaches pick_step pickerInit s"
  shows "length (problemIds s) \<le> 10 \<and>
    (v \<notin> set (problemIds s) \<or> is_num v \<and> (\<exists>n \<in> set (pk_selected s). idsByName s (JStr n) = Some v))"
proof
  have "length (pk_selected s) \<le> 10" using picking.amount_reachable [OF assms] by simp
  then show "length (problemIds s) \<le> 10"
    unfolding problemIds_def by (metis (no_types) le_trans length_filter_le length_map)
  show "v \<notin> set (problemIds s) \<or> is_num v \<and> (\<exists>n \<in> set (pk_selected s). idsByName s (JStr n) = Some v)"
    by (fastforce simp: problemIds_def split: option.splits)
qed

theorem picked_ids_ok_witness:
  "length (problemIds (run pick_step
     [CatalogueLoaded (Some [JObj [(''id'', JNum 1), (''name'', JStr ''Two Sum'')]]),
      NamesSelected (replicate 12 ''Two Sum'')] pickerInit)) \<le> 10"
proof -
  have "reaches pick_step pickerInit (run pick_step
     [CatalogueLoaded (Some [JObj [(''id'', JNum 1), (''name'', JStr ''Two Sum'')]]),
      NamesSelected (replicate 12 ''Two Sum'')] pickerInit)"
    unfolding reaches_iff_run by blast
  from picked_ids_ok [OF this] show ?thesis by blast
qed

text \<open>
  The loader of the catalogue ends after at most four requests with waits of one, two and four
  seconds; unless the request was aborted the picker then leaves its loading state.
\<close>

theorem catalogue_loads:
  "(\<exists>n \<le> 3. loadProblems 0 w =
     catalogue.outcome (w_server w (w_trace w @ backoff_log (get_request w ''/problems/list'') n)
         (get_request w ''/problems/list''))
       (add_log (backoff_log (get_request w ''/problems/list'') n @ [Fetch (get_request w ''/problems/list'')]) w)) \<and>
   (\<exists>r. fst (loadProblems 0 w) = Inr r \<and> (r = None \<or> \<not> pk_isLoading (set_problems r s)))"
proof
  show "\<exists>n \<le> 3. loadProblems 0 w =
     catalogue.outcome (w_server w (w_trace w @ backoff_log (get_request w ''/problems/list'') n)
         (get_request w ''/problems/list''))
       (add_log (backoff_log (get_request w ''/problems/list'') n @ [Fetch (get_request w ''/problems/list'')]) w)"
    by (rule catalogue.attempts_bounded)
  obtain r w' where "loadProblems 0 w = (Inr r, w')" using catalogue.attempt_total by blast
  then show "\<exists>r. fst (loadProblems 0 w) = Inr r \<and> (r = None \<or> \<not> pk_isLoading (set_problems r s))"
    by (cases r) (auto simp: set_problems_def)
qed

end
