(* ===== verification/Session.thy ===== *)
theory Session
  imports Room_Init
begin

text \<open>
  The session of the panel: finding the server (\<open>lib/config.ts\<close>), logging in and out
  (\<open>hooks/useLogin.ts\<close>), restoring the session on load (\<open>hooks/useSessionInit.ts\<close>), the GitHub
  connection (\<open>hooks/useGitHubConnection.ts\<close>), the join form (\<open>hooks/useJoinRoom.ts\<close>) and the
  persisted settings (\<open>stores/useSettingsStore.ts\<close>). The worker's answers to messages and the state of
  a popup window at each poll are arguments.
\<close>

section \<open>Configuration\<close>

definition PRODUCTION_SERVER_URL :: string where
  "PRODUCTION_SERVER_URL = ''https://api.binarysearchgang.com''"

definition PRODUCTION_RTC_URL :: string where
  "PRODUCTION_RTC_URL = ''wss://api.binarysearchgang.com/ws''"

definition LOCAL_SERVER_URLS :: "string list" where
  "LOCAL_SERVER_URLS = [''http://localhost:3600'', ''http://localhost:3000'']"

text \<open>The initial values, from the build's environment variables.\<close>

definition default_urls :: "jv \<Rightarrow> jv \<Rightarrow> world \<Rightarrow> world" where
  "default_urls envServer envRtc w =
     w\<lparr>w_serverUrl := to_str (js_or envServer (JStr PRODUCTION_SERVER_URL)),
       w_rtcUrl := to_str (js_or envRtc (JStr PRODUCTION_RTC_URL))\<rparr>"

definition set_urls :: "(string \<Rightarrow> string) \<Rightarrow> (string \<Rightarrow> string) \<Rightarrow> (world, unit) js" where
  "set_urls f g = modify (\<lambda>w. w\<lparr>w_serverUrl := f (w_serverUrl w), w_rtcUrl := g (w_rtcUrl w)\<rparr>)"

definition health_request :: "string \<Rightarrow> request" where
  "health_request serverUrl = \<lparr>rq_method = ''GET'', rq_url = serverUrl @ ''/health'', rq_body = None,
     rq_credentials = False\<rparr>"

fun detectLocal :: "string list \<Rightarrow> (world, string option) js" where
  "detectLocal [] = ret None"
| "detectLocal (serverUrl # rest) =
     bnd (catch (bnd (fetch_req (health_request serverUrl)) (\<lambda>response. ret (res_ok response))) (\<lambda>e. ret False))
       (\<lambda>ok. if ok then ret (Some serverUrl) else detectLocal rest)"

definition detectLocalServerUrl :: "(world, string option) js" where
  "detectLocalServerUrl = detectLocal LOCAL_SERVER_URLS"

definition config_load :: "(world, unit) js" where
  "config_load = in_chrome
     (bnd (storage_get ''configServerUrl'') (\<lambda>serverUrl.
      bnd (storage_get ''configRtcServiceUrl'') (\<lambda>rtcUrl.
      seqm (when_do (truthy serverUrl) (set_urls (\<lambda>_. to_str serverUrl) id))
      (seqm (when_do (truthy rtcUrl) (set_urls id (\<lambda>_. to_str rtcUrl)))
      (bnd detectLocalServerUrl (\<lambda>local.
        case local of
          None \<Rightarrow> ret ()
        | Some url \<Rightarrow>
            seqm (set_urls (\<lambda>_. url) (\<lambda>_. ''ws://localhost:5001/ws''))
              (storage_set [(''configServerUrl'', JStr url), (''configRtcServiceUrl'', JStr ''ws://localhost:5001/ws'')])))))))"

definition config_listener :: "jv \<Rightarrow> string \<Rightarrow> (world, unit) js" where
  "config_listener changes namespace =
     (let c1 = opt_get changes ''configServerUrl''; c2 = opt_get changes ''configRtcServiceUrl'' in
      when_do (namespace = ''local'')
        (seqm (when_do (truthy c1) (set_urls (\<lambda>_. to_str (opt_get c1 ''newValue'')) id))
              (when_do (truthy c2) (set_urls id (\<lambda>_. to_str (opt_get c2 ''newValue''))))))"

definition getServerUrl :: "world \<Rightarrow> string" where "getServerUrl w = w_serverUrl w"
definition getRtcUrl :: "world \<Rightarrow> string" where "getRtcUrl w = w_rtcUrl w"

section \<open>Logging in and out\<close>

datatype poll = Done jv | PollAgain | PollStop

definition auth_user_path :: string where
  "auth_user_path = ''/auth/user''"

text \<open>One \<open>checkAuth\<close>; \<open>popup_open\<close> is \<open>popup && !popup.closed\<close> at that moment.\<close>

definition checkAuth :: "bool \<Rightarrow> (world, poll) js" where
  "checkAuth popup_open =
     bnd (http_get auth_user_path) (\<lambda>response.
       if res_ok response then
         bnd (res_json response) (\<lambda>userObject.
         bnd (lift (get userObject ''id'')) (\<lambda>uid.
         seqm (on_user (loginUser uid (opt_get userObject ''name'') (opt_get userObject ''email'')
                 (opt_get userObject ''photo'')))
         (seqm (in_chrome (storage_set [(''user'', userObject)]))
         (bnd (pushRoute ''/start-page'') (\<lambda>_. ret (Done userObject))))))
       else if popup_open then ret PollAgain
       else ret PollStop)"

text \<open>The polls of one login, as long as the popup stays as the list says.\<close>

fun poll_auth :: "bool list \<Rightarrow> (world, poll) js" where
  "poll_auth [] = ret PollAgain"
| "poll_auth (popup_open # rest) =
     bnd (checkAuth popup_open) (\<lambda>r.
       if r = PollAgain then seqm (emit (StartTimer ''checkAuth'' 1000)) (poll_auth rest) else ret r)"

definition login :: "string \<Rightarrow> bool list \<Rightarrow> (world, poll) js" where
  "login provider popup_open =
     bnd (asks w_serverUrl) (\<lambda>base.
     seqm (emit (WindowOpen (base @ ''/auth/'' @ provider)))
     (seqm (emit (StartTimer ''checkAuth'' 5000))
     (poll_auth popup_open)))"

definition finishLogout :: "(world, unit) js" where
  "finishLogout =
     catch (seqm (on_user resetUser) (seqm (on_room resetRoom)
              (bnd (pushRoute ''/login-page'') (\<lambda>_. ret ()))))
       (\<lambda>e. ret ())"

definition leave_for_logout :: "(world, unit) js" where
  "leave_for_logout =
     bnd (asks (\<lambda>w. roomId (w_room w))) (\<lambda>rid.
       when_do (truthy rid)
         (catch (bnd (http_post (room_path (to_str rid) ''/leave'') None) (\<lambda>_. ret ())) (\<lambda>e. ret ())))"

text \<open>\<open>response\<close> is what the worker answers to the logout message.\<close>

definition logout :: "jv \<Rightarrow> (world, unit) js" where
  "logout response =
     seqm leave_for_logout
     (bnd (asks w_chrome) (\<lambda>inside.
       if inside then
         seqm (emit (SendMessage (JObj [(''type'', JStr ''LOGOUT'')])))
           (when_do (truthy response \<and> truthy (opt_get response ''success'')) finishLogout)
       else finishLogout))"

text \<open>The form fields that \<open>handleChange\<close> keeps.\<close>

definition credentials_change :: "string \<Rightarrow> jv \<Rightarrow> (string \<times> jv) list \<Rightarrow> (string \<times> jv) list" where
  "credentials_change name v credentials = obj_put name v credentials"

section \<open>Restoring the session\<close>

record session_hook =
  sh_sessionReady :: bool
  sh_hasRun :: bool

definition sessionHookInit :: session_hook where
  "sessionHookInit = \<lparr>sh_sessionReady = False, sh_hasRun = False\<rparr>"

definition to_login :: "(world, unit) js" where
  "to_login = bnd (pushRoute ''/login-page'') (\<lambda>_. ret ())"

text \<open>\<open>auth\<close>: the worker's answer to \<open>CHECK_AUTH\<close>, or the rejection of the message.\<close>

definition initSession :: "user_store \<Rightarrow> jv + jv \<Rightarrow> (world, unit) js" where
  "initSession me auth = catch
     (bnd (storage_get ''user'') (\<lambda>cachedUser.
        if \<not> truthy (opt_get cachedUser ''id'') then to_login
        else
          seqm (emit (SendMessage (JObj [(''type'', JStr ''CHECK_AUTH'')])))
          (bnd (lift auth) (\<lambda>response.
            if \<not> truthy (opt_get response ''success'') then to_login
            else
              (let user = opt_get response ''user'' in
               bnd (lift (get user ''id'')) (\<lambda>uid.
               seqm (on_user (loginUser uid (opt_get user ''name'') (opt_get user ''email'') (opt_get user ''photo'')))
               (bnd (checkActiveRoom me 0) (\<lambda>enteredRoom.
                  if \<not> enteredRoom then bnd (pushRoute ''/start-page'') (\<lambda>_. ret ()) else ret ()))))))))
     (\<lambda>error. ret ())"

text \<open>The effect: the new state of the hook.\<close>

definition session_effect :: "bool \<Rightarrow> user_store \<Rightarrow> jv + jv \<Rightarrow> session_hook \<Rightarrow> (world, session_hook) js" where
  "session_effect enabled me auth h =
     (if \<not> enabled \<or> sh_hasRun h then ret h
      else
        bnd (asks w_chrome) (\<lambda>inside.
          if \<not> inside then ret (h\<lparr>sh_hasRun := True, sh_sessionReady := True\<rparr>)
          else bnd (initSession me auth) (\<lambda>_. ret (h\<lparr>sh_hasRun := True, sh_sessionReady := True\<rparr>))))"

section \<open>The GitHub connection\<close>

definition no_connection :: jv where
  "no_connection = JObj [(''connected'', JBool False), (''username'', JNull)]"

text \<open>The connection that \<open>refresh\<close> sets and returns, if it does.\<close>

definition refresh_connection :: "(world, jv option) js" where
  "refresh_connection = catch
     (bnd (http_get ''/auth/github/connect/status'') (\<lambda>res.
        if \<not> res_ok res then ret None
        else bnd (res_json res) (\<lambda>data. ret (Some data))))
     (\<lambda>err. ret None)"

definition set_connection :: "jv option \<Rightarrow> jv \<Rightarrow> jv" where
  "set_connection r connection = (case r of None \<Rightarrow> connection | Some data \<Rightarrow> data)"

definition connection_effect :: "bool \<Rightarrow> jv \<Rightarrow> (world, jv) js" where
  "connection_effect loggedIn connection =
     (if \<not> loggedIn then ret no_connection
      else bnd refresh_connection (\<lambda>r. ret (set_connection r connection)))"

text \<open>The checks after the consent tab was opened; the list says at each of them whether the tab is
  closed. The flag returned says whether another check is scheduled.\<close>

fun check_connection :: "bool list \<Rightarrow> jv \<Rightarrow> (world, jv \<times> bool) js" where
  "check_connection [] connection = ret (connection, True)"
| "check_connection (closed # rest) connection =
     bnd refresh_connection (\<lambda>r.
       let connection' = set_connection r connection in
       if (case r of None \<Rightarrow> False | Some data \<Rightarrow> truthy (opt_get data ''connected'')) then ret (connection', False)
       else if closed then bnd refresh_connection (\<lambda>r'. ret (set_connection r' connection', False))
       else seqm (emit (StartTimer ''checkConnection'' 1000)) (check_connection rest connection'))"

definition connect :: "bool \<Rightarrow> bool list \<Rightarrow> jv \<Rightarrow> (world, jv \<times> bool) js" where
  "connect popup closed connection =
     bnd (asks w_serverUrl) (\<lambda>base.
     seqm (emit (WindowOpen (base @ ''/auth/github/connect'')))
     (if \<not> popup then ret (connection, False)
      else seqm (emit (StartTimer ''checkConnection'' 1000)) (check_connection closed connection)))"

section \<open>The join form\<close>

record join_form =
  jf_joinCode :: string
  jf_formError :: "string option"
  jf_isSubmitting :: bool

definition joinFormInit :: join_form where
  "joinFormInit = \<lparr>jf_joinCode = [], jf_formError = None, jf_isSubmitting = False\<rparr>"

definition setJoinCode :: "string \<Rightarrow> join_form \<Rightarrow> join_form" where
  "setJoinCode c f = f\<lparr>jf_joinCode := c\<rparr>"

definition finish_join :: "action_result \<Rightarrow> join_form \<Rightarrow> join_form" where
  "finish_join r f = f\<lparr>jf_formError := (case r of Success \<Rightarrow> jf_formError f | Failure m \<Rightarrow> Some m),
     jf_isSubmitting := False\<rparr>"

definition handleJoinRoom :: "user_store \<Rightarrow> join_form \<Rightarrow> (world, join_form) js" where
  "handleJoinRoom me f =
     (let f1 = f\<lparr>jf_formError := None\<rparr>; code = trim (jf_joinCode f) in
      if code = [] then ret f1
      else bnd (joinRoom me code) (\<lambda>r. ret (finish_join r (f1\<lparr>jf_isSubmitting := True\<rparr>))))"

section \<open>Persisted settings\<close>

definition on_settings :: "(settings_store \<Rightarrow> settings_store) \<Rightarrow> (world, unit) js" where
  "on_settings f = modify (\<lambda>w. w\<lparr>w_settings := f (w_settings w)\<rparr>)"

definition setChatNotificationsEnabled :: "bool \<Rightarrow> (world, unit) js" where
  "setChatNotificationsEnabled enabled =
     seqm (on_settings (\<lambda>s. s\<lparr>chatNotificationsEnabled := enabled\<rparr>))
       (in_chrome (storage_set [(''chatNotificationsEnabled'', JBool enabled)]))"

definition setThemePreference :: "theme_preference \<Rightarrow> (world, unit) js" where
  "setThemePreference pref =
     seqm (on_settings (\<lambda>s. s\<lparr>themePreference := pref\<rparr>))
       (in_chrome (storage_set [(''themePreference'', JStr (theme_str pref))]))"

definition loadSettings :: "(world, unit) js" where
  "loadSettings = in_chrome
     (bnd (storage_get ''chatNotificationsEnabled'') (\<lambda>chat.
      bnd (storage_get ''themePreference'') (\<lambda>theme.
        on_settings (apply_stored_settings chat theme))))"

section \<open>Lemmas\<close>

lemma initSession_total: "fst (initSession me auth w) = Inr ()"
  by (simp add: initSession_def catch_def split: prod.split sum.split)

lemma user_pushRoute [frame_intro]: "preserves w_user (pushRoute r)"
  by (simp add: preserves_def pushRoute_act)

lemma user_frame [frame_intro]:
  "preserves w_user (emit e)" "preserves w_user (on_room f)" "preserves w_user (storage_set kvs)"
  "preserves w_user (storage_remove k)" "preserves w_user (fetch_req q)"
  by (simp_all add: preserves_def fetch_req_def Let_def split: http.split)

lemma user_http [frame_intro]: "preserves w_user (http_get p)" "preserves w_user (http_post p b)"
  unfolding http_get_def http_post_def by (intro frame_intro)+

lemma preserves_lift_case_option [frame_intro]:
  "preserves f n \<Longrightarrow> (\<And>x. preserves f (k x)) \<Longrightarrow> preserves f (case v of None \<Rightarrow> n | Some x \<Rightarrow> k x)"
  by (cases v) auto

lemma w_user_setRoomParticipants [frame_intro]: "preserves w_user (setRoomParticipants me rid)"
  unfolding setRoomParticipants_def load_participants_def by (intro frame_intro)

lemma w_user_restore_round [frame_intro]: "preserves w_user (restore_round rounds)"
  unfolding restore_round_def Let_def by (intro frame_intro)

lemma w_user_active_room_response [frame_intro]: "preserves w_user (active_room_response me res)"
  unfolding active_room_response_def enter_active_room_def Let_def by (intro frame_intro)

lemma w_user_checkActiveRoom [frame_intro]: "preserves w_user (checkActiveRoom me k)"
proof (induction "3 - k" arbitrary: k)
  case 0
  then show ?case by (subst checkActiveRoom.simps) (auto intro!: frame_intro)
next
  case (Suc n)
  then have "preserves w_user (checkActiveRoom me (k + 1))" by simp
  then show ?case by (subst checkActiveRoom.simps) (intro frame_intro)
qed

lemma room_pushRoute [frame_intro]: "preserves w_room (pushRoute r)" "preserves w_local (pushRoute r)"
  by (simp_all add: preserves_def pushRoute_act)

lemma preserves_room_on_user [frame_intro]: "preserves w_room (on_user f)"
  by (simp add: preserves_def)

text \<open>Unless the worker confirms the session of a cached user, the panel only goes to the login page.\<close>

definition confirmed :: "jv + jv \<Rightarrow> world \<Rightarrow> bool" where
  "confirmed auth w \<longleftrightarrow> truthy (opt_get (local_get w ''user'') ''id'') \<and>
     (\<exists>response. auth = Inr response \<and> truthy (opt_get response ''success''))"

lemma unconfirmed_session:
  "\<not> confirmed auth w \<Longrightarrow> w_user (snd (initSession me auth w)) = w_user w \<and> w_room (snd (initSession me auth w)) = w_room w"
proof -
  assume nc: "\<not> confirmed auth w"
  have tl: "w_user (snd (to_login v)) = w_user v" "w_room (snd (to_login v)) = w_room v" for v
  proof -
    have "preserves w_user to_login" "preserves w_room to_login" unfolding to_login_def by (intro frame_intro)+
    then show "w_user (snd (to_login v)) = w_user v" "w_room (snd (to_login v)) = w_room v"
      by (simp_all add: preservesD)
  qed
  show ?thesis
  proof (cases "truthy (opt_get (local_get w ''user'') ''id'')")
    case False
    then show ?thesis by (simp add: initSession_def snd_catch_ret tl)
  next
    case True
    with nc show ?thesis
      by (cases auth) (auto simp: initSession_def snd_catch_ret tl confirmed_def)
  qed
qed

lemma checkAuth_again: "fst (checkAuth False w) \<noteq> Inr PollAgain"
proof -
  have "yields (\<lambda>r. r \<noteq> PollAgain) (checkAuth False)"
    unfolding checkAuth_def if_False by (intro yields_intro yields_ret) simp_all
  then show ?thesis by (auto simp: yields_def)
qed

lemma poll_ends: "False \<in> set ps \<Longrightarrow> fst (poll_auth ps w) \<noteq> Inr PollAgain"
proof (induction ps arbitrary: w)
  case (Cons p ps)
  obtain r w' where r: "checkAuth p w = (r, w')" by fastforce
  show ?case
  proof (cases "r = Inr PollAgain")
    case True
    then have "p" using r checkAuth_again [of w] by (cases p) auto
    with Cons.prems have "False \<in> set ps" by auto
    from Cons.IH [OF this] r True show ?thesis by (simp add: bnd_def)
  next
    case False
    with r show ?thesis by (cases r) (auto simp: bnd_def)
  qed
qed simp

definition server_user :: "jv \<Rightarrow> user_store \<Rightarrow> user_store" where
  "server_user u = loginUser (opt_get u ''id'') (opt_get u ''name'') (opt_get u ''email'') (opt_get u ''photo'')"

lemma checkAuth_user:
  "w_user (snd (checkAuth p w)) = w_user w \<or>
   (\<exists>u. w_server w (w_trace w) (get_request w auth_user_path) \<in> {Response st (Some u) | st. 200 \<le> st \<and> st \<le> 299} \<and>
      w_user (snd (checkAuth p w)) = server_user u (w_user w))"
proof (cases "w_server w (w_trace w) (get_request w auth_user_path)")
  case (NetError e)
  then show ?thesis by (simp add: checkAuth_def bnd_def http_get_log)
next
  case (Response st b)
  let ?w = "add_log [Fetch (get_request w auth_user_path)] w"
  have run: "checkAuth p w = (if res_ok (st, b) then
         bnd (res_json (st, b)) (\<lambda>userObject.
         bnd (lift (get userObject ''id'')) (\<lambda>uid.
         seqm (on_user (loginUser uid (opt_get userObject ''name'') (opt_get userObject ''email'')
                 (opt_get userObject ''photo'')))
         (seqm (in_chrome (storage_set [(''user'', userObject)]))
         (bnd (pushRoute ''/start-page'') (\<lambda>_. ret (Done userObject))))))
       else if p then ret PollAgain else ret PollStop) ?w"
    using Response by (simp add: checkAuth_def bnd_def http_get_log)
  show ?thesis
  proof (cases "res_ok (st, b) \<and> b \<noteq> None")
    case False
    then have "snd (checkAuth p w) = ?w"
      by (cases b) (auto simp: run res_json_def)
    then show ?thesis by simp
  next
    case True
    then obtain u where b: "b = Some u" "res_ok (st, b)" by auto
    show ?thesis
    proof (cases "get u ''id''")
      case (Inl e)
      then have "snd (checkAuth p w) = ?w" using b by (simp add: run res_json_def)
      then show ?thesis by simp
    next
      case (Inr uid)
      have "preserves w_user (seqm (in_chrome (storage_set [(''user'', u)]))
         (bnd (pushRoute ''/start-page'') (\<lambda>_. ret (Done u))))"
        by (intro frame_intro)
      from preservesD [OF this] have "w_user (snd (checkAuth p w)) = server_user u (w_user w)"
        using b Inr by (simp add: run res_json_def server_user_def opt_get_def)
      then show ?thesis using Response b by (auto simp: res_ok_def)
    qed
  qed
qed

lemma finishLogout_act: "w_user (snd (finishLogout w)) = userStoreInit \<and> w_room (snd (finishLogout w)) = roomStoreInit"
proof -
  have "preserves w_user (bnd (pushRoute ''/login-page'') (\<lambda>_. ret ()))"
       "preserves w_room (bnd (pushRoute ''/login-page'') (\<lambda>_. ret ()))" by (intro frame_intro)+
  from preservesD [OF this(1)] preservesD [OF this(2)] show ?thesis
    by (simp add: finishLogout_def snd_catch_ret resetUser_def resetRoom_def)
qed

lemma leave_for_logout_frame: "fst (leave_for_logout w) = Inr ()" "w_user (snd (leave_for_logout w)) = w_user w"
  "w_room (snd (leave_for_logout w)) = w_room w" "w_chrome (snd (leave_for_logout w)) = w_chrome w"
proof -
  show "fst (leave_for_logout w) = Inr ()"
    by (cases "truthy (roomId (w_room w))") (auto simp: leave_for_logout_def catch_def split: prod.split sum.split)
  have "preserves w_user leave_for_logout" "preserves w_room leave_for_logout"
    unfolding leave_for_logout_def by (intro frame_intro)+
  then show "w_user (snd (leave_for_logout w)) = w_user w" "w_room (snd (leave_for_logout w)) = w_room w"
    by (simp_all add: preservesD)
  have "preserves w_chrome (http_post p b)" for p b
    by (auto simp: preserves_def http_post_log add_log_def split: http.split)
  then have "preserves w_chrome leave_for_logout"
    unfolding leave_for_logout_def by (intro frame_intro)
  then show "w_chrome (snd (leave_for_logout w)) = w_chrome w" by (rule preservesD)
qed

lemma session_run:
  assumes "\<not> sh_hasRun h"
  shows "\<exists>w'. session_effect True me auth h w = (Inr (h\<lparr>sh_hasRun := True, sh_sessionReady := True\<rparr>), w')"
proof (cases "w_chrome w")
  case False
  with assms show ?thesis by (simp add: session_effect_def)
next
  case True
  obtain w' where "initSession me auth w = (Inr (), w')"
    using initSession_total [of me auth w] by (cases "initSession me auth w") simp
  with True assms show ?thesis by (simp add: session_effect_def bnd_def)
qed

section \<open>Properties\<close>

text \<open>
  The panel always becomes ready: whatever the storage, the worker, the server and the router
  answer, the first run of the session effect ends with the ready flag set, and every later run does
  nothing.
\<close>

theorem session_becomes_ready:
  assumes "\<not> sh_hasRun h"
  shows "\<exists>h'. fst (session_effect True me auth h w) = Inr h' \<and> sh_sessionReady h' \<and>
    session_effect enabled' me' auth' h' = ret h'"
proof -
  let ?h = "h\<lparr>sh_hasRun := True, sh_sessionReady := True\<rparr>"
  obtain w' where "session_effect True me auth h w = (Inr ?h, w')"
    using session_run [OF assms] by blast
  moreover have "session_effect enabled' me' auth' ?h = ret ?h" by (simp add: session_effect_def)
  ultimately show ?thesis by (intro exI [of _ ?h]) simp
qed

theorem session_becomes_ready_witness:
  "\<exists>h'. fst (session_effect True userStoreInit (Inl JUndef) sessionHookInit demo_world) = Inr h' \<and> sh_sessionReady h'"
proof -
  have "\<not> sh_hasRun sessionHookInit" by (simp add: sessionHookInit_def)
  from session_becomes_ready [OF this, of userStoreInit "Inl JUndef" demo_world] show ?thesis by blast
qed


text \<open>
  A login ends once the popup is closed: a poll that finds it closed is the last one, and no
  other is scheduled.
\<close>

theorem login_polling_ends:
  assumes "False \<in> set popup_open"
  shows "fst (login provider popup_open w) \<noteq> Inr PollAgain"
  using poll_ends [OF assms] by (simp add: login_def)

theorem login_polling_ends_witness:
  "fst (login ''google'' [True, False, True] demo_world) \<noteq> Inr PollAgain"
  by (rule login_polling_ends) simp

text \<open>
  One poll of the login changes the user store only when the server accepts the request, and then
  to the user that the server returned, logged in.
\<close>

theorem login_only_server_user:
  "w_user (snd (checkAuth popup_open w)) = w_user w \<or>
   (\<exists>st u. w_server w (w_trace w) (get_request w auth_user_path) = Response st (Some u) \<and> 200 \<le> st \<and> st \<le> 299 \<and>
      w_user (snd (checkAuth popup_open w)) = server_user u (w_user w) \<and>
      isLoggedIn (w_user (snd (checkAuth popup_open w))))"
  using checkAuth_user [of popup_open w] by (auto simp: server_user_def loginUser_def)

text \<open>
  Logging out is confirmed by the worker: with its confirmation both stores are back in their
  initial state, without it (inside the extension) both stay as they are.
\<close>

theorem logout_outcome:
  "w_user (snd (logout response w)) =
     (if w_chrome w \<and> \<not> (truthy response \<and> truthy (opt_get response ''success'')) then w_user w else userStoreInit) \<and>
   w_room (snd (logout response w)) =
     (if w_chrome w \<and> \<not> (truthy response \<and> truthy (opt_get response ''success'')) then w_room w else roomStoreInit)"
  using finishLogout_act leave_for_logout_frame [of w]
  by (cases "w_chrome w"; cases "truthy response \<and> truthy (opt_get response ''success'')")
     (auto simp: logout_def seqm_total)

text \<open>
  The join form sends nothing for a blank code; otherwise it joins with the trimmed code and comes
  back, no longer submitting, with no error or one that has a visible character.
\<close>

theorem join_form_outcome:
  "if trim (jf_joinCode f) = [] then handleJoinRoom me f w = (Inr (f\<lparr>jf_formError := None\<rparr>), w)
   else \<exists>f'. fst (handleJoinRoom me f w) = Inr f' \<and> \<not> jf_isSubmitting f' \<and>
     (case jf_formError f' of None \<Rightarrow> True | Some m \<Rightarrow> trim m \<noteq> [])"
proof (cases "trim (jf_joinCode f) = []")
  case True
  then show ?thesis by (auto simp: handleJoinRoom_def Let_def)
next
  case False
  obtain r w' where r: "joinRoom me (trim (jf_joinCode f)) w = (Inr r, w')" using joinRoom_total by blast
  then have "answer_ok r" using yieldsD [OF answers_joinRoom, of me "trim (jf_joinCode f)" w r] by simp
  with r False show ?thesis
    by (cases r) (auto simp: handleJoinRoom_def Let_def bnd_def finish_join_def answer_ok_def)
qed

text \<open>
  Settings survive a reload: after both have been set inside the extension, a fresh settings store
  that loads from the storage has the same values.
\<close>

theorem settings_survive_reload:
  fixes w chat theme
  assumes "w_chrome w"
  defines "saved \<equiv> snd (setThemePreference theme (snd (setChatNotificationsEnabled chat w)))"
  shows "w_settings (snd (loadSettings (saved\<lparr>w_settings := settingsStoreInit\<rparr>))) =
    \<lparr>chatNotificationsEnabled = chat, themePreference = theme\<rparr>"
  using assms(1)
  by (cases theme) (simp_all add: saved_def setThemePreference_def setChatNotificationsEnabled_def loadSettings_def
      on_settings_def local_get_def apply_stored_settings_def settingsStoreInit_def Let_def)

theorem settings_survive_reload_witness:
  "w_settings (snd (loadSettings ((snd (setThemePreference ThemeLight (snd (setChatNotificationsEnabled False demo_world))))
     \<lparr>w_settings := settingsStoreInit\<rparr>))) = \<lparr>chatNotificationsEnabled = False, themePreference = ThemeLight\<rparr>"
  by (rule settings_survive_reload) (simp add: demo_world_def)

end
