(* ===== verification/Round_Views.thy ===== *)
theory Round_Views
  imports Room_Init
begin

text \<open>
  What the panel shows of a running round: the countdown (\<open>hooks/useRoundTimer.ts\<close>), the statistics
  (\<open>hooks/useStatistics.ts\<close>), the leaderboard with its aborted requests (\<open>hooks/useLeaderboard.ts\<close>) and
  the touched problems (\<open>hooks/useTouchedProblems.ts\<close>).
\<close>

section \<open>The countdown\<close>

definition pad2 :: "int \<Rightarrow> string" where
  "pad2 n = (if n < 10 then ''0'' else []) @ show_int n"

definition timer_text :: "int \<Rightarrow> string" where
  "timer_text diff =
     (let hours = diff div 3600000;
          minutes = (diff mod 3600000) div 60000;
          seconds = (diff mod 60000) div 1000 in
      (if hours > 0 then show_int hours @ '':'' else []) @ pad2 minutes @ '':'' @ pad2 seconds)"

text \<open>\<open>updateTimer\<close>; an end time that is no number gives a difference of NaN.\<close>

definition time_remaining :: "jv \<Rightarrow> int \<Rightarrow> string" where
  "time_remaining ends now =
     (if \<not> truthy ends then ''00:00''
      else (case js_sub ends (JNum now) of
              JNum diff \<Rightarrow> if diff \<le> 0 then ''00:00'' else timer_text diff
            | _ \<Rightarrow> ''NaN:NaN''))"

lemma clock_mod: "0 < b \<Longrightarrow> 0 \<le> a \<Longrightarrow> d mod (b * a) div b = d div b mod (a::int)"
  by (simp add: zmod_zmult2_eq)

lemma clock_digits:
  fixes d :: int
  shows "d mod 60000 div 1000 = d div 1000 mod 60" "d mod 3600000 div 60000 = d div 60000 mod 60"
proof -
  show "d mod 60000 div 1000 = d div 1000 mod 60"
    by (rule clock_mod [of 1000 60 d, unfolded arith_simps]) simp_all
  show "d mod 3600000 div 60000 = d div 60000 mod 60"
    by (rule clock_mod [of 60000 60 d, unfolded arith_simps]) simp_all
qed

lemma clock_sum:
  fixes d :: int
  shows "3600 * (d div 3600000) + 60 * (d div 60000 mod 60) + d div 1000 mod 60 = d div 1000"
proof -
  have h: "d div 3600000 = d div 60000 div 60" "d div 60000 = d div 1000 div 60"
    by (simp_all only: div_mult2_numeral_eq arith_simps)
  from div_mult_mod_eq [of "d div 1000" 60] div_mult_mod_eq [of "d div 60000" 60]
  show ?thesis unfolding h(1) h(2) [symmetric] by linarith
qed

text \<open>
  The countdown shows the whole seconds that are left, split into hours (only when there are any),
  two-digit minutes and two-digit seconds, and 00:00 once the round is over or no round runs.
\<close>

theorem countdown_is_exact:
  "time_remaining (JNum endTime) now =
     (if endTime = 0 \<or> endTime \<le> now then ''00:00'' else timer_text (endTime - now)) \<and>
   (d \<le> 0 \<or> (\<exists>h m s. timer_text d = (if h > 0 then show_int h @ '':'' else []) @ pad2 m @ '':'' @ pad2 s \<and>
      0 \<le> m \<and> m < 60 \<and> 0 \<le> s \<and> s < 60 \<and> 0 \<le> h \<and> 3600 * h + 60 * m + s = d div 1000))"
proof -
  let ?h = "d div 3600000" and ?m = "d div 60000 mod 60" and ?s = "d div 1000 mod 60"
  have digits: "timer_text d = (if ?h > 0 then show_int ?h @ '':'' else []) @ pad2 ?m @ '':'' @ pad2 ?s"
    by (simp only: timer_text_def Let_def clock_digits)
  have "0 \<le> ?m" "?m < 60" "0 \<le> ?s" "?s < 60" by (rule pos_mod_sign pos_mod_bound, simp)+
  then have "0 \<le> ?h \<Longrightarrow> (\<exists>h m s. timer_text d = (if h > 0 then show_int h @ '':'' else []) @ pad2 m @ '':'' @ pad2 s \<and>
      0 \<le> m \<and> m < 60 \<and> 0 \<le> s \<and> s < 60 \<and> 0 \<le> h \<and> 3600 * h + 60 * m + s = d div 1000)"
    using digits clock_sum [of d] by blast
  moreover have "0 < d \<Longrightarrow> 0 \<le> ?h" by simp
  ultimately have "d \<le> 0 \<or> (\<exists>h m s. timer_text d = (if h > 0 then show_int h @ '':'' else []) @ pad2 m @ '':'' @ pad2 s \<and>
      0 \<le> m \<and> m < 60 \<and> 0 \<le> s \<and> s < 60 \<and> 0 \<le> h \<and> 3600 * h + 60 * m + s = d div 1000)"
    by (meson not_le)
  then show ?thesis by (intro conjI) (auto simp: time_remaining_def)
qed

section \<open>Statistics\<close>

record statistics_view =
  sv_statistics :: jv
  sv_roundDetails :: jv

definition statisticsInit :: statistics_view where
  "statisticsInit = \<lparr>sv_statistics = JNull, sv_roundDetails = JNull\<rparr>"

definition fetch_statistics :: "jv \<Rightarrow> statistics_view \<Rightarrow> (world, statistics_view) js" where
  "fetch_statistics rid v = catch
     (bnd (http_get (''/statistics/'' @ to_str rid)) (\<lambda>res.
      bnd (res_json res) (\<lambda>data.
      bnd (lift (get data ''data'')) (\<lambda>d. ret (v\<lparr>sv_statistics := d\<rparr>)))))
     (\<lambda>err. ret v)"

definition fetch_round_details :: "jv \<Rightarrow> statistics_view \<Rightarrow> (world, statistics_view) js" where
  "fetch_round_details rid v = catch
     (bnd (http_get (room_path (to_str rid) ''/round-details'')) (\<lambda>res.
        bnd (if res_status res = 404 then ret JNull
             else if \<not> res_ok res then throw (mk_error ''Error'' (''HTTP '' @ show_int (int (res_status res))))
             else res_json res)
          (\<lambda>data. if truthy data then ret (v\<lparr>sv_roundDetails := data\<rparr>) else ret v)))
     (\<lambda>err. ret v)"

text \<open>One poll; the effect polls at once and then every 15 seconds while the panel is in a room.\<close>

definition fetchStats :: "jv \<Rightarrow> statistics_view \<Rightarrow> (world, statistics_view) js" where
  "fetchStats rid v =
     (if \<not> truthy rid then ret v else bnd (fetch_statistics rid v) (fetch_round_details rid))"

section \<open>The leaderboard\<close>

definition leaderboard_entry :: "jv \<Rightarrow> jv + participant" where
  "leaderboard_entry entry =
     (case get entry ''userAuthID'' of
        Inl e \<Rightarrow> Inl e
      | Inr uid \<Rightarrow> Inr \<lparr>p_id = uid, p_username = js_or (opt_get entry ''handle'') uid,
          p_avatarUrl = js_or (opt_get entry ''photoURL'') JUndef, p_defaultColor = ''#72ab1c'',
          p_currentProblemIndex = JNull, p_score = opt_get entry ''score''\<rparr>)"

text \<open>\<open>data.leaderboard ?? []\<close>, mapped\<close>

definition leaderboard_entries :: "jv \<Rightarrow> jv + participant list" where
  "leaderboard_entries data =
     (case get data ''leaderboard'' of
        Inl e \<Rightarrow> Inl e
      | Inr l \<Rightarrow> (case js_coalesce l (JArr []) of JArr es \<Rightarrow> map_throws leaderboard_entry es | _ \<Rightarrow> Inl type_error))"

text \<open>The standings or the error that an answer to a request gives.\<close>

definition leaderboard_answer :: "http \<Rightarrow> jv + participant list" where
  "leaderboard_answer ans =
     (case ans of
        NetError e \<Rightarrow> Inl e
      | Response st body \<Rightarrow>
          if st = 404 then Inr []
          else if \<not> res_ok (st, body) then
            (let parsed = (case body of None \<Rightarrow> JObj [] | Some b \<Rightarrow> b);
                 msg = js_or (opt_get parsed ''message'') (JStr (''HTTP '' @ show_int (int st))) in
             Inl (mk_error ''Error'' (to_str msg)))
          else (case body of None \<Rightarrow> Inl syntax_error | Some data \<Rightarrow> leaderboard_entries data))"

record leaderboard =
  lb_participants :: "participant list"
  lb_isLoading :: bool
  lb_error :: jv
  lb_requests :: "(jv \<times> bool) list"
  lb_interval :: bool

text \<open>\<open>lb_requests\<close>: the room of every request sent and whether it still waits for its answer; the last
  one is not aborted.\<close>

definition leaderboardInit :: leaderboard where
  "leaderboardInit = \<lparr>lb_participants = [], lb_isLoading = False, lb_error = JNull, lb_requests = [], lb_interval = False\<rparr>"

definition fetchLeaderboard :: "jv \<Rightarrow> leaderboard \<Rightarrow> leaderboard" where
  "fetchLeaderboard rid s =
     (if \<not> truthy rid then s
      else s\<lparr>lb_requests := lb_requests s @ [(rid, True)], lb_isLoading := True, lb_error := JNull\<rparr>)"

definition waiting :: "nat \<Rightarrow> leaderboard \<Rightarrow> bool" where
  "waiting i s \<longleftrightarrow> i < length (lb_requests s) \<and> snd (lb_requests s ! i)"

text \<open>
  The end of request \<open>i\<close>: a newer request has aborted it, so it rejects with an \<open>AbortError\<close>, or it is
  answered. \<open>finally\<close> clears the loading flag in both cases.
\<close>

definition leaderboard_ended :: "nat \<Rightarrow> http \<Rightarrow> leaderboard \<Rightarrow> leaderboard" where
  "leaderboard_ended i ans s =
     (if \<not> waiting i s then s
      else
        (let s1 = s\<lparr>lb_requests := (lb_requests s)[i := (fst (lb_requests s ! i), False)]\<rparr>;
             result = (if Suc i < length (lb_requests s) then Inl (mk_error ''AbortError'' ''The operation was aborted'')
                       else leaderboard_answer ans);
             s2 = (case result of
                     Inr ps \<Rightarrow> s1\<lparr>lb_participants := ps\<rparr>
                   | Inl e \<Rightarrow>
                       if opt_get e ''name'' = JStr ''AbortError'' then s1
                       else s1\<lparr>lb_error := js_coalesce (opt_get e ''message'') (JStr ''Failed to load leaderboard'')\<rparr>) in
         s2\<lparr>lb_isLoading := False\<rparr>))"

text \<open>
  The three effects: a fetch when the room changes, an interval while a round runs in a room, a fetch
  when a round ends.
\<close>

definition polling_effect :: "bool \<Rightarrow> jv \<Rightarrow> leaderboard \<Rightarrow> leaderboard" where
  "polling_effect started rid s = s\<lparr>lb_interval := started \<and> truthy rid\<rparr>"

definition round_end_effect :: "game_event option \<Rightarrow> jv \<Rightarrow> leaderboard \<Rightarrow> leaderboard" where
  "round_end_effect ev rid s =
     (case ev of None \<Rightarrow> s | Some e \<Rightarrow> if ev_type e = RoundEnd then fetchLeaderboard rid s else s)"

datatype leaderboard_event =
    RoomChanged jv
  | RoundFlagChanged bool jv
  | PollTick jv
  | GameEventSeen "game_event option" jv
  | RequestEnded nat http

fun leaderboard_step :: "leaderboard_event \<Rightarrow> leaderboard \<Rightarrow> leaderboard" where
  "leaderboard_step (RoomChanged rid) s = fetchLeaderboard rid s"
| "leaderboard_step (RoundFlagChanged b rid) s = polling_effect b rid s"
| "leaderboard_step (PollTick rid) s = (if lb_interval s then fetchLeaderboard rid s else s)"
| "leaderboard_step (GameEventSeen ev rid) s = round_end_effect ev rid s"
| "leaderboard_step (RequestEnded i ans) s = leaderboard_ended i ans s"

text \<open>A loading leaderboard has its newest request on the way.\<close>

definition leaderboard_inv :: "leaderboard \<Rightarrow> bool" where
  "leaderboard_inv s \<longleftrightarrow> lb_isLoading s \<longrightarrow> (lb_requests s \<noteq> [] \<and> snd (last (lb_requests s)))"

lemma leaderboard_inv_fetch: "leaderboard_inv s \<Longrightarrow> leaderboard_inv (fetchLeaderboard rid s)"
  by (simp add: leaderboard_inv_def fetchLeaderboard_def)

lemma ended_not_loading: "waiting i s \<Longrightarrow> \<not> lb_isLoading (leaderboard_ended i ans s)"
  by (simp add: leaderboard_ended_def Let_def)

lemma leaderboard_inv_step: "leaderboard_inv s \<Longrightarrow> leaderboard_inv (leaderboard_step e s)"
proof (cases e)
  case (RequestEnded i ans)
  assume "leaderboard_inv s"
  then show ?thesis
    using ended_not_loading [of i s ans]
    by (cases "waiting i s") (auto simp: RequestEnded leaderboard_inv_def leaderboard_ended_def)
qed (auto simp: leaderboard_inv_fetch round_end_effect_def polling_effect_def leaderboard_inv_def
       fetchLeaderboard_def split: option.split)

interpretation standings: machine leaderboardInit leaderboard_step leaderboard_inv
  by unfold_locales (simp add: leaderboard_inv_def leaderboardInit_def, rule leaderboard_inv_step)

text \<open>
  The standings shown come only from the newest request: the end of a request that a newer one has
  superseded leaves the standings and the error alone, whatever the server answered.
\<close>

theorem superseded_standings_ignored:
  assumes "Suc i < length (lb_requests s)"
  shows "lb_participants (leaderboard_step (RequestEnded i ans) s) = lb_participants s \<and>
    lb_error (leaderboard_step (RequestEnded i ans) s) = lb_error s"
  using assms by (simp add: leaderboard_ended_def Let_def mk_error_def)

theorem superseded_standings_ignored_witness:
  "lb_participants (run leaderboard_step [RoomChanged (JStr ''r1''), RoomChanged (JStr ''r2''),
     RequestEnded 0 (Response 200 (Some (JObj [(''leaderboard'', JArr [JObj [(''userAuthID'', JStr ''u'')]])])))]
     leaderboardInit) = []"
proof -
  let ?s = "run leaderboard_step [RoomChanged (JStr ''r1''), RoomChanged (JStr ''r2'')] leaderboardInit"
  have "Suc 0 < length (lb_requests ?s)" "lb_participants ?s = []"
    by (simp_all add: fetchLeaderboard_def leaderboardInit_def)
  with superseded_standings_ignored [of 0 ?s "Response 200 (Some (JObj [(''leaderboard'', JArr [JObj [(''userAuthID'', JStr ''u'')]])]))"]
  show ?thesis by simp
qed

text \<open>
  While the leaderboard says it is loading, its newest request is indeed on the way.
\<close>

theorem loading_has_request:
  assumes "reaches leaderboard_step leaderboardInit s"
  shows "\<not> lb_isLoading s \<or> (lb_requests s \<noteq> [] \<and> waiting (length (lb_requests s) - 1) s)"
  using standings.inv_reachable [OF assms] by (auto simp: leaderboard_inv_def waiting_def last_conv_nth)

theorem loading_has_request_witness:
  "waiting 0 (run leaderboard_step [RoomChanged (JStr ''r1'')] leaderboardInit)"
proof -
  let ?s = "run leaderboard_step [RoomChanged (JStr ''r1'')] leaderboardInit"
  have "reaches leaderboard_step leaderboardInit ?s" unfolding reaches_iff_run by blast
  moreover have "lb_isLoading ?s" "length (lb_requests ?s) = 1"
    by (simp_all add: fetchLeaderboard_def leaderboardInit_def)
  ultimately show ?thesis using loading_has_request [of ?s] by simp
qed

text \<open>The converse fails: the end of an aborted request clears the flag of the newer one.\<close>

lemma aborted_request_hides_loading:
  "let s = run leaderboard_step [RoomChanged (JStr ''r1''), RoomChanged (JStr ''r1''), RequestEnded 0 ans] leaderboardInit
   in \<not> lb_isLoading s \<and> waiting 1 s"
  by (simp add: Let_def fetchLeaderboard_def leaderboardInit_def leaderboard_ended_def waiting_def mk_error_def)

section \<open>Touched problems\<close>

text \<open>The set as the list of its elements; \<open>cancelled\<close> is set by the cleanup.\<close>

record touched_view =
  tv_touched :: "string list"
  tv_cancelled :: bool

definition touchedInit :: touched_view where
  "touchedInit = \<lparr>tv_touched = [], tv_cancelled = False\<rparr>"

definition slug_set :: "jv \<Rightarrow> string list" where
  "slug_set v = (case js_coalesce v (JArr []) of JArr vs \<Rightarrow> remdups (map to_str vs) | _ \<Rightarrow> [])"

definition touched_read :: "jv \<Rightarrow> touched_view \<Rightarrow> touched_view" where
  "touched_read stored v = (if tv_cancelled v then v else v\<lparr>tv_touched := slug_set stored\<rparr>)"

definition touched_changed :: "jv \<Rightarrow> string \<Rightarrow> touched_view \<Rightarrow> touched_view" where
  "touched_changed changes areaName v =
     (let c = opt_get changes ''touchedSlugs'' in
      if areaName \<noteq> ''session'' \<or> \<not> truthy c \<or> tv_cancelled v then v
      else v\<lparr>tv_touched := slug_set (opt_get c ''newValue'')\<rparr>)"

definition touched_cleanup :: "touched_view \<Rightarrow> touched_view" where
  "touched_cleanup v = v\<lparr>tv_cancelled := True\<rparr>"

text \<open>
  A reset of the round empties the touched problems, and a read or a change that arrives after the
  component has gone brings nothing back.
\<close>

theorem touched_reset:
  "tv_touched (touched_changed (JObj [(''touchedSlugs'', JObj [(''oldValue'', old)])]) ''session''
     \<lparr>tv_touched = ts, tv_cancelled = False\<rparr>) = [] \<and>
   touched_read stored (touched_cleanup v) = touched_cleanup v \<and>
   touched_changed changes area (touched_cleanup v) = touched_cleanup v"
  by (simp add: touched_changed_def touched_read_def touched_cleanup_def slug_set_def Let_def)

end
