(* ===== verification/Touch_Queue.thy ===== *)
theory Touch_Queue
  imports Machine JS_Value
begin

text \<open>
  The touched problems of a round as the service worker keeps them (\<open>extension/background.js\<close>,
  \<open>markProblemTouched\<close> and \<open>resetTouchedProblems\<close>): every mutation of \<open>chrome.storage.session\<close> is a
  read, an \<open>await\<close> and a write, and the promise chain \<open>touchedWrites\<close> runs them one after the other. The
  machine below has one event per resumption, so messages arrive between a read and its write; the
  refinement shows that what it computes is the fold of the mutations in the order of their arrival.
\<close>

section \<open>The chain\<close>

definition TOUCHED_KEY :: string where "TOUCHED_KEY = ''touchedSlugs''"

definition TOUCHED_ROUND_KEY :: string where "TOUCHED_ROUND_KEY = ''touchedSlugsRound''"

datatype touch_op = MarkOp jv | ResetOp jv

type_synonym session = "string \<rightharpoonup> jv"

definition session_get :: "session \<Rightarrow> string \<Rightarrow> jv" where
  "session_get m k = (case m k of None \<Rightarrow> JUndef | Some v \<Rightarrow> v)"

text \<open>\<open>tq_chain\<close>: the mutations whose callbacks have not ended; \<open>tq_read\<close>: the head has read the storage and
  is about to write these entries.\<close>

record touch_queue =
  tq_session :: session
  tq_chain :: "touch_op list"
  tq_write :: "(string \<times> jv) list option"

definition touchInit :: "session \<Rightarrow> touch_queue" where
  "touchInit m = \<lparr>tq_session = m, tq_chain = [], tq_write = None\<rparr>"

definition markProblemTouched :: "jv \<Rightarrow> touch_queue \<Rightarrow> touch_queue" where
  "markProblemTouched slug q =
     (if \<not> truthy slug then q else q\<lparr>tq_chain := tq_chain q @ [MarkOp slug]\<rparr>)"

definition resetTouchedProblems :: "jv \<Rightarrow> touch_queue \<Rightarrow> touch_queue" where
  "resetTouchedProblems roundKey q = q\<lparr>tq_chain := tq_chain q @ [ResetOp roundKey]\<rparr>"

text \<open>\<open>v.includes(x)\<close> and \<open>[...v, x]\<close> on what the storage holds.\<close>

definition js_includes :: "jv \<Rightarrow> jv \<Rightarrow> jv + bool" where
  "js_includes v x =
     (case v of
        JArr vs \<Rightarrow> Inr (\<exists>y\<in>set vs. strict_eq y x)
      | JStr s \<Rightarrow> Inr (str_includes s (to_str x))
      | _ \<Rightarrow> Inl type_error)"

definition spread :: "jv \<Rightarrow> jv list" where
  "spread v = (case v of JArr vs \<Rightarrow> vs | JStr s \<Rightarrow> map (\<lambda>c. JStr [c]) s | _ \<Rightarrow> [])"

text \<open>What a mutation writes after it has read \<open>m\<close>: nothing (\<open>None\<close>) when it returns early or throws.\<close>

fun touch_write :: "touch_op \<Rightarrow> session \<Rightarrow> (string \<times> jv) list option" where
  "touch_write (MarkOp slug) m =
     (let touched = js_or (session_get m TOUCHED_KEY) (JArr []) in
      case js_includes touched slug of
        Inl e \<Rightarrow> None
      | Inr True \<Rightarrow> None
      | Inr False \<Rightarrow> Some [(TOUCHED_KEY, JArr (spread touched @ [slug]))])"
| "touch_write (ResetOp roundKey) m =
     (if strict_eq (session_get m TOUCHED_ROUND_KEY) roundKey then None
      else Some [(TOUCHED_ROUND_KEY, roundKey), (TOUCHED_KEY, JArr [])])"

datatype touch_event =
    Touched jv
  | RoundReset jv
  | ReadDone bool
  | WriteDone bool

text \<open>The flag of the last two: the storage call resolved; a rejection is caught and logged, and ends the
  mutation.\<close>

fun touch_step :: "touch_event \<Rightarrow> touch_queue \<Rightarrow> touch_queue" where
  "touch_step (Touched slug) q = markProblemTouched slug q"
| "touch_step (RoundReset roundKey) q = resetTouchedProblems roundKey q"
| "touch_step (ReadDone ok) q =
     (case (tq_chain q, tq_write q) of
        (op # ops, None) \<Rightarrow>
          (case (if ok then touch_write op (tq_session q) else None) of
             None \<Rightarrow> q\<lparr>tq_chain := ops\<rparr>
           | Some kvs \<Rightarrow> q\<lparr>tq_write := Some kvs\<rparr>)
      | _ \<Rightarrow> q)"
| "touch_step (WriteDone ok) q =
     (case (tq_chain q, tq_write q) of
        (op # ops, Some kvs) \<Rightarrow>
          q\<lparr>tq_session := (if ok then tq_session q ++ map_of kvs else tq_session q), tq_chain := ops, tq_write := None\<rparr>
      | _ \<Rightarrow> q)"

section \<open>The mutations one at a time\<close>

definition touch_apply :: "touch_op \<Rightarrow> session \<Rightarrow> session" where
  "touch_apply op m = (case touch_write op m of None \<Rightarrow> m | Some kvs \<Rightarrow> m ++ map_of kvs)"

fun touch_arrival :: "touch_event \<Rightarrow> touch_op list" where
  "touch_arrival (Touched slug) = (if truthy slug then [MarkOp slug] else [])"
| "touch_arrival (RoundReset k) = [ResetOp k]"
| "touch_arrival _ = []"

definition arrivals :: "touch_event list \<Rightarrow> touch_op list" where
  "arrivals es = concat (map touch_arrival es)"

fun resolved :: "touch_event \<Rightarrow> bool" where
  "resolved (ReadDone ok) = ok"
| "resolved (WriteDone ok) = ok"
| "resolved _ = True"

text \<open>The entries about to be written are those that the head computes from the storage as it still is.\<close>

definition touch_inv :: "touch_queue \<Rightarrow> bool" where
  "touch_inv q \<longleftrightarrow> (\<forall>kvs. tq_write q = Some kvs \<longrightarrow>
     (\<exists>op ops. tq_chain q = op # ops \<and> touch_write op (tq_session q) = Some kvs))"

definition settled :: "touch_queue \<Rightarrow> session" where
  "settled q = fold touch_apply (tq_chain q) (tq_session q)"

lemma touch_inv_step: "touch_inv q \<Longrightarrow> touch_inv (touch_step e q)"
  by (cases e) (auto simp: touch_inv_def markProblemTouched_def resetTouchedProblems_def
      split: list.split option.split if_splits)

lemma settled_step:
  assumes "touch_inv q" "resolved e"
  shows "settled (touch_step e q) = fold touch_apply (touch_arrival e) (settled q)"
  using assms
  by (cases e) (auto simp: settled_def touch_inv_def markProblemTouched_def resetTouchedProblems_def
      touch_apply_def split: list.split option.split)

interpretation touches: machine "touchInit m" touch_step touch_inv
  for m
  by unfold_locales (simp add: touch_inv_def touchInit_def, rule touch_inv_step)

lemma settled_run:
  assumes "touch_inv q" "\<forall>e\<in>set es. resolved e"
  shows "settled (run touch_step es q) = fold touch_apply (arrivals es) (settled q)"
  using assms
proof (induction es arbitrary: q)
  case Nil
  then show ?case by (simp add: arrivals_def)
next
  case (Cons e es)
  from Cons.prems have "touch_inv (touch_step e q)" by (simp add: touch_inv_step)
  with Cons show ?case by (simp add: settled_step arrivals_def)
qed

text \<open>
  C10: the chain of promises implements the mutations one after the other: however messages, reads and
  writes interleave, once no mutation is left the session storage is what applying the mutations in the
  order of their arrival gives, so no report is lost to a concurrent one.
\<close>

theorem touched_writes_serial:
  assumes "\<forall>e\<in>set es. resolved e"
    and "tq_chain (run touch_step es (touchInit m)) = []"
  shows "tq_session (run touch_step es (touchInit m)) = fold touch_apply (arrivals es) m"
proof -
  have "settled (run touch_step es (touchInit m)) = fold touch_apply (arrivals es) m"
    using settled_run [OF _ assms(1), of "touchInit m"] touches.inv_init by (simp add: settled_def touchInit_def)
  with assms(2) show ?thesis by (simp add: settled_def)
qed

definition two_reports :: "touch_event list" where
  "two_reports = [Touched (JStr ''a''), Touched (JStr ''b''), ReadDone True, WriteDone True, ReadDone True, WriteDone True]"

theorem touched_writes_serial_witness:
  "session_get (tq_session (run touch_step two_reports (touchInit Map.empty))) TOUCHED_KEY = JArr [JStr ''a'', JStr ''b'']"
proof -
  let ?q = "run touch_step two_reports (touchInit Map.empty)"
  have "\<forall>e\<in>set two_reports. resolved e" by (simp add: two_reports_def)
  moreover have "tq_chain ?q = []"
    by (simp add: two_reports_def touchInit_def markProblemTouched_def session_get_def js_includes_def spread_def Let_def)
  ultimately have "tq_session ?q = fold touch_apply (arrivals two_reports) Map.empty"
    by (rule touched_writes_serial)
  then show ?thesis
    by (simp add: arrivals_def two_reports_def touch_apply_def session_get_def js_includes_def spread_def Let_def js_or_def)
qed

text \<open>
  As long as the storage answers, every round of answers (whether or not a write was under way) ends at
  least one mutation.
\<close>

definition answer_round :: "touch_event list" where
  "answer_round = [WriteDone True, ReadDone True, WriteDone True]"

lemma answer_round_shortens: "length (tq_chain (run touch_step answer_round q)) \<le> length (tq_chain q) - 1"
  by (auto simp: answer_round_def split: list.split option.split)

text \<open>
  C21: the chain never gets stuck: when the storage answers, as many rounds of answers as there are
  mutations in the chain end all of them.
\<close>

theorem touched_chain_drains:
  "tq_chain (run touch_step (concat (replicate (length (tq_chain q)) answer_round)) q) = []"
proof -
  have "length (tq_chain q) \<le> n \<Longrightarrow> tq_chain (run touch_step (concat (replicate n answer_round)) q) = []" for n
  proof (induction n arbitrary: q)
    case 0
    then show ?case by simp
  next
    case (Suc n)
    with answer_round_shortens [of q] have "length (tq_chain (run touch_step answer_round q)) \<le> n" by simp
    then show ?case by (simp add: Suc.IH)
  qed
  then show ?thesis by simp
qed

section \<open>What is touched\<close>

text \<open>The slugs of the reports, each once, in the order of the first report.\<close>

definition marked :: "touch_op list \<Rightarrow> string list" where
  "marked ops = rev (remdups (rev (concat (map (\<lambda>op. case op of MarkOp (JStr s) \<Rightarrow> [s] | _ \<Rightarrow> []) ops))))"

definition in_round :: "string \<Rightarrow> touch_op \<Rightarrow> bool" where
  "in_round k op \<longleftrightarrow> op = ResetOp (JStr k) \<or> (\<exists>s. op = MarkOp (JStr s))"

lemma marked_snoc:
  "marked (ops @ [MarkOp (JStr s)]) = (if s \<in> set (marked ops) then marked ops else marked ops @ [s])"
  "marked (ops @ [ResetOp k]) = marked ops"
  by (simp_all add: marked_def)

lemma keys_differ [simp]: "TOUCHED_KEY \<noteq> TOUCHED_ROUND_KEY" "TOUCHED_ROUND_KEY \<noteq> TOUCHED_KEY"
  by (simp_all add: TOUCHED_KEY_def TOUCHED_ROUND_KEY_def)

lemma session_get_upd [simp]: "session_get (m(k \<mapsto> v)) k' = (if k' = k then v else session_get m k')"
  by (simp add: session_get_def)

lemma touch_apply_reset:
  "touch_apply (ResetOp k) m =
     (if strict_eq (session_get m TOUCHED_ROUND_KEY) k then m else m(TOUCHED_KEY \<mapsto> JArr [], TOUCHED_ROUND_KEY \<mapsto> k))"
  by (simp add: touch_apply_def)

lemma touch_apply_mark:
  assumes "session_get m TOUCHED_KEY = JArr (map JStr ss)"
  shows "touch_apply (MarkOp (JStr s)) m =
     (if s \<in> set ss then m else m(TOUCHED_KEY \<mapsto> JArr (map JStr ss @ [JStr s])))"
proof -
  have "js_includes (JArr (map JStr ss)) (JStr s) = Inr (s \<in> set ss)"
    by (auto simp: js_includes_def)
  with assms show ?thesis
    by (simp add: touch_apply_def Let_def js_or_def spread_def)
qed

lemma touched_in_round:
  assumes "\<forall>op\<in>set ops. in_round k op"
    and "session_get m TOUCHED_ROUND_KEY = JStr k" "session_get m TOUCHED_KEY = JArr []"
  shows "session_get (fold touch_apply ops m) TOUCHED_ROUND_KEY = JStr k \<and>
    session_get (fold touch_apply ops m) TOUCHED_KEY = JArr (map JStr (marked ops))"
  using assms
proof (induction ops rule: rev_induct)
  case Nil
  then show ?case by (simp add: marked_def)
next
  case (snoc op ops)
  let ?m = "fold touch_apply ops m"
  from snoc have r: "session_get ?m TOUCHED_ROUND_KEY = JStr k"
    and t: "session_get ?m TOUCHED_KEY = JArr (map JStr (marked ops))" by simp_all
  from snoc.prems(1) consider "op = ResetOp (JStr k)" | s where "op = MarkOp (JStr s)"
    by (auto simp: in_round_def)
  then show ?case
  proof cases
    case 1
    with r t show ?thesis by (simp add: touch_apply_reset marked_snoc)
  next
    case 2
    with r t show ?thesis by (auto simp: touch_apply_mark [OF t] marked_snoc session_get_def)
  qed
qed

text \<open>
  After the reset of a new round the touched problems are exactly the problems reported since, each
  once and in the order of the first report, however often the reset of the same round is replayed
  between the reports.
\<close>

theorem touched_since_reset:
  assumes "session_get m TOUCHED_ROUND_KEY \<noteq> JStr k" "\<forall>op\<in>set ops. in_round k op"
  shows "session_get (fold touch_apply (ResetOp (JStr k) # ops) m) TOUCHED_KEY = JArr (map JStr (marked ops))"
proof -
  from assms(1) have "\<not> strict_eq (session_get m TOUCHED_ROUND_KEY) (JStr k)"
    using strict_eq_imp_eq by blast
  then show ?thesis
    using touched_in_round [OF assms(2), of "touch_apply (ResetOp (JStr k)) m"] by (simp add: touch_apply_reset)
qed

theorem touched_since_reset_witness:
  "session_get (fold touch_apply (ResetOp (JStr ''r|1'') #
     [MarkOp (JStr ''two-sum''), ResetOp (JStr ''r|1''), MarkOp (JStr ''lru-cache''), MarkOp (JStr ''two-sum'')]) Map.empty)
     TOUCHED_KEY = JArr [JStr ''two-sum'', JStr ''lru-cache'']"
proof -
  let ?ops = "[MarkOp (JStr ''two-sum''), ResetOp (JStr ''r|1''), MarkOp (JStr ''lru-cache''), MarkOp (JStr ''two-sum'')]"
  have "session_get Map.empty TOUCHED_ROUND_KEY \<noteq> JStr ''r|1''" by (simp add: session_get_def)
  moreover have "\<forall>op\<in>set ?ops. in_round ''r|1'' op" by (simp add: in_round_def)
  ultimately have "session_get (fold touch_apply (ResetOp (JStr ''r|1'') # ?ops) Map.empty) TOUCHED_KEY = JArr (map JStr (marked ?ops))"
    by (rule touched_since_reset)
  then show ?thesis by (simp add: marked_def)
qed

end
