(* ===== verification/Worker.thy ===== *)
theory Worker
  imports Touch_Queue Session Chat_Socket
begin

text \<open>
  The service worker of the extension (\<open>extension/background.js\<close>) with the offscreen document it copies
  through (\<open>extension/offscreen.js\<close>): the message handler, the configuration read that requests wait
  for, the submissions reported to the server and the socket that receives the next problem.

  The state has what outlives a handler: the storage, the module's variables, the sockets opened so far
  and the requests that wait for the configuration. Everything after an \<open>await\<close> of a promise other than
  \<open>configReady\<close> runs at once; the promise chain of the touched problems is the machine of
  \<open>Touch_Queue\<close>. The answers of the server may depend on the effects so far.
\<close>

section \<open>State\<close>

datatype bg_effect =
    BgFetch request
  | Reply jv
  | Badge string
  | BadgeColor string
  | Notify string
  | ReconnectIn int
  | Clipboard string

record bg_socket =
  bs_url :: string
  bs_ready :: ready_state
  bs_sent :: "string list"

text \<open>What the copying relies on outside the worker: the offscreen API, the answer of the offscreen document
  to a message and the clipboard of the worker.\<close>

record copy_env =
  ce_offscreen :: bool
  ce_hasDocument :: "jv + bool"
  ce_createDocument :: "jv + unit"
  ce_answer :: "jv \<Rightarrow> jv + jv"
  ce_clipboard :: bool
  ce_writeText :: "string \<Rightarrow> jv + unit"

text \<open>A request of a handler that waits for \<open>configReady\<close>.\<close>

datatype deferred = AskUser | EndSession | PostSubmission jv jv

record worker =
  wk_local :: "string \<rightharpoonup> jv"
  wk_touch :: touch_queue
  wk_server :: "bg_effect list \<Rightarrow> request \<Rightarrow> http"
  wk_copy :: copy_env
  wk_offscreenCreated :: bool
  wk_serverUrl :: string
  wk_rtcUrl :: string
  wk_configReady :: bool
  wk_deferred :: "deferred list"
  wk_sockets :: "bg_socket list"
  wk_socket :: "nat option"
  wk_timers :: nat
  wk_activeRoomId :: jv
  wk_userProfile :: jv
  wk_now :: int
  wk_notifications :: bool
  wk_trace :: "bg_effect list"

definition bg_emit :: "bg_effect \<Rightarrow> (worker, unit) js" where
  "bg_emit e = modify (\<lambda>w. w\<lparr>wk_trace := wk_trace w @ [e]\<rparr>)"

definition bg_get :: "string \<Rightarrow> (worker, jv) js" where
  "bg_get k = asks (\<lambda>w. session_get (wk_local w) k)"

definition bg_set :: "(string \<times> jv) list \<Rightarrow> (worker, unit) js" where
  "bg_set kvs = modify (\<lambda>w. w\<lparr>wk_local := wk_local w ++ map_of kvs\<rparr>)"

definition bg_remove :: "string list \<Rightarrow> (worker, unit) js" where
  "bg_remove ks = modify (\<lambda>w. w\<lparr>wk_local := (\<lambda>k. if k \<in> set ks then None else wk_local w k)\<rparr>)"

text \<open>\<open>fetch(`${CONFIG.SERVER_URL}path`, { credentials: 'include', ... })\<close>\<close>

definition bg_fetch :: "string \<Rightarrow> string \<Rightarrow> string option \<Rightarrow> (worker, nat \<times> jv option) js" where
  "bg_fetch verb path body w =
     (let r = \<lparr>rq_method = verb, rq_url = wk_serverUrl w @ path, rq_body = body, rq_credentials = True\<rparr>;
          w' = w\<lparr>wk_trace := wk_trace w @ [BgFetch r]\<rparr> in
      case wk_server w (wk_trace w) r of
        NetError e \<Rightarrow> (Inl e, w')
      | Response st body \<Rightarrow> (Inr (st, body), w'))"

lemma bg_act [simp, effect_simps]:
  "bg_emit e w = (Inr (), w\<lparr>wk_trace := wk_trace w @ [e]\<rparr>)"
  "bg_get k w = (Inr (session_get (wk_local w) k), w)"
  "bg_set kvs w = (Inr (), w\<lparr>wk_local := wk_local w ++ map_of kvs\<rparr>)"
  "bg_remove ks w = (Inr (), w\<lparr>wk_local := (\<lambda>k. if k \<in> set ks then None else wk_local w k)\<rparr>)"
  by (simp_all add: bg_emit_def bg_get_def bg_set_def bg_remove_def)

lemma bg_seqm [simp, effect_simps]:
  "seqm (bg_emit e) n w = n (w\<lparr>wk_trace := wk_trace w @ [e]\<rparr>)"
  "seqm (bg_set kvs) n w = n (w\<lparr>wk_local := wk_local w ++ map_of kvs\<rparr>)"
  "seqm (bg_remove ks) n w = n (w\<lparr>wk_local := (\<lambda>k. if k \<in> set ks then None else wk_local w k)\<rparr>)"
  "bnd (bg_get k) f w = f (session_get (wk_local w) k) w"
  by (simp_all add: bg_emit_def bg_get_def bg_set_def bg_remove_def)

section \<open>Copying\<close>

definition ensureOffscreen :: "(worker, bool) js" where
  "ensureOffscreen = bnd (asks wk_offscreenCreated) (\<lambda>created.
     if created then ret True
     else bnd (asks wk_copy) (\<lambda>env.
       if \<not> ce_offscreen env then ret False
       else catch
         (bnd (lift (ce_hasDocument env)) (\<lambda>exists.
          bnd (if exists then ret () else lift (ce_createDocument env)) (\<lambda>_.
          seqm (modify (\<lambda>w. w\<lparr>wk_offscreenCreated := True\<rparr>)) (ret True))))
         (\<lambda>e. ret False)))"

definition offscreen_message :: "jv \<Rightarrow> jv" where
  "offscreen_message text = JObj [(''type'', JStr ''OFFSCREEN_COPY''), (''text'', text)]"

text \<open>\<open>res && res.ok\<close>\<close>

definition copy_ok :: "jv \<Rightarrow> jv" where
  "copy_ok res = (if truthy res then opt_get res ''ok'' else res)"

definition write_clipboard :: "jv \<Rightarrow> (worker, jv) js" where
  "write_clipboard text = bnd (asks wk_copy) (\<lambda>env.
     catch
       (if ce_clipboard env
        then bnd (lift (ce_writeText env (to_str text))) (\<lambda>_. seqm (bg_emit (Clipboard (to_str text))) (ret (JBool True)))
        else ret (JBool False))
       (\<lambda>e. ret (JBool False)))"

definition doCopy :: "jv \<Rightarrow> (worker, jv) js" where
  "doCopy text = bnd ensureOffscreen (\<lambda>hasOffscreen.
     if hasOffscreen then
       bnd (asks wk_copy) (\<lambda>env.
         case ce_answer env (offscreen_message text) of
           Inr res \<Rightarrow> ret (copy_ok res)
         | Inl e \<Rightarrow> write_clipboard text)
     else write_clipboard text)"

text \<open>The listener of the offscreen document: no answer to another message; the clipboard API first, then
  \<open>document.execCommand('copy')\<close>.\<close>

definition offscreen_copy :: "bool \<Rightarrow> (string \<Rightarrow> jv + unit) \<Rightarrow> (string \<Rightarrow> jv + bool) \<Rightarrow> jv \<Rightarrow> jv option" where
  "offscreen_copy clipboard write exec msg =
     (if \<not> truthy msg \<or> \<not> strict_eq (opt_get msg ''type'') (JStr ''OFFSCREEN_COPY'') then None
      else
        (let text = to_str (js_or (opt_get msg ''text'') (JStr [])) in
         if clipboard \<and> write text = Inr () then Some (JObj [(''ok'', JBool True)])
         else (case exec text of
                 Inr ok \<Rightarrow> Some (JObj [(''ok'', JBool ok)])
               | Inl e \<Rightarrow> Some (JObj [(''ok'', JBool False), (''err'', JStr (to_str e))]))))"

section \<open>Requests that wait for the configuration\<close>

definition check_auth :: "(worker, unit) js" where
  "check_auth = catch
     (bnd (bg_fetch ''GET'' ''/auth/user'' None) (\<lambda>response.
      bnd (if res_ok response then res_json response else throw (mk_error ''Error'' ''Not authenticated''))
        (\<lambda>userData. seqm (bg_set [(''user'', userData)])
          (bg_emit (Reply (JObj [(''success'', JBool True), (''user'', userData)]))))))
     (\<lambda>error. seqm (bg_remove [''user''])
        (bnd (lift (get error ''message'')) (\<lambda>msg.
           bg_emit (Reply (JObj [(''success'', JBool False), (''error'', msg)])))))"

definition LOGOUT_KEYS :: "string list" where
  "LOGOUT_KEYS = [''user'', ''activeRoomId'', ''roundEndTime'', ''nextProblem'', ''problems'', ''lastGameEvent'', ''pendingSubmissions'']"

definition set_state :: "nat \<Rightarrow> ready_state \<Rightarrow> worker \<Rightarrow> worker" where
  "set_state i r w = w\<lparr>wk_sockets := (wk_sockets w)[i := (wk_sockets w ! i)\<lparr>bs_ready := r\<rparr>]\<rparr>"

text \<open>\<open>socket.close(); socket = null\<close>\<close>

definition drop_socket :: "worker \<Rightarrow> worker" where
  "drop_socket w =
     (case wk_socket w of
        None \<Rightarrow> w
      | Some i \<Rightarrow>
          (if bs_ready (wk_sockets w ! i) = Closed then w else set_state i Closing w)\<lparr>wk_socket := None\<rparr>)"

definition finish_logout :: "(worker, unit) js" where
  "finish_logout =
     seqm (modify (\<lambda>w. drop_socket (w\<lparr>wk_activeRoomId := JNull\<rparr>)))
     (seqm (bg_remove LOGOUT_KEYS)
     (seqm (bg_emit (Badge [])) (bg_emit (Reply (JObj [(''success'', JBool True)])))))"

definition end_session :: "(worker, unit) js" where
  "end_session = seqm (catch (bnd (bg_fetch ''POST'' ''/auth/logout'' None) (\<lambda>_. ret ())) (\<lambda>e. ret ())) finish_logout"

definition submission_body :: "jv \<Rightarrow> jv \<Rightarrow> (string \<times> jv) list" where
  "submission_body pendingData data =
     [(''slug'', opt_get pendingData ''problemSlug''), (''status'', JStr ''Accepted''),
      (''code'', opt_get pendingData ''typed_code''), (''language'', opt_get pendingData ''lang''),
      (''runtime'', opt_get data ''elapsed_time''), (''memory'', opt_get data ''memory_percentile'')]"

definition post_submission :: "jv \<Rightarrow> jv \<Rightarrow> (worker, unit) js" where
  "post_submission pendingData data = catch
     (bnd (bg_fetch ''POST'' ''/submission'' (Some (json_stringify (submission_body pendingData data)))) (\<lambda>_. ret ()))
     (\<lambda>err. ret ())"

fun run_deferred :: "deferred \<Rightarrow> (worker, unit) js" where
  "run_deferred AskUser = check_auth"
| "run_deferred EndSession = end_session"
| "run_deferred (PostSubmission p d) = post_submission p d"

text \<open>\<open>configReady.then(...)\<close>\<close>

definition when_configured :: "deferred \<Rightarrow> (worker, unit) js" where
  "when_configured d = bnd (asks wk_configReady) (\<lambda>ready.
     if ready then run_deferred d else modify (\<lambda>w. w\<lparr>wk_deferred := wk_deferred w @ [d]\<rparr>))"

section \<open>Submissions\<close>

text \<open>Member access, assignment and \<open>delete\<close> with a computed key on the stored object.\<close>

definition put_member :: "jv \<Rightarrow> string \<Rightarrow> jv \<Rightarrow> jv" where
  "put_member v k x = (case v of JObj fs \<Rightarrow> JObj (obj_put k x fs) | _ \<Rightarrow> v)"

definition del_member :: "jv \<Rightarrow> string \<Rightarrow> jv" where
  "del_member v k = (case v of JObj fs \<Rightarrow> JObj (filter (\<lambda>p. fst p \<noteq> k) fs) | _ \<Rightarrow> v)"

definition pending_of :: "worker \<Rightarrow> jv" where
  "pending_of w = js_or (session_get (wk_local w) ''pendingSubmissions'') (JObj [])"

definition received :: jv where
  "received = JObj [(''received'', JBool True)]"

definition submission_pending :: "jv \<Rightarrow> (worker, unit) js" where
  "submission_pending data =
     bnd (lift (get data ''submissionId'')) (\<lambda>submissionId.
     bnd (lift (get data ''problemSlug'')) (\<lambda>problemSlug.
       seqm (when_do (truthy submissionId \<and> truthy problemSlug)
               (bnd (asks pending_of) (\<lambda>pending.
                  bg_set [(''pendingSubmissions'', put_member pending (to_str submissionId) data)])))
         (bg_emit (Reply received))))"

definition forget_submission :: "jv \<Rightarrow> jv \<Rightarrow> (worker, unit) js" where
  "forget_submission pending submissionId =
     bg_set [(''pendingSubmissions'', del_member pending (to_str submissionId))]"

text \<open>\<open>roundEndTime && Date.now() > roundEndTime\<close>\<close>

definition round_over :: "worker \<Rightarrow> bool" where
  "round_over w =
     (let e = session_get (wk_local w) ''roundEndTime'' in truthy e \<and> js_gt (JNum (wk_now w)) e)"

text \<open>The post runs after the callback has ended, so after the entry is deleted.\<close>

definition submission_result :: "jv \<Rightarrow> (worker, unit) js" where
  "submission_result data =
     bnd (lift (get data ''submissionId'')) (\<lambda>submissionId.
     bnd (lift (get data ''status_msg'')) (\<lambda>status_msg.
     seqm (bg_emit (Reply received))
     (bnd (asks pending_of) (\<lambda>pending.
      bnd (asks round_over) (\<lambda>over.
        (let pendingData = opt_get pending (to_str submissionId) in
         when_do (truthy pendingData)
           (seqm (forget_submission pending submissionId)
              (when_do (strict_eq status_msg (JStr ''Accepted'') \<and> \<not> over)
                 (when_configured (PostSubmission pendingData data))))))))))"

section \<open>The socket\<close>

definition room_known :: "worker \<Rightarrow> bool" where
  "room_known w \<longleftrightarrow> truthy (wk_activeRoomId w) \<and> truthy (wk_userProfile w)"

definition bg_handle :: "worker \<Rightarrow> jv" where
  "bg_handle w = JStr (to_str (opt_get (wk_userProfile w) ''id'') @ ''_bg'')"

definition bg_join :: "worker \<Rightarrow> (string \<times> jv) list" where
  "bg_join w = envelope (bg_handle w) ''join-room''
     [(''userHandle'', bg_handle w), (''roomID'', wk_activeRoomId w), (''suppressAnnouncement'', JBool True)]"

definition sendJoinRoom :: "worker \<Rightarrow> worker" where
  "sendJoinRoom w =
     (case wk_socket w of
        None \<Rightarrow> w
      | Some i \<Rightarrow>
          if bs_ready (wk_sockets w ! i) \<noteq> Open \<or> \<not> room_known w then w
          else w\<lparr>wk_sockets := (wk_sockets w)[i := (wk_sockets w ! i)
                   \<lparr>bs_sent := bs_sent (wk_sockets w ! i) @ [json_stringify (bg_join w)]\<rparr>]\<rparr>)"

definition new_socket :: "worker \<Rightarrow> worker" where
  "new_socket w = w\<lparr>wk_sockets := wk_sockets w @ [\<lparr>bs_url = wk_rtcUrl w, bs_ready = Connecting, bs_sent = []\<rparr>],
     wk_socket := Some (length (wk_sockets w))\<rparr>"

definition connectWebSocket :: "worker \<Rightarrow> worker" where
  "connectWebSocket w =
     (case wk_socket w of
        None \<Rightarrow> new_socket w
      | Some i \<Rightarrow>
          if bs_ready (wk_sockets w ! i) = Open then (if room_known w then sendJoinRoom w else w)
          else if bs_ready (wk_sockets w ! i) = Connecting then w
          else new_socket w)"

definition bg_onopen :: "worker \<Rightarrow> worker" where
  "bg_onopen w = (if room_known w then sendJoinRoom w else w)"

text \<open>Parsing of the data, which the server sends as text; \<open>None\<close>: not valid, ignored.\<close>

definition next_problem_data :: "jv \<Rightarrow> jv option" where
  "next_problem_data dataStr =
     (let data = (case dataStr of JStr s \<Rightarrow> json_parse s | v \<Rightarrow> Some v) in
      case data of None \<Rightarrow> None | Some v \<Rightarrow> if truthy v \<and> is_objectlike v then Some v else None)"

definition handleNextProblem :: "jv \<Rightarrow> (worker, unit) js" where
  "handleNextProblem dataStr = bnd (asks wk_userProfile) (\<lambda>me.
     case next_problem_data dataStr of
       None \<Rightarrow> ret ()
     | Some data \<Rightarrow>
         when_do (truthy me \<and> loose_eq (opt_get me ''id'') (opt_get data ''userHandle''))
           (seqm (bg_set [(''nextProblem'', opt_get data ''nextProblem'')])
           (seqm (bg_emit (Badge ''!'')) (bg_emit (BadgeColor ''#00FF00'')))))"

definition room_expired :: "(worker, unit) js" where
  "room_expired =
     seqm (bg_remove [''activeRoomId'', ''nextProblem'', ''roundEndTime''])
     (seqm (bg_emit (Badge []))
     (bnd (asks wk_notifications) (\<lambda>available.
        if available then bg_emit (Notify ''Your room has expired and been deleted.'') else throw type_error)))"

definition bg_onmessage :: "string \<Rightarrow> (worker, unit) js" where
  "bg_onmessage frame = catch
     (bnd (lift (case json_parse frame of None \<Rightarrow> Inl syntax_error | Some v \<Rightarrow> Inr v)) (\<lambda>response.
      bnd (lift (get response ''status'')) (\<lambda>status.
        if \<not> strict_eq status (JStr ''ok'') then ret ()
        else
          (let responseType = opt_get response ''responseType''; message = opt_get response ''message'' in
           if strict_eq responseType (JStr ''next-problem'') then
             when_do (truthy message \<and> truthy (opt_get message ''data'')) (handleNextProblem (opt_get message ''data''))
           else if strict_eq responseType (JStr ''round-end'') then
             seqm (bg_remove [''nextProblem'']) (bg_emit (Badge []))
           else if strict_eq responseType (JStr ''room-expired'') then room_expired
           else ret ()))))
     (\<lambda>e. ret ())"

definition bg_onclose :: "worker \<Rightarrow> worker" where
  "bg_onclose w = w\<lparr>wk_socket := None, wk_timers := Suc (wk_timers w), wk_trace := wk_trace w @ [ReconnectIn 5000]\<rparr>"

definition reconnect_timeout :: "worker \<Rightarrow> worker" where
  "reconnect_timeout w = (if truthy (wk_activeRoomId w) then connectWebSocket w else w)"

section \<open>Messages, storage and the configuration\<close>

definition touch_queue_op :: "(touch_queue \<Rightarrow> touch_queue) \<Rightarrow> (worker, unit) js" where
  "touch_queue_op f = modify (\<lambda>w. w\<lparr>wk_touch := f (wk_touch w)\<rparr>)"

definition on_message :: "jv \<Rightarrow> (worker, unit) js" where
  "on_message request =
     (let is_type = (\<lambda>t. strict_eq (opt_get request ''type'') (JStr t)) in
      if truthy request \<and> is_type ''COPY_TO_CLIPBOARD'' then
        bnd (doCopy (js_or (opt_get request ''text'') (JStr []))) (\<lambda>ok. bg_emit (Reply (JObj [(''ok'', ok)])))
      else bnd (lift (get request ''type'')) (\<lambda>_.
        if is_type ''CHECK_AUTH'' then when_configured AskUser
        else if is_type ''LOGOUT'' then when_configured EndSession
        else if is_type ''PROBLEM_PROGRESS_RESET'' then
          seqm (touch_queue_op (resetTouchedProblems (opt_get request ''roundKey''))) (bg_emit (Reply received))
        else if is_type ''PROBLEM_TOUCHED'' then
          seqm (touch_queue_op (markProblemTouched (opt_get request ''slug''))) (bg_emit (Reply received))
        else if is_type ''SUBMISSION_PENDING'' then submission_pending (opt_get request ''data'')
        else if is_type ''SUBMISSION_RESULT'' then submission_result (opt_get request ''data'')
        else ret ()))"

definition js_take :: "jv \<Rightarrow> string \<Rightarrow> string" where
  "js_take v old = (if truthy v then to_str v else old)"

text \<open>The startup read of the storage; \<open>finally\<close> resolves \<open>configReady\<close>, and what waited for it runs.\<close>

definition take_config :: "worker \<Rightarrow> worker" where
  "take_config w =
     (let stored = session_get (wk_local w);
          w1 = w\<lparr>wk_serverUrl := js_take (stored ''configServerUrl'') (wk_serverUrl w),
                 wk_rtcUrl := js_take (stored ''configRtcServiceUrl'') (wk_rtcUrl w),
                 wk_activeRoomId := js_or (stored ''activeRoomId'') (wk_activeRoomId w),
                 wk_userProfile := js_or (stored ''user'') (wk_userProfile w)\<rparr> in
      if room_known w1 then connectWebSocket w1 else w1)"

fun run_all :: "deferred list \<Rightarrow> worker \<Rightarrow> worker" where
  "run_all [] w = w"
| "run_all (d # ds) w = run_all ds (snd (run_deferred d w))"

definition config_loaded :: "bool \<Rightarrow> worker \<Rightarrow> worker" where
  "config_loaded ok w =
     (if wk_configReady w then w
      else
        (let w1 = (if ok then take_config w else w) in
         run_all (wk_deferred w1) (w1\<lparr>wk_configReady := True, wk_deferred := []\<rparr>)))"

definition reconnect_if_known :: "worker \<Rightarrow> worker" where
  "reconnect_if_known w = (if room_known w then connectWebSocket w else w)"

definition on_changed :: "jv \<Rightarrow> string \<Rightarrow> worker \<Rightarrow> worker" where
  "on_changed changes area w =
     (if area \<noteq> ''local'' then w
      else
        (let room = opt_get changes ''activeRoomId''; user = opt_get changes ''user'';
             w1 = (if truthy room then reconnect_if_known (w\<lparr>wk_activeRoomId := opt_get room ''newValue''\<rparr>) else w) in
         if truthy user then reconnect_if_known (w1\<lparr>wk_userProfile := opt_get user ''newValue''\<rparr>) else w1))"

text \<open>\<open>PanelWrites\<close>: another page of the extension writes to the shared storage.\<close>

datatype worker_event =
    Receive jv
  | ConfigLoaded bool
  | StorageChanged jv string
  | SocketOpen nat
  | SocketFrame nat string
  | SocketClose nat
  | ReconnectTimer
  | TouchRead bool
  | TouchWrote bool
  | PanelWrites "(string \<times> jv) list"
  | Clock int

fun worker_step :: "worker_event \<Rightarrow> worker \<Rightarrow> worker" where
  "worker_step (Receive m) w = snd (on_message m w)"
| "worker_step (ConfigLoaded ok) w = config_loaded ok w"
| "worker_step (StorageChanged changes area) w = on_changed changes area w"
| "worker_step (SocketOpen i) w =
     (if i < length (wk_sockets w) \<and> bs_ready (wk_sockets w ! i) = Connecting then bg_onopen (set_state i Open w) else w)"
| "worker_step (SocketFrame i frame) w =
     (if i < length (wk_sockets w) \<and> bs_ready (wk_sockets w ! i) = Open then snd (bg_onmessage frame w) else w)"
| "worker_step (SocketClose i) w =
     (if i < length (wk_sockets w) \<and> bs_ready (wk_sockets w ! i) \<noteq> Closed then bg_onclose (set_state i Closed w) else w)"
| "worker_step ReconnectTimer w =
     (case wk_timers w of 0 \<Rightarrow> w | Suc n \<Rightarrow> reconnect_timeout (w\<lparr>wk_timers := n\<rparr>))"
| "worker_step (TouchRead ok) w = w\<lparr>wk_touch := touch_step (ReadDone ok) (wk_touch w)\<rparr>"
| "worker_step (TouchWrote ok) w = w\<lparr>wk_touch := touch_step (WriteDone ok) (wk_touch w)\<rparr>"
| "worker_step (PanelWrites kvs) w = w\<lparr>wk_local := wk_local w ++ map_of kvs\<rparr>"
| "worker_step (Clock t) w = w\<lparr>wk_now := max (wk_now w) t\<rparr>"

text \<open>The state of a worker that has just been started on a given storage.\<close>

definition worker_start ::
  "(string \<rightharpoonup> jv) \<Rightarrow> session \<Rightarrow> (bg_effect list \<Rightarrow> request \<Rightarrow> http) \<Rightarrow> copy_env \<Rightarrow> bool \<Rightarrow> worker" where
  "worker_start stored m server env notifications =
     \<lparr>wk_local = stored, wk_touch = touchInit m, wk_server = server, wk_copy = env, wk_offscreenCreated = False,
      wk_serverUrl = PRODUCTION_SERVER_URL, wk_rtcUrl = PRODUCTION_RTC_URL, wk_configReady = False, wk_deferred = [],
      wk_sockets = [], wk_socket = None, wk_timers = 0, wk_activeRoomId = JNull, wk_userProfile = JNull, wk_now = 0,
      wk_notifications = notifications, wk_trace = []\<rparr>"

section \<open>What a script of the worker changes\<close>

text \<open>
  A script keeps the addresses in use and the readiness, and sends its requests to the server in use and
  only when the configuration is ready; with the flag it may rely on the readiness.
\<close>

definition sent_to :: "worker \<Rightarrow> bool" where
  "sent_to w \<longleftrightarrow> (\<forall>r. BgFetch r \<in> set (wk_trace w) \<longrightarrow> wk_configReady w \<and> starts_with (rq_url r) (wk_serverUrl w))"

definition addressed :: "worker \<Rightarrow> worker \<Rightarrow> bool" where
  "addressed w w' \<longleftrightarrow> (sent_to w \<longrightarrow> sent_to w') \<and> wk_serverUrl w' = wk_serverUrl w \<and> wk_configReady w' = wk_configReady w"

definition obeys :: "bool \<Rightarrow> (worker, 'a) js \<Rightarrow> bool" where
  "obeys b m \<longleftrightarrow> (\<forall>w. (b \<longrightarrow> wk_configReady w) \<longrightarrow> addressed w (snd (m w)))"

named_theorems obeys_intro \<open>rules for \<open>obeys\<close>\<close>

lemma addressed_refl [simp]: "addressed w w"
  by (simp add: addressed_def)

lemma addressed_trans: "addressed u v \<Longrightarrow> addressed v w \<Longrightarrow> addressed u w"
  by (simp add: addressed_def)

lemma addressed_ready: "addressed w w' \<Longrightarrow> wk_configReady w' = wk_configReady w"
  by (simp add: addressed_def)

lemma addressed_same:
  "wk_trace w' = wk_trace w \<Longrightarrow> wk_serverUrl w' = wk_serverUrl w \<Longrightarrow> wk_configReady w' = wk_configReady w \<Longrightarrow> addressed w w'"
  by (simp add: addressed_def sent_to_def)

lemma obeysD: "obeys b m \<Longrightarrow> (b \<longrightarrow> wk_configReady w) \<Longrightarrow> addressed w (snd (m w))"
  by (simp add: obeys_def)

lemma obeys_pure [obeys_intro]:
  "obeys b (ret x)" "obeys b (throw e)" "obeys b (lift r)" "obeys b (asks g)" "obeys b (bg_get k)"
  "obeys b (bg_set kvs)" "obeys b (bg_remove ks)"
  by (simp_all add: obeys_def addressed_same)

lemma obeys_emits [obeys_intro]:
  "obeys b (bg_emit (Reply v))" "obeys b (bg_emit (Badge t))" "obeys b (bg_emit (BadgeColor t))"
  "obeys b (bg_emit (Notify t))" "obeys b (bg_emit (Clipboard t))"
  by (simp_all add: obeys_def addressed_def sent_to_def)

lemma obeys_modify: "(\<And>w. addressed w (f w)) \<Longrightarrow> obeys b (modify f)"
  by (simp add: obeys_def)

lemma obeys_bnd [obeys_intro]:
  assumes "obeys b m" "\<And>x. obeys b (k x)"
  shows "obeys b (bnd m k)"
  unfolding obeys_def
proof (intro allI impI)
  fix w :: worker assume r: "b \<longrightarrow> wk_configReady w"
  obtain v w' where m: "m w = (v, w')" by fastforce
  with obeysD [OF assms(1) r] have a: "addressed w w'" by simp
  then have "b \<longrightarrow> wk_configReady w'" using r by (simp add: addressed_ready)
  then show "addressed w (snd (bnd m k w))"
    using m a obeysD [OF assms(2)] by (cases v) (auto simp: bnd_def intro: addressed_trans)
qed

lemma obeys_seqm [obeys_intro]: "obeys b m \<Longrightarrow> obeys b n \<Longrightarrow> obeys b (seqm m n)"
  unfolding seqm_def by (rule obeys_bnd)

lemma obeys_catch [obeys_intro]:
  assumes "obeys b m" "\<And>e. obeys b (h e)"
  shows "obeys b (catch m h)"
  unfolding obeys_def
proof (intro allI impI)
  fix w :: worker assume r: "b \<longrightarrow> wk_configReady w"
  obtain v w' where m: "m w = (v, w')" by fastforce
  with obeysD [OF assms(1) r] have a: "addressed w w'" by simp
  then have "b \<longrightarrow> wk_configReady w'" using r by (simp add: addressed_ready)
  then show "addressed w (snd (catch m h w))"
    using m a obeysD [OF assms(2)] by (cases v) (auto simp: catch_def intro: addressed_trans)
qed

lemma obeys_when_do [obeys_intro]: "obeys b m \<Longrightarrow> obeys b (when_do c m)"
  by (cases c) (simp_all add: obeys_pure)

lemma obeys_if [obeys_intro]: "(c \<Longrightarrow> obeys b m) \<Longrightarrow> (\<not> c \<Longrightarrow> obeys b n) \<Longrightarrow> obeys b (if c then m else n)"
  by simp

lemma obeys_res_json [obeys_intro]: "obeys b (res_json r)"
  by (simp add: res_json_def obeys_pure split: option.split)

lemma obeys_fetch [obeys_intro]: "obeys True (bg_fetch verb path body)"
  by (auto simp: obeys_def bg_fetch_def addressed_def sent_to_def Let_def split: http.split)

lemma addressed_sockets [simp]:
  "addressed w (drop_socket w')  = addressed w w'" "addressed w (set_state i r w') = addressed w w'"
  "addressed w (sendJoinRoom w') = addressed w w'" "addressed w (connectWebSocket w') = addressed w w'"
  "addressed w (bg_onopen w') = addressed w w'" "addressed w (reconnect_if_known w') = addressed w w'"
  by (simp_all add: drop_socket_def set_state_def sendJoinRoom_def connectWebSocket_def new_socket_def bg_onopen_def
      reconnect_if_known_def addressed_def sent_to_def split: option.split)

lemma addressed_update [simp]:
  "addressed w (w'\<lparr>wk_activeRoomId := x\<rparr>) = addressed w w'" "addressed w (w'\<lparr>wk_userProfile := x\<rparr>) = addressed w w'"
  "addressed w (w'\<lparr>wk_local := l\<rparr>) = addressed w w'" "addressed w (w'\<lparr>wk_touch := t\<rparr>) = addressed w w'"
  "addressed w (w'\<lparr>wk_offscreenCreated := b\<rparr>) = addressed w w'" "addressed w (w'\<lparr>wk_timers := n\<rparr>) = addressed w w'"
  "addressed w (w'\<lparr>wk_now := i\<rparr>) = addressed w w'" "addressed w (w'\<lparr>wk_deferred := ds\<rparr>) = addressed w w'"
  by (simp_all add: addressed_def sent_to_def)

lemma obeys_deferred: "obeys True (run_deferred d)"
proof (cases d)
  case AskUser
  show ?thesis unfolding AskUser run_deferred.simps check_auth_def by (auto intro!: obeys_intro)
next
  case EndSession
  show ?thesis
    unfolding EndSession run_deferred.simps end_session_def finish_logout_def by (auto intro!: obeys_intro obeys_modify)
next
  case (PostSubmission p q)
  show ?thesis unfolding PostSubmission run_deferred.simps post_submission_def by (auto intro!: obeys_intro)
qed

lemma obeys_when_configured [obeys_intro]: "obeys False (when_configured d)"
  using obeysD [OF obeys_deferred] by (auto simp: obeys_def when_configured_def)

lemma obeys_option [obeys_intro]: "(v = None \<Longrightarrow> obeys b m) \<Longrightarrow> (\<And>x. obeys b (n x)) \<Longrightarrow> obeys b (case v of None \<Rightarrow> m | Some x \<Rightarrow> n x)"
  by (cases v) auto

lemma obeys_sum [obeys_intro]: "(\<And>e. obeys b (m e)) \<Longrightarrow> (\<And>x. obeys b (n x)) \<Longrightarrow> obeys b (case v of Inl e \<Rightarrow> m e | Inr x \<Rightarrow> n x)"
  by (cases v) auto

lemma obeys_handlers:
  "obeys False (doCopy text)" "obeys False (handleNextProblem dataStr)" "obeys False room_expired"
  "obeys False (submission_pending data)" "obeys False (submission_result data)" "obeys False (touch_queue_op f)"
  unfolding doCopy_def ensureOffscreen_def write_clipboard_def handleNextProblem_def room_expired_def
    submission_pending_def submission_result_def forget_submission_def touch_queue_op_def Let_def
  by (intro obeys_intro obeys_modify; simp)+

lemma obeys_on_message: "obeys False (on_message m)"
  unfolding on_message_def Let_def by (intro obeys_intro obeys_handlers)

lemma obeys_bg_onmessage: "obeys False (bg_onmessage frame)"
  unfolding bg_onmessage_def Let_def by (intro obeys_intro obeys_handlers)

text \<open>The requests sent so far, and the invariant that there are none before the configuration is read.\<close>

lemma run_all_addressed: "wk_configReady w \<Longrightarrow> addressed w (run_all ds w)"
proof (induction ds arbitrary: w)
  case (Cons d ds)
  have a: "addressed w (snd (run_deferred d w))" using Cons.prems by (intro obeysD [OF obeys_deferred]) simp
  with Cons show ?case by (auto intro: addressed_trans simp: addressed_ready)
qed simp

lemma addressed_sent: "addressed w w' \<Longrightarrow> sent_to w \<Longrightarrow> sent_to w'"
  by (simp add: addressed_def)

lemma take_config_same [simp]:
  "wk_trace (take_config w) = wk_trace w" "wk_configReady (take_config w) = wk_configReady w"
  by (simp_all add: take_config_def Let_def connectWebSocket_def new_socket_def sendJoinRoom_def split: option.split)

lemma sent_to_config_loaded:
  assumes "sent_to w"
  shows "sent_to (config_loaded ok w)"
proof (cases "wk_configReady w")
  case True
  then show ?thesis using assms by (simp add: config_loaded_def)
next
  case False
  let ?w = "if ok then take_config w else w"
  let ?v = "?w\<lparr>wk_configReady := True, wk_deferred := []\<rparr>"
  have "sent_to ?v" using assms False by (auto simp: sent_to_def)
  moreover have "addressed ?v (run_all (wk_deferred ?w) ?v)" by (rule run_all_addressed) simp
  ultimately show ?thesis using False by (simp add: config_loaded_def Let_def addressed_sent)
qed

lemma addressed_on_changed: "addressed w (on_changed changes area w)"
  by (simp add: on_changed_def Let_def)

lemma sent_to_step: "sent_to w \<Longrightarrow> sent_to (worker_step e w)"
proof (cases e)
  case (Receive m)
  assume "sent_to w"
  then show ?thesis using obeysD [OF obeys_on_message, of w m] by (simp add: Receive addressed_sent)
next
  case (SocketFrame i frame)
  assume "sent_to w"
  then show ?thesis using obeysD [OF obeys_bg_onmessage, of w frame] by (auto simp: SocketFrame intro: addressed_sent)
next
  case (StorageChanged changes area)
  assume "sent_to w"
  then show ?thesis using addressed_on_changed by (auto simp: StorageChanged intro: addressed_sent)
next
  case (ConfigLoaded ok)
  assume "sent_to w"
  then show ?thesis by (simp add: ConfigLoaded sent_to_config_loaded)
next
  case ReconnectTimer
  assume "sent_to w"
  moreover have "addressed w (worker_step e w)"
    by (simp add: ReconnectTimer reconnect_timeout_def split: nat.split)
  ultimately show ?thesis by (rule addressed_sent [rotated])
next
  case (SocketOpen i)
  assume "sent_to w"
  moreover have "addressed w (worker_step e w)" by (simp add: SocketOpen)
  ultimately show ?thesis by (rule addressed_sent [rotated])
qed (auto simp: sent_to_def bg_onclose_def set_state_def)

interpretation background: machine "worker_start stored m server env notifications" worker_step sent_to
  for stored m server env notifications
  by unfold_locales (simp add: sent_to_def worker_start_def, rule sent_to_step)

text \<open>
  C27: no request leaves before the stored configuration has been read, and every request goes to the
  server in use; reading the configuration puts the stored address in place of the production one. A
  worker that was started by a message so never asks the wrong server.
\<close>

theorem requests_wait_for_config:
  assumes "reaches worker_step (worker_start stored m server env notifications) w"
  shows "(BgFetch r \<in> set (wk_trace w) \<longrightarrow> wk_configReady w \<and> starts_with (rq_url r) (wk_serverUrl w)) \<and>
    (\<not> wk_configReady w \<longrightarrow>
       wk_serverUrl (worker_step (ConfigLoaded True) w) = js_take (session_get (wk_local w) ''configServerUrl'') (wk_serverUrl w))"
proof
  show "BgFetch r \<in> set (wk_trace w) \<longrightarrow> wk_configReady w \<and> starts_with (rq_url r) (wk_serverUrl w)"
    using background.inv_reachable [OF assms] by (simp add: sent_to_def)
  show "\<not> wk_configReady w \<longrightarrow>
       wk_serverUrl (worker_step (ConfigLoaded True) w) = js_take (session_get (wk_local w) ''configServerUrl'') (wk_serverUrl w)"
  proof
    assume n: "\<not> wk_configReady w"
    let ?v = "(take_config w)\<lparr>wk_configReady := True, wk_deferred := []\<rparr>"
    have "wk_serverUrl (run_all ds ?v) = wk_serverUrl ?v" for ds
      using run_all_addressed [of ?v ds] by (simp add: addressed_def)
    then show "wk_serverUrl (worker_step (ConfigLoaded True) w) = js_take (session_get (wk_local w) ''configServerUrl'') (wk_serverUrl w)"
      using n by (simp add: config_loaded_def Let_def take_config_def connectWebSocket_def new_socket_def sendJoinRoom_def
          split: option.split)
  qed
qed

theorem requests_wait_for_config_witness:
  "\<forall>r m server env. BgFetch r \<notin> set (wk_trace (run worker_step [Receive (JObj [(''type'', JStr ''LOGOUT'')])]
     (worker_start Map.empty m server env True)))"
proof (intro allI)
  fix r m server env
  let ?start = "worker_start Map.empty m server env True"
  let ?w = "run worker_step [Receive (JObj [(''type'', JStr ''LOGOUT'')])] ?start"
  have "reaches worker_step ?start ?w" unfolding reaches_iff_run by blast
  moreover have "\<not> wk_configReady ?w"
    by (simp add: on_message_def Let_def worker_start_def when_configured_def obj_lookup_def)
  ultimately show "BgFetch r \<notin> set (wk_trace ?w)" using requests_wait_for_config [of Map.empty m server env True ?w r] by simp
qed

section \<open>The touched problems inside the worker\<close>

text \<open>The part of an event that the chain of the touched problems sees.\<close>

definition message_type :: "jv \<Rightarrow> string \<Rightarrow> bool" where
  "message_type m t \<longleftrightarrow> strict_eq (opt_get m ''type'') (JStr t)"

fun touch_view :: "worker_event \<Rightarrow> touch_event list" where
  "touch_view (Receive m) =
     (if message_type m ''PROBLEM_PROGRESS_RESET'' then [RoundReset (opt_get m ''roundKey'')]
      else if message_type m ''PROBLEM_TOUCHED'' then [Touched (opt_get m ''slug'')] else [])"
| "touch_view (TouchRead ok) = [ReadDone ok]"
| "touch_view (TouchWrote ok) = [WriteDone ok]"
| "touch_view _ = []"

lemma touch_frame_basic [frame_intro]:
  "preserves wk_touch (bg_emit e)" "preserves wk_touch (bg_get k)" "preserves wk_touch (bg_set kvs)"
  "preserves wk_touch (bg_remove ks)" "preserves wk_touch (bg_fetch verb path body)"
  by (simp_all add: preserves_def) (simp add: bg_fetch_def Let_def split: http.split)

lemma touch_frame_modify: "(\<And>w. wk_touch (f w) = wk_touch w) \<Longrightarrow> preserves wk_touch (modify f)"
  by (simp add: preserves_def)

lemma touch_sockets [simp]:
  "wk_touch (drop_socket w) = wk_touch w" "wk_touch (set_state i r w) = wk_touch w" "wk_touch (sendJoinRoom w) = wk_touch w"
  "wk_touch (connectWebSocket w) = wk_touch w" "wk_touch (bg_onopen w) = wk_touch w" "wk_touch (bg_onclose w) = wk_touch w"
  "wk_touch (reconnect_if_known w) = wk_touch w"
  by (simp_all add: drop_socket_def set_state_def sendJoinRoom_def connectWebSocket_def new_socket_def bg_onopen_def
      bg_onclose_def reconnect_if_known_def split: option.split)

lemma touch_option [frame_intro]:
  "preserves f m \<Longrightarrow> (\<And>x. preserves f (n x)) \<Longrightarrow> preserves f (case v of None \<Rightarrow> m | Some x \<Rightarrow> n x)"
  by (cases v) auto

lemma touch_sum [frame_intro]:
  "(\<And>e. preserves f (m e)) \<Longrightarrow> (\<And>x. preserves f (n x)) \<Longrightarrow> preserves f (case v of Inl e \<Rightarrow> m e | Inr x \<Rightarrow> n x)"
  by (cases v) auto

lemma touch_deferred: "preserves wk_touch (run_deferred d)"
  by (cases d) (auto simp: check_auth_def end_session_def finish_logout_def post_submission_def
      intro!: frame_intro touch_frame_modify)

lemma touch_when_configured [frame_intro]: "preserves wk_touch (when_configured d)"
  using preservesD [OF touch_deferred] by (simp add: preserves_def when_configured_def)

lemma touch_handlers [frame_intro]:
  "preserves wk_touch (doCopy text)" "preserves wk_touch (handleNextProblem dataStr)" "preserves wk_touch room_expired"
  "preserves wk_touch (submission_pending data)" "preserves wk_touch (submission_result data)"
  unfolding doCopy_def ensureOffscreen_def write_clipboard_def handleNextProblem_def room_expired_def
    submission_pending_def submission_result_def forget_submission_def Let_def
  by (intro frame_intro touch_frame_modify; simp)+

lemma touch_queue_op_act [simp]:
  "seqm (touch_queue_op f) n w = n (w\<lparr>wk_touch := f (wk_touch w)\<rparr>)"
  by (simp add: touch_queue_op_def)

lemma message_type_truthy: "message_type m t \<Longrightarrow> truthy m"
  by (cases m) (auto simp: message_type_def)

lemma message_type_get: "message_type m t \<Longrightarrow> get m ''type'' = Inr (opt_get m ''type'')"
  by (rule get_Inr) (auto dest!: message_type_truthy simp: truthy_not_nullish)

lemma touch_on_message:
  "wk_touch (snd (on_message m w)) = run touch_step (touch_view (Receive m)) (wk_touch w)"
proof -
  consider (reset) "message_type m ''PROBLEM_PROGRESS_RESET''" | (mark) "message_type m ''PROBLEM_TOUCHED''"
    | (other) "\<not> message_type m ''PROBLEM_PROGRESS_RESET''" "\<not> message_type m ''PROBLEM_TOUCHED''" by blast
  then show ?thesis
  proof cases
    case reset
    then have "opt_get m ''type'' = JStr ''PROBLEM_PROGRESS_RESET''" by (simp add: message_type_def)
    then show ?thesis by (simp add: on_message_def Let_def message_type_def message_type_get [OF reset])
  next
    case mark
    then have "opt_get m ''type'' = JStr ''PROBLEM_TOUCHED''" by (simp add: message_type_def)
    then show ?thesis by (simp add: on_message_def Let_def message_type_def message_type_get [OF mark])
  next
    case other
    then have "preserves wk_touch (on_message m)"
      unfolding on_message_def Let_def message_type_def [symmetric]
      by (auto intro!: frame_intro)
    with other show ?thesis by (simp add: preserves_def)
  qed
qed

lemma touch_bg_onmessage: "preserves wk_touch (bg_onmessage frame)"
  unfolding bg_onmessage_def Let_def by (auto intro!: frame_intro)

lemma touch_config_loaded: "wk_touch (config_loaded ok w) = wk_touch w"
proof -
  have "wk_touch (run_all ds v) = wk_touch v" for ds v
    by (induction ds arbitrary: v) (simp_all add: preservesD [OF touch_deferred])
  then show ?thesis by (simp add: config_loaded_def take_config_def Let_def)
qed

text \<open>The chain of the touched problems is a component of the worker: it moves with its own events only.\<close>

lemma touch_simulation: "wk_touch (worker_step e w) = run touch_step (touch_view e) (wk_touch w)"
proof (cases e)
  case (Receive m)
  then show ?thesis by (simp only: worker_step.simps touch_on_message)
qed (simp_all add: preservesD [OF touch_bg_onmessage] touch_config_loaded on_changed_def reconnect_timeout_def Let_def
    split: nat.split)

lemma touch_simulation_run:
  "wk_touch (run worker_step es w) = run touch_step (concat (map touch_view es)) (wk_touch w)"
proof (induction es arbitrary: w)
  case (Cons e es)
  then show ?case by (simp only: run_Cons list.map concat.simps run_append touch_simulation)
qed simp

section \<open>Submissions reach the server once\<close>

definition requests :: "worker \<Rightarrow> request list" where
  "requests w = List.map_filter (\<lambda>e. case e of BgFetch r \<Rightarrow> Some r | _ \<Rightarrow> None) (wk_trace w)"

definition submission_request :: "worker \<Rightarrow> jv \<Rightarrow> jv \<Rightarrow> request" where
  "submission_request w pendingData data =
     \<lparr>rq_method = ''POST'', rq_url = wk_serverUrl w @ ''/submission'',
      rq_body = Some (json_stringify (submission_body pendingData data)), rq_credentials = True\<rparr>"

lemma requests_append [simp]:
  "requests (w\<lparr>wk_trace := wk_trace w' @ [Reply v]\<rparr>) = requests (w\<lparr>wk_trace := wk_trace w'\<rparr>)"
  "requests (w\<lparr>wk_trace := wk_trace w' @ [BgFetch r]\<rparr>) = requests (w\<lparr>wk_trace := wk_trace w'\<rparr>) @ [r]"
  by (simp_all add: requests_def map_filter_def)

lemma requests_same: "wk_trace w' = wk_trace w \<Longrightarrow> requests w' = requests w"
  by (simp add: requests_def)

lemma post_submission_act:
  "snd (post_submission p d w) = w\<lparr>wk_trace := wk_trace w @ [BgFetch (submission_request w p d)]\<rparr>"
  by (simp add: post_submission_def bg_fetch_def submission_request_def Let_def catch_def bnd_def split: http.split)

definition pending_entry :: "worker \<Rightarrow> jv \<Rightarrow> jv" where
  "pending_entry w submissionId = opt_get (pending_of w) (to_str submissionId)"

lemma obj_lookup_del: "obj_lookup (filter (\<lambda>p. fst p \<noteq> k) fs) k = JUndef"
  by (induction fs) (auto simp: obj_lookup_def split: if_splits)

lemma forgotten:
  assumes "pending_of w = JObj fs" "session_get (wk_local w') ''pendingSubmissions'' = del_member (pending_of w) k"
  shows "opt_get (pending_of w') k = JUndef"
  using assms by (simp add: pending_of_def [of w'] del_member_def obj_lookup_del js_or_def)

definition answered :: "worker \<Rightarrow> worker" where
  "answered w = w\<lparr>wk_trace := wk_trace w @ [Reply received]\<rparr>"

definition forgot :: "jv \<Rightarrow> worker \<Rightarrow> worker" where
  "forgot sid w = (answered w)\<lparr>wk_local := (wk_local w)(''pendingSubmissions'' \<mapsto> del_member (pending_of w) (to_str sid))\<rparr>"

definition reportable :: "worker \<Rightarrow> jv \<Rightarrow> jv \<Rightarrow> bool" where
  "reportable w sid data \<longleftrightarrow>
     truthy (pending_entry w sid) \<and> opt_get data ''status_msg'' = JStr ''Accepted'' \<and> \<not> round_over w"

lemma after_answer [simp]:
  "pending_of (w\<lparr>wk_trace := t\<rparr>) = pending_of w" "round_over (w\<lparr>wk_trace := t\<rparr>) = round_over w"
  by (simp_all add: pending_of_def round_over_def)

lemma submission_result_act:
  assumes "wk_configReady w" "get d ''submissionId'' = Inr sid"
  shows "snd (submission_result d w) =
    (if \<not> truthy (pending_entry w sid) then answered w
     else if reportable w sid d then
       (forgot sid w)\<lparr>wk_trace := wk_trace w @ [Reply received, BgFetch (submission_request w (pending_entry w sid) d)]\<rparr>
     else forgot sid w)"
proof -
  have r: "snd (when_configured u v) = snd (run_deferred u v)" if "wk_configReady v" for u v
    using that by (simp add: when_configured_def)
  have "get d ''status_msg'' = Inr (opt_get d ''status_msg'')"
    using assms(2) by (cases d) (simp_all add: opt_get_def)
  then show ?thesis
    using assms
    by (simp add: submission_result_def Let_def forget_submission_def reportable_def pending_entry_def answered_def
        forgot_def r post_submission_act submission_request_def when_do_def)
qed

lemma requests_result:
  assumes "wk_configReady w" "get d ''submissionId'' = Inr sid"
  shows "requests (snd (submission_result d w)) = requests w @
     (if reportable w sid d then [submission_request w (pending_entry w sid) d] else [])"
  unfolding submission_result_act [OF assms]
  by (auto simp: requests_def map_filter_def answered_def forgot_def reportable_def)

lemma not_reportable_again:
  assumes "wk_configReady w" "get d ''submissionId'' = Inr sid" "pending_of w = JObj fs"
  shows "\<not> reportable (snd (submission_result d w)) sid d"
proof -
  let ?w = "snd (submission_result d w)"
  have "truthy (pending_entry w sid) \<Longrightarrow>
      session_get (wk_local ?w) ''pendingSubmissions'' = del_member (pending_of w) (to_str sid)"
    unfolding submission_result_act [OF assms(1,2)] by (simp add: forgot_def session_get_def)
  then have "\<not> truthy (pending_entry ?w sid)"
    using forgotten [OF assms(3), of ?w "to_str sid"]
    by (cases "truthy (pending_entry w sid)")
       (simp_all add: pending_entry_def, simp add: submission_result_act [OF assms(1,2)] pending_entry_def answered_def)
  then show ?thesis by (simp add: reportable_def)
qed


definition accepted_77 :: jv where
  "accepted_77 = JObj [(''submissionId'', JStr ''77''), (''status_msg'', JStr ''Accepted'')]"

definition no_copy :: copy_env where
  "no_copy = \<lparr>ce_offscreen = False, ce_hasDocument = Inr False, ce_createDocument = Inr (), ce_answer = Inr,
     ce_clipboard = False, ce_writeText = (\<lambda>t. Inr ())\<rparr>"

definition pending_demo :: worker where
  "pending_demo = (worker_start [''pendingSubmissions'' \<mapsto> JObj [(''77'', JObj [(''problemSlug'', JStr ''two-sum'')])]]
     Map.empty (\<lambda>h r. Response 201 None) no_copy True)\<lparr>wk_configReady := True\<rparr>"


section \<open>Signing out, signing in and the next problem\<close>

lemma end_session_act: "end_session w = finish_logout (snd (bg_fetch ''POST'' ''/auth/logout'' None w))"
proof (cases "bg_fetch ''POST'' ''/auth/logout'' None w")
  case (Pair v w')
  then show ?thesis by (cases v) (simp_all add: end_session_def seqm_def bnd_def catch_def)
qed



text \<open>
  The panel is told that a user is signed in exactly when the server confirms it with a readable
  answer, and then the stored user is the confirmed one; otherwise the stored user is deleted. The
  answer is the last effect of the check, and there is one.
\<close>

theorem auth_answer_matches_server:
  fixes w
  defines "r \<equiv> \<lparr>rq_method = ''GET'', rq_url = wk_serverUrl w @ ''/auth/user'', rq_body = None, rq_credentials = True\<rparr>"
  assumes "wk_configReady w"
    and "\<And>e. wk_server w (wk_trace w) r = NetError e \<Longrightarrow> \<not> is_nullish e"
  defines "w' \<equiv> worker_step (Receive (JObj [(''type'', JStr ''CHECK_AUTH'')])) w"
  shows "(case wk_server w (wk_trace w) r of
      Response st (Some user) \<Rightarrow>
        if 200 \<le> st \<and> st \<le> 299
        then wk_trace w' = wk_trace w @ [BgFetch r, Reply (JObj [(''success'', JBool True), (''user'', user)])] \<and>
             wk_local w' ''user'' = Some user
        else wk_local w' ''user'' = None \<and> (\<exists>msg. wk_trace w' = wk_trace w @ [BgFetch r, Reply (JObj [(''success'', JBool False), (''error'', msg)])])
    | _ \<Rightarrow> wk_local w' ''user'' = None \<and> (\<exists>msg. wk_trace w' = wk_trace w @ [BgFetch r, Reply (JObj [(''success'', JBool False), (''error'', msg)])]))"
proof -
  have w': "w' = snd (check_auth w)"
    using assms(2) by (simp add: w'_def on_message_def Let_def when_configured_def)
  have e: "get (mk_error n t) ''message'' = Inr (JStr t)" for n t
    by (simp add: mk_error_def obj_lookup_def)
  show ?thesis
  proof (cases "wk_server w (wk_trace w) r")
    case (NetError x)
    then have "get x ''message'' = Inr (opt_get x ''message'')" using assms(3) by (simp add: get_Inr)
    with NetError show ?thesis
      by (simp add: w' check_auth_def bg_fetch_def Let_def catch_def bnd_def r_def)
  next
    case (Response st body)
    then show ?thesis
      by (cases body)
         (auto simp: w' check_auth_def bg_fetch_def Let_def catch_def bnd_def r_def res_ok_def res_json_def
            syntax_error_def e)
  qed
qed

theorem auth_answer_matches_server_witness:
  "wk_local (worker_step (Receive (JObj [(''type'', JStr ''CHECK_AUTH'')])) pending_demo) ''user'' = None"
proof -
  have "wk_configReady pending_demo" by (simp add: pending_demo_def)
  from auth_answer_matches_server [OF this] show ?thesis by (simp add: pending_demo_def worker_start_def)
qed

text \<open>
  The worker stores a next problem only for the user it is addressed to; every other frame leaves the
  stored next problem as it is or removes it.
\<close>

theorem worker_next_problem_addressed:
  fixes w i frame
  assumes "i < length (wk_sockets w)" "bs_ready (wk_sockets w ! i) = Open"
  defines "w' \<equiv> worker_step (SocketFrame i frame) w"
  shows "wk_local w' ''nextProblem'' = wk_local w ''nextProblem'' \<or> wk_local w' ''nextProblem'' = None \<or>
    (\<exists>data. wk_local w' ''nextProblem'' = Some (opt_get data ''nextProblem'') \<and> truthy (wk_userProfile w) \<and>
       loose_eq (opt_get (wk_userProfile w) ''id'') (opt_get data ''userHandle''))"
proof -
  let ?P = "\<lambda>v :: worker. wk_local v ''nextProblem'' = wk_local w ''nextProblem'' \<or> wk_local v ''nextProblem'' = None \<or>
    (\<exists>data. wk_local v ''nextProblem'' = Some (opt_get data ''nextProblem'') \<and> truthy (wk_userProfile w) \<and>
       loose_eq (opt_get (wk_userProfile w) ''id'') (opt_get data ''userHandle''))"
  have h: "?P (snd (handleNextProblem d w))" for d
    by (cases "next_problem_data d") (auto simp: handleNextProblem_def when_do_def)
  have x: "?P (snd (room_expired w))" by (simp add: room_expired_def)
  have c: "snd (catch m (\<lambda>e. ret ()) w) = snd (m w)" for m :: "(worker, unit) js" by (rule snd_catch_ret)
  have "?P (snd (bg_onmessage frame w))"
    unfolding bg_onmessage_def c
    using h x by (auto simp: bnd_def lift_def when_do_def Let_def split: option.split sum.split prod.split)
  then show ?thesis using assms(1,2) by (simp add: w'_def)
qed

definition socket_demo :: worker where
  "socket_demo = pending_demo\<lparr>wk_sockets := [\<lparr>bs_url = ''wss://api/ws'', bs_ready = Open, bs_sent = []\<rparr>], wk_socket := Some 0\<rparr>"

theorem worker_next_problem_addressed_witness:
  "let v = wk_local (worker_step (SocketFrame 0 ''{}'') socket_demo) ''nextProblem'' in
   v = wk_local socket_demo ''nextProblem'' \<or> v = None \<or> (\<exists>data. v = Some (opt_get data ''nextProblem''))"
proof -
  have "0 < length (wk_sockets socket_demo)" "bs_ready (wk_sockets socket_demo ! 0) = Open"
    by (simp_all add: socket_demo_def)
  from worker_next_problem_addressed [OF this, of "''{}''"] show ?thesis unfolding Let_def by blast
qed

section \<open>A late close event\<close>

text \<open>
  The close handler clears the module's \<open>socket\<close> variable whichever socket it belongs to: when a new
  socket is opened before the old one has finished closing, the late close event detaches the new socket
  and the reconnection opens a further one beside it.
\<close>

lemma late_close_opens_second:
  fixes w
  assumes "wk_sockets w = [a, b]" "bs_ready a = Closing" "bs_ready b = Open" "wk_socket w = Some 1"
    "truthy (wk_activeRoomId w)" "wk_timers w = 0"
  defines "w' \<equiv> run worker_step [SocketClose 0, ReconnectTimer] w"
  shows "length (wk_sockets w') = 3 \<and> bs_ready (wk_sockets w' ! 1) = Open \<and> wk_socket w' = Some 2"
  using assms
  by (simp add: w'_def bg_onclose_def set_state_def reconnect_timeout_def connectWebSocket_def new_socket_def)

end
