(* ===== verification/Room_Events.thy ===== *)
theory Room_Events
  imports Room_Init
begin

text \<open>
  The reaction of the panel to the game events of its room (\<open>hooks/useRoomEvents.ts\<close>): setting a
  round up, resuming it after a reload, the moves of the tab, the end of a round, leaving, and the
  three buttons. \<open>me\<close> and \<open>rid\<close> are the user and the room id of the render an effect closes over.
  Calls that the source does not await run to their end where they are made; a callback handed to
  \<open>setTimeout\<close> is a definition of its own.
\<close>

section \<open>Setting a round up\<close>

definition setNextProblem :: "jv \<Rightarrow> (world, unit) js" where
  "setNextProblem v = modify (\<lambda>w. w\<lparr>w_nextProblem := v\<rparr>)"

definition has_start_time :: "jv \<Rightarrow> bool" where
  "has_start_time data = (truthy data \<and> is_objectlike data \<and> truthy (opt_get data ''startTime''))"

definition round_problems :: "jv \<Rightarrow> string list" where
  "round_problems data =
     (if has_start_time data then slugs_of (js_or (opt_get data ''problems'') (JArr [])) else [])"

definition duration_ms :: "jv \<Rightarrow> jv" where
  "duration_ms data = js_mul (js_mul (opt_get data ''duration'') (JNum 60)) (JNum 1000)"

definition round_end_time :: "int \<Rightarrow> jv \<Rightarrow> jv" where
  "round_end_time now data =
     (if has_start_time data then
        if truthy (opt_get data ''serverNow'') then
          js_add
            (js_add (JNum now)
              (js_mul (js_sub (opt_get data ''startTime'') (opt_get data ''serverNow'')) (JNum 1000)))
            (duration_ms data)
        else
          js_add (js_mul (opt_get data ''startTime'') (JNum 1000)) (duration_ms data)
      else JNum (now + 30 * 60 * 1000))"

definition round_key :: "jv \<Rightarrow> jv \<Rightarrow> string list \<Rightarrow> string" where
  "round_key rid data ps =
     (if truthy (opt_get data ''startTime'')
      then to_str rid @ ''|'' @ to_str (opt_get data ''startTime'')
      else to_str rid @ ''|legacy|'' @ (if join ''|'' ps = [] then ''round'' else join ''|'' ps))"

text \<open>Every end and every leaving has a key of its own.\<close>

definition ended_key :: "jv \<Rightarrow> int \<Rightarrow> string" where
  "ended_key rid now = to_str rid @ ''|ended|'' @ show_int now"

definition left_key :: "jv \<Rightarrow> int \<Rightarrow> string" where
  "left_key rid now = to_str rid @ ''|left|'' @ show_int now"

definition progress_reset :: "string \<Rightarrow> (world, unit) js" where
  "progress_reset key = in_chrome (emit (SendMessage
     (JObj [(''type'', JStr ''PROBLEM_PROGRESS_RESET''), (''roundKey'', JStr key)])))"

definition applyRoundData :: "jv \<Rightarrow> jv \<Rightarrow> (world, unit) js" where
  "applyRoundData rid data =
     bnd (asks w_now) (\<lambda>now.
       let ps = round_problems data; endTime = round_end_time now data in
       seq_list
        [on_room (setRoundEndTime endTime),
         on_room (setIsRoundStarted True),
         on_room (setHasRoundEnded False),
         in_chrome (storage_set [(''roundEndTime'', endTime)]),
         progress_reset (round_key rid data ps),
         setNextProblem JNull,
         in_chrome (seqm (storage_remove ''nextProblem'') (emit (SetBadge []))),
         when_do (ps \<noteq> [])
           (seqm (in_chrome (storage_set [(''problems'', JArr (map JStr ps))]))
                 (navigateActiveTab (resume_decision ps)))])"

section \<open>The event effect\<close>

definition set_gameRef :: "string \<Rightarrow> (world, unit) js" where
  "set_gameRef r = modify (\<lambda>w. w\<lparr>w_gameRef := r\<rparr>)"

definition store_game_event :: "event_type \<Rightarrow> (world, unit) js" where
  "store_game_event t = in_chrome (storage_set [(''lastGameEvent'', JStr (event_str t))])"

definition round_start_event :: "user_store \<Rightarrow> jv \<Rightarrow> jv \<Rightarrow> (world, unit) js" where
  "round_start_event me rid data = seq_list
     [set_gameRef ''round-start'', setRoomParticipants me rid, applyRoundData rid data,
      store_game_event RoundStart]"

definition join_round_event :: "user_store \<Rightarrow> jv \<Rightarrow> jv \<Rightarrow> (world, unit) js" where
  "join_round_event me rid data = seq_list
     [set_gameRef ''join-round'', setRoomParticipants me rid,
      when_do (strict_eq (opt_get data ''userID'') (userId me) \<and>
               strict_eq (opt_get data ''roundStatus'') (JStr ''in-progress''))
        (seqm (applyRoundData rid data) (store_game_event JoinRound))]"

definition parse_event_data :: "jv \<Rightarrow> jv" where
  "parse_event_data data =
     (case data of
        JStr s \<Rightarrow> (case json_parse s of None \<Rightarrow> data | Some v \<Rightarrow> v)
      | _ \<Rightarrow> data)"

definition next_problem_event :: "user_store \<Rightarrow> jv \<Rightarrow> (world, unit) js" where
  "next_problem_event me data =
     seqm (set_gameRef ''next-problem'')
       (bnd (lift (get (parse_event_data data) ''nextProblem'')) (\<lambda>nextProblem.
        bnd (lift (get (parse_event_data data) ''userHandle'')) (\<lambda>userHandle.
        seqm (when_do (truthy (userId me) \<and> loose_eq userHandle (userId me))
                (navigateActiveTab (\<lambda>_. nextProblem)))
             (store_game_event NextProblem))))"

definition round_end_event :: "jv \<Rightarrow> (world, unit) js" where
  "round_end_event rid = seq_list
     [set_gameRef ''round-end'',
      on_room (setRoundEndTime JNull), on_room (setIsRoundStarted False), on_room (setHasRoundEnded True),
      setNextProblem JNull,
      in_chrome (seq_list [storage_remove ''nextProblem'', storage_remove ''roundEndTime'',
        storage_remove ''problems'', emit (SetBadge [])]),
      bnd (asks w_now) (\<lambda>now. progress_reset (ended_key rid now)),
      on_room (setActiveTab TabChat),
      store_game_event RoundEnd]"

definition game_event_effect :: "user_store \<Rightarrow> jv \<Rightarrow> game_event option \<Rightarrow> (world, unit) js" where
  "game_event_effect me rid ev =
     (case ev of
        None \<Rightarrow> ret ()
      | Some e \<Rightarrow>
          if \<not> truthy rid then ret ()
          else (case ev_type e of
                  RoundStart \<Rightarrow> round_start_event me rid (ev_data e)
                | JoinRound \<Rightarrow> join_round_event me rid (ev_data e)
                | NextProblem \<Rightarrow> next_problem_event me (ev_data e)
                | RoundEnd \<Rightarrow> round_end_event rid))"

section \<open>Resuming when the panel mounts\<close>

definition should_resume :: "world \<Rightarrow> bool" where
  "should_resume w =
     (let storedEndTime = js_coalesce (local_get w ''roundEndTime'') JNull in
      truthy storedEndTime \<and> js_gt storedEndTime (JNum (w_now w)))"

definition resume_effect :: "jv \<Rightarrow> (world, unit) js" where
  "resume_effect rid =
     (if \<not> truthy rid then ret ()
      else in_chrome
        (bnd (storage_get ''lastGameEvent'') (\<lambda>last.
         bnd (storage_get ''problems'') (\<lambda>stored.
         bnd (asks w_gameRef) (\<lambda>ref.
         bnd (asks should_resume) (\<lambda>shouldResume.
           if \<not> truthy last \<or> loose_eq (JStr ref) last then ret ()
           else if strict_eq last (JStr ''round-start'') \<or> strict_eq last (JStr ''join-round'') then
             (let storedProblems = slugs_of (js_or stored (JArr [])) in
              if \<not> shouldResume \<or> storedProblems = [] then ret ()
              else navigateActiveTab (resume_decision storedProblems))
           else ret ()))))))"

section \<open>The next problem announced by the worker\<close>

definition next_problem_mount :: "(world, unit) js" where
  "next_problem_mount = in_chrome (bnd (storage_get ''nextProblem'') (\<lambda>v. setNextProblem (js_or v JNull)))"

definition next_problem_listener :: "jv \<Rightarrow> string \<Rightarrow> (world, unit) js" where
  "next_problem_listener changes namespace =
     bnd (lift (if namespace = ''local'' then get changes ''nextProblem'' else Inr JUndef)) (\<lambda>c.
       when_do (truthy c) (setNextProblem (js_or (opt_get c ''newValue'') JNull)))"

section \<open>Refreshing the participants\<close>

text \<open>
  The effect on \<open>[lastParticipantJoinTime, roomId]\<close>: the cleanup of the previous run clears its
  timer, so at most one timer is pending, for the room of the last change.
\<close>

definition participants_arm :: "jv \<times> jv \<Rightarrow> jv option" where
  "participants_arm c = (if \<not> truthy (fst c) \<or> \<not> truthy (snd c) then None else Some (snd c))"

text \<open>The pending timer and the rooms refreshed so far, under changes and firings.\<close>

definition participants_step :: "(jv \<times> jv) debounce_event \<Rightarrow> jv option \<times> jv list \<Rightarrow> jv option \<times> jv list" where
  "participants_step = debounce_step participants_arm"

section \<open>The buttons\<close>

definition handleStartRound :: "jv \<Rightarrow> (world, unit) js" where
  "handleStartRound rid =
     (if \<not> truthy rid then ret ()
      else catch
        (bnd (http_post (room_path (to_str rid) ''/start'') None) (\<lambda>res.
           if \<not> res_ok res then
             bnd (res_json res) (\<lambda>data.
             bnd (lift (get data ''error'')) (\<lambda>err.
               throw (mk_error ''Error'' (to_str (js_or err
                 (JStr (''Failed to start round: '' @ show_int (int (res_status res)))))))))
           else ret ()))
        (\<lambda>e. bnd (lift (get e ''message'')) (\<lambda>msg.
           emit (Alert (''Failed to start round: '' @ to_str msg)))))"

definition handleEndRound :: "jv \<Rightarrow> (world, unit) js" where
  "handleEndRound rid =
     (if \<not> truthy rid then ret ()
      else catch
        (bnd (http_post (room_path (to_str rid) ''/end'') None) (\<lambda>res.
         bnd (res_json res) (\<lambda>data.
           if \<not> res_ok res then
             bnd (lift (get data ''error'')) (\<lambda>err.
               emit (Alert (''Failed to end round: '' @ to_str (js_or err (JNum (int (res_status res)))))))
           else
             seqm (on_room (setIsRoundStarted False))
             (seqm (on_room (setHasRoundEnded True))
             (emit (StartTimer ''end-round'' 2000))))))
        (\<lambda>e. bnd (lift (get e ''message'')) (\<lambda>msg.
           emit (Alert (''Failed to end round: '' @ to_str msg)))))"

text \<open>The callback that \<open>handleEndRound\<close> hands to \<open>setTimeout\<close>.\<close>

definition end_round_timeout :: "(world, unit) js" where
  "end_round_timeout = seqm (on_room (setRoundEndTime JNull))
     (in_chrome (seq_list [storage_remove ''roundEndTime'', storage_remove ''lastGameEvent'',
        storage_remove ''problems'']))"

definition handleLeaveRoom :: "user_store \<Rightarrow> jv \<Rightarrow> (world, unit) js" where
  "handleLeaveRoom me rid =
     (if \<not> truthy rid \<and> \<not> truthy (userId me) then ret ()
      else catch
        (bnd (http_post (room_path (to_str rid) ''/leave'') None) (\<lambda>response.
         bnd (res_json response) (\<lambda>message.
           when_do (res_ok response) (seq_list
             [in_chrome (seq_list [storage_remove ''activeRoomId'', storage_remove ''roundEndTime'',
                storage_remove ''lastGameEvent'', storage_remove ''problems'']),
              bnd (asks w_now) (\<lambda>now. progress_reset (left_key rid now)),
              on_room resetRoom,
              bnd (pushRoute ''/start-page'') (\<lambda>_. ret ())]))))
        (\<lambda>error. ret ()))"

section \<open>How the steps act\<close>

lemma fst_navigate [simp]: "fst (navigateActiveTab d w) = Inr ()"
  using navigateActiveTab_Inr [of d w] by auto

lemma navigate_pair: "navigateActiveTab d w = (Inr (), snd (navigateActiveTab d w))"
  by (metis fst_navigate prod.collapse)

lemma seqm_navigate [simp]: "seqm (navigateActiveTab d) n w = n (snd (navigateActiveTab d w))"
  by (rule seqm_run [OF navigate_pair])

lemma hook_act [simp]:
  "setNextProblem v w = (Inr (), w\<lparr>w_nextProblem := v\<rparr>)"
  "set_gameRef r w = (Inr (), w\<lparr>w_gameRef := r\<rparr>)"
  by (simp_all add: setNextProblem_def set_gameRef_def)

lemma seqm_hook_act [simp]:
  "seqm (setNextProblem v) n w = n (w\<lparr>w_nextProblem := v\<rparr>)"
  "seqm (set_gameRef r) n w = n (w\<lparr>w_gameRef := r\<rparr>)"
  by (auto intro!: seqm_run)

definition reset_message :: "string \<Rightarrow> effect" where
  "reset_message key = SendMessage (JObj [(''type'', JStr ''PROBLEM_PROGRESS_RESET''), (''roundKey'', JStr key)])"

lemma no_move_reset [simp]: "no_move (reset_message key)"
  by (simp add: no_move_def reset_message_def)

lemma progress_reset_act [simp]:
  "w_chrome w \<Longrightarrow> progress_reset key w = (Inr (), w\<lparr>w_trace := w_trace w @ [reset_message key]\<rparr>)"
  "\<not> w_chrome w \<Longrightarrow> progress_reset key w = (Inr (), w)"
  "w_chrome w \<Longrightarrow> seqm (progress_reset key) n w = n (w\<lparr>w_trace := w_trace w @ [reset_message key]\<rparr>)"
  "\<not> w_chrome w \<Longrightarrow> seqm (progress_reset key) n w = n w"
  by (simp_all add: progress_reset_def reset_message_def)

lemma keeps_navigate [keeps_intro]: "keeps Q (navigateActiveTab d)"
  by (rule keeps_same_room) (rule preservesD [OF navigate_frame(1)])

lemma keeps_hook [keeps_intro]:
  "keeps Q (setNextProblem v)" "keeps Q (set_gameRef r)" "keeps Q (progress_reset key)"
  "keeps Q (store_game_event t)"
  by (auto simp: keeps_def progress_reset_def store_game_event_def in_chrome_def when_do_def)

lemma frame_hook [frame_intro]:
  "preserves w_room (setNextProblem v)" "preserves w_room (set_gameRef r)"
  "preserves w_room (progress_reset key)" "preserves w_room (store_game_event t)"
  "preserves moves (setNextProblem v)" "preserves moves (set_gameRef r)"
  "preserves moves (progress_reset key)" "preserves moves (store_game_event t)"
  by (auto simp: preserves_def progress_reset_def store_game_event_def in_chrome_def when_do_def moves_def no_move_def)

lemma moves_setRoomParticipants [frame_intro]: "preserves moves (setRoomParticipants me rid)"
  unfolding setRoomParticipants_def load_participants_def by (intro frame_intro)

definition round_running :: "jv \<Rightarrow> room_store \<Rightarrow> room_store" where
  "round_running endTime s = s\<lparr>roundEndTime := endTime, isRoundStarted := True, hasRoundEnded := False\<rparr>"

lemma applyRoundData_act:
  "fst (applyRoundData rid data w) = Inr ()"
  "w_room (snd (applyRoundData rid data w)) = round_running (round_end_time (w_now w) data) (w_room w)"
  by (cases "w_chrome w"; cases "round_problems data = []";
      simp add: applyRoundData_def Let_def round_running_def store_simps preservesD [OF navigate_frame(1)])+

lemma applyRoundData_stored:
  "w_chrome w \<Longrightarrow> local_get (snd (applyRoundData rid data w)) k =
     (if k = ''roundEndTime'' then round_end_time (w_now w) data
      else if k = ''nextProblem'' then JUndef
      else if k = ''problems'' \<and> round_problems data \<noteq> [] then JArr (map JStr (round_problems data))
      else local_get w k)"
  by (cases "round_problems data = []")
     (auto simp: applyRoundData_def Let_def local_get_def preservesD [OF navigate_frame(2)])

text \<open>The keys of the resets that the worker was sent.\<close>

definition resets :: "world \<Rightarrow> jv list" where
  "resets w = List.map_filter (\<lambda>e. case e of
       SendMessage m \<Rightarrow> if opt_get m ''type'' = JStr ''PROBLEM_PROGRESS_RESET'' then Some (opt_get m ''roundKey'') else None
     | _ \<Rightarrow> None) (w_trace w)"

lemma resets_navigate [frame_intro]: "preserves resets (navigateActiveTab d)"
  by (auto simp: preserves_def navigateActiveTab_door tabs_update_def Let_def resets_def map_filter_def
      split: option.split)

lemma moves_update [simp]:
  "moves (w\<lparr>w_room := s\<rparr>) = moves w" "moves (w\<lparr>w_nextProblem := v\<rparr>) = moves w"
  "moves (w\<lparr>w_gameRef := r\<rparr>) = moves w" "moves (w\<lparr>w_local := l\<rparr>) = moves w" "moves (w\<lparr>w_now := t\<rparr>) = moves w"
  "no_move e \<Longrightarrow> moves (w\<lparr>w_trace := w_trace w @ [e]\<rparr>) = moves w"
  by (simp_all add: moves_def)

lemma no_move_simps [simp]:
  "no_move (Fetch q)" "no_move (Sleep t)" "no_move (RouterPush r)" "no_move (StorageSet kvs)"
  "no_move (StorageRemove k)" "no_move (SendMessage m)" "no_move (SetBadge b)" "no_move (Alert a)"
  by (simp_all add: no_move_def)

lemma applyRoundData_moves:
  "moves (snd (applyRoundData rid data w)) = moves w @
     (case door (resume_decision (round_problems data)) (w_chrome w) (w_tab w) of None \<Rightarrow> [] | Some m \<Rightarrow> [m])"
proof (cases "round_problems data = []")
  case True
  then have "door (resume_decision (round_problems data)) (w_chrome w) (w_tab w) = None"
    using door_resume_Some [of "round_problems data" "w_chrome w" "w_tab w"]
    by (cases "door (resume_decision (round_problems data)) (w_chrome w) (w_tab w)") auto
  with True show ?thesis
    by (cases "w_chrome w") (simp_all add: applyRoundData_def Let_def moves_def)
next
  case False
  then show ?thesis
    by (cases "w_chrome w") (simp_all add: applyRoundData_def Let_def moves_navigate, simp_all add: moves_def)
qed

lemma door_Nil: "door (resume_decision []) c tab = None"
  using door_resume_Some [of "[]" c tab] by (cases "door (resume_decision []) c tab") auto

lemma applyRoundData_tab:
  "(\<And>h u. w_tabs w h u = None) \<Longrightarrow> w_tab (snd (applyRoundData rid data w)) =
     (case door (resume_decision (round_problems data)) (w_chrome w) (w_tab w) of
        None \<Rightarrow> w_tab w | Some (tid, u) \<Rightarrow> Some (tid, JStr u))"
  by (cases "w_chrome w"; cases "round_problems data = []")
     (simp_all add: applyRoundData_def Let_def tab_navigate door_Nil split: option.split)

lemma resets_update [simp]:
  "resets (w\<lparr>w_room := s\<rparr>) = resets w" "resets (w\<lparr>w_nextProblem := v\<rparr>) = resets w"
  "resets (w\<lparr>w_gameRef := r\<rparr>) = resets w" "resets (w\<lparr>w_local := l\<rparr>) = resets w" "resets (w\<lparr>w_now := t\<rparr>) = resets w"
  "resets (w\<lparr>w_trace := w_trace w @ [reset_message key]\<rparr>) = resets w @ [JStr key]"
  by (simp_all add: resets_def reset_message_def map_filter_def)

lemma resets_emit: "(\<And>m. e \<noteq> SendMessage m) \<Longrightarrow> resets (w\<lparr>w_trace := w_trace w @ [e]\<rparr>) = resets w"
  by (cases e) (auto simp add: resets_def map_filter_def)

lemma applyRoundData_resets:
  "w_chrome w \<Longrightarrow> resets (snd (applyRoundData rid data w)) =
     resets w @ [JStr (round_key rid data (round_problems data))]"
  by (cases "round_problems data = []")
     (simp_all add: applyRoundData_def Let_def preservesD [OF resets_navigate],
      simp_all add: resets_def reset_message_def map_filter_def)

section \<open>Round start, once and replayed\<close>

lemma round_start_run:
  obtains us v where "round_start_event me rid data w = store_game_event RoundStart (snd (applyRoundData rid data v))"
    "w_room v = setParticipants us (w_room w)" "w_chrome v = w_chrome w" "w_tab v = w_tab w" "w_now v = w_now w"
    "w_tabs v = w_tabs w" "moves v = moves w" "resets v = resets w" "w_local v = w_local w"
proof -
  let ?w = "w\<lparr>w_gameRef := ''round-start''\<rparr>"
  obtain us where us: "setRoomParticipants me rid ?w =
     (Inr (), (add_log [Fetch (get_request ?w (room_path (to_str rid) ''/participants''))] ?w)
        \<lparr>w_room := setParticipants us (w_room ?w)\<rparr>)"
    using setRoomParticipants_frame by blast
  let ?v = "snd (setRoomParticipants me rid ?w)"
  have "round_start_event me rid data w = store_game_event RoundStart (snd (applyRoundData rid data ?v))"
    by (simp add: round_start_event_def seqm_total us applyRoundData_act(1))
  then show ?thesis
    by (rule that) (simp_all add: us moves_def resets_def add_log_def map_filter_def)
qed

lemma store_game_event_frame:
  "w_room (snd (store_game_event t w)) = w_room w" "moves (snd (store_game_event t w)) = moves w"
  "resets (snd (store_game_event t w)) = resets w" "w_tab (snd (store_game_event t w)) = w_tab w"
  "w_chrome (snd (store_game_event t w)) = w_chrome w" "w_tabs (snd (store_game_event t w)) = w_tabs w"
  "w_now (snd (store_game_event t w)) = w_now w" "fst (store_game_event t w) = Inr ()"
  by (cases "w_chrome w"; simp add: store_game_event_def resets_emit)+

lemma applyRoundData_chrome:
  "w_chrome (snd (applyRoundData rid data w)) = w_chrome w"
  "w_tabs (snd (applyRoundData rid data w)) = w_tabs w"
  by (cases "w_chrome w"; cases "round_problems data = []";
      simp add: applyRoundData_def Let_def preservesD [OF navigate_frame(3)] preservesD [OF navigate_outside])+

lemma round_start_effect:
  fixes me rid data w
  defines "w' \<equiv> snd (round_start_event me rid data w)"
  shows "\<exists>us. w_room w' = round_running (round_end_time (w_now w) data) (setParticipants us (w_room w))"
    and "moves w' = moves w @ (case door (resume_decision (round_problems data)) (w_chrome w) (w_tab w) of
           None \<Rightarrow> [] | Some m \<Rightarrow> [m])"
    and "w_chrome w \<Longrightarrow> resets w' = resets w @ [JStr (round_key rid data (round_problems data))]"
    and "(\<And>h u. w_tabs w h u = None) \<Longrightarrow> w_tab w' =
          (case door (resume_decision (round_problems data)) (w_chrome w) (w_tab w) of
             None \<Rightarrow> w_tab w | Some (tid, u) \<Rightarrow> Some (tid, JStr u))"
    and "w_chrome w' = w_chrome w" and "w_tabs w' = w_tabs w"
proof -
  obtain us v where v: "round_start_event me rid data w = store_game_event RoundStart (snd (applyRoundData rid data v))"
    "w_room v = setParticipants us (w_room w)" "w_chrome v = w_chrome w" "w_tab v = w_tab w" "w_now v = w_now w"
    "w_tabs v = w_tabs w" "moves v = moves w" "resets v = resets w" "w_local v = w_local w"
    by (rule round_start_run)
  note facts = w'_def v store_game_event_frame applyRoundData_act applyRoundData_moves applyRoundData_resets
    applyRoundData_tab applyRoundData_chrome
  show "\<exists>us. w_room w' = round_running (round_end_time (w_now w) data) (setParticipants us (w_room w))"
    by (rule exI [of _ us]) (simp add: facts)
  show "moves w' = moves w @ (case door (resume_decision (round_problems data)) (w_chrome w) (w_tab w) of
           None \<Rightarrow> [] | Some m \<Rightarrow> [m])"
    "w_chrome w \<Longrightarrow> resets w' = resets w @ [JStr (round_key rid data (round_problems data))]"
    "(\<And>h u. w_tabs w h u = None) \<Longrightarrow> w_tab w' =
          (case door (resume_decision (round_problems data)) (w_chrome w) (w_tab w) of
             None \<Rightarrow> w_tab w | Some (tid, u) \<Rightarrow> Some (tid, JStr u))"
    "w_chrome w' = w_chrome w" "w_tabs w' = w_tabs w"
    by (simp_all add: facts split: option.split)
qed

section \<open>The invariant of the round flags\<close>

lemma flags_applyRoundData [keeps_intro]: "keeps round_flags_ok (applyRoundData rid data)"
  by (simp add: keeps_def applyRoundData_act round_running_def round_flags_ok_def)

lemma flags_round_end [keeps_intro]: "keeps round_flags_ok (round_end_event rid)"
proof -
  have k: "keeps round_flags_ok (seq_list [setNextProblem JNull,
      in_chrome (seq_list [storage_remove ''nextProblem'', storage_remove ''roundEndTime'',
        storage_remove ''problems'', emit (SetBadge [])]),
      bnd (asks w_now) (\<lambda>now. progress_reset (ended_key rid now)),
      on_room (setActiveTab TabChat),
      store_game_event RoundEnd])"
    unfolding seq_list.simps by (intro keeps_intro)
  show ?thesis
    by (rule keepsI, unfold round_end_event_def seq_list.simps(3), simp,
        rule keepsD [OF k, unfolded seq_list.simps(3), simplified])
       (simp add: round_flags_ok_def store_simps)
qed

lemma flags_game_event [keeps_intro]: "keeps round_flags_ok (game_event_effect me rid ev)"
proof -
  have "keeps round_flags_ok (round_start_event me rid data)" for data
    unfolding round_start_event_def seq_list.simps by (intro keeps_intro)
  moreover have "keeps round_flags_ok (join_round_event me rid data)" for data
    unfolding join_round_event_def seq_list.simps by (intro keeps_intro)
  moreover have "keeps round_flags_ok (next_problem_event me data)" for data
    unfolding next_problem_event_def by (intro keeps_intro)
  ultimately show ?thesis
    unfolding game_event_effect_def
    by (auto simp: keeps_basic flags_round_end split: option.split event_type.split)
qed

lemma flags_resume [keeps_intro]: "keeps round_flags_ok (resume_effect rid)"
  unfolding resume_effect_def Let_def by (intro keeps_intro)

lemma flags_next_problem [keeps_intro]:
  "keeps round_flags_ok next_problem_mount" "keeps round_flags_ok (next_problem_listener c ns)"
  unfolding next_problem_mount_def next_problem_listener_def by (intro keeps_intro)+

lemma flags_start_button [keeps_intro]: "keeps round_flags_ok (handleStartRound rid)"
  unfolding handleStartRound_def by (intro keeps_intro)

lemma flags_end_button [keeps_intro]: "keeps round_flags_ok (handleEndRound rid)"
proof -
  have k: "keeps round_flags_ok (seqm (on_room (setIsRoundStarted False))
     (seqm (on_room (setHasRoundEnded True)) (emit (StartTimer ''end-round'' 2000))))"
    by (simp add: keeps_def store_simps round_flags_ok_def)
  show ?thesis unfolding handleEndRound_def by (intro keeps_intro k)
qed

lemma flags_leave_button [keeps_intro]:
  "keeps round_flags_ok end_round_timeout" "keeps round_flags_ok (handleLeaveRoom me rid)"
  unfolding end_round_timeout_def handleLeaveRoom_def seq_list.simps by (intro keeps_intro)+

section \<open>Properties\<close>

lemma round_door_settles:
  assumes "list_all slug_ok (round_problems data)" "\<And>h u. w_tabs w h u = None"
    and "w_tab v = w_tab (snd (round_start_event me rid data w))"
  shows "door (resume_decision (round_problems data)) c (w_tab v) = None \<or> \<not> w_chrome w"
proof (cases "round_problems data = []")
  case True
  then show ?thesis by (simp add: door_Nil)
next
  case False
  then have ok: "slug_ok (hd (round_problems data))"
    using assms(1) by (cases "round_problems data") auto
  have "w_tab v = w_tab (snd (navigateActiveTab (resume_decision (round_problems data)) w))"
    using assms(2,3) by (simp add: round_start_effect(4) tab_navigate)
  with door_settles [OF ok assms(2)] show ?thesis by simp
qed

text \<open>
  A \<open>round-start\<close> replayed to a reconnecting panel (at any later time) changes nothing that the
  user or the worker sees: the tab is moved at most once in total, and the worker is sent the same
  round key again, so it keeps the progress of the running round.
\<close>

theorem round_start_replay:
  fixes me rid e w later
  assumes "truthy rid" "ev_type e = RoundStart" "list_all slug_ok (round_problems (ev_data e))"
    and "\<And>h u. w_tabs w h u = None" "w_chrome w"
  defines "w1 \<equiv> snd (game_event_effect me rid (Some e) w)"
  defines "w2 \<equiv> snd (game_event_effect me rid (Some e) (w1\<lparr>w_now := later\<rparr>))"
  shows "length (moves w1) \<le> length (moves w) + 1 \<and> moves w2 = moves w1 \<and>
    (\<exists>key. resets w2 = resets w @ [key, key])"
proof -
  let ?w = "w1\<lparr>w_now := later\<rparr>"
  have w1: "w1 = snd (round_start_event me rid (ev_data e) w)"
    and w2: "w2 = snd (round_start_event me rid (ev_data e) ?w)"
    using assms(1,2) by (simp_all add: w1_def w2_def game_event_effect_def)
  have chrome: "w_chrome w1" using assms(5) by (simp add: w1 round_start_effect(5))
  have "door (resume_decision (round_problems (ev_data e))) (w_chrome ?w) (w_tab ?w) = None"
    using round_door_settles [OF assms(3,4), of ?w me rid "w_chrome ?w"] assms(5) by (simp add: w1)
  then have "moves w2 = moves w1"
    unfolding w2 round_start_effect(2) by simp
  moreover have "length (moves w1) \<le> length (moves w) + 1"
    unfolding w1 round_start_effect(2) by (simp split: option.split)
  moreover have "resets w2 = resets w @ [JStr (round_key rid (ev_data e) (round_problems (ev_data e))),
      JStr (round_key rid (ev_data e) (round_problems (ev_data e)))]"
    using round_start_effect(3) [of ?w me rid "ev_data e"] round_start_effect(3) [of w me rid "ev_data e"]
      chrome assms(5) by (simp add: w2 w1 [symmetric])
  ultimately show ?thesis by blast
qed

definition demo_round :: jv where
  "demo_round = JObj [(''startTime'', JNum 1000), (''serverNow'', JNum 990), (''duration'', JNum 30),
     (''problems'', JArr [JStr ''two-sum'', JStr ''lru-cache''])]"

definition demo_start :: game_event where
  "demo_start = \<lparr>ev_type = RoundStart, ev_data = demo_round, ev_timestamp = 0\<rparr>"

theorem round_start_replay_witness:
  "moves (snd (game_event_effect userStoreInit (JStr ''r1'') (Some demo_start)
       ((snd (game_event_effect userStoreInit (JStr ''r1'') (Some demo_start) demo_world))\<lparr>w_now := 5000\<rparr>))) =
     moves (snd (game_event_effect userStoreInit (JStr ''r1'') (Some demo_start) demo_world))"
proof -
  have "list_all slug_ok (round_problems (ev_data demo_start))"
    by (simp add: demo_start_def demo_round_def round_problems_def has_start_time_def slugs_of_def slug_ok_def slug_char_def)
  with round_start_replay [of "JStr ''r1''" demo_start demo_world userStoreInit 5000] show ?thesis
    by (simp add: demo_start_def demo_world_def)
qed

text \<open>
  Setting a round up starts it in the store, with the computed end time, and stores the same end
  time for the worker; the running flag and the ended flag are never both on.
\<close>

theorem applyRoundData_starts_round:
  "fst (applyRoundData rid data w) = Inr () \<and>
   w_room (snd (applyRoundData rid data w)) =
     (w_room w)\<lparr>roundEndTime := round_end_time (w_now w) data, isRoundStarted := True, hasRoundEnded := False\<rparr> \<and>
   (w_chrome w \<longrightarrow>
     local_get (snd (applyRoundData rid data w)) ''roundEndTime'' = round_end_time (w_now w) data \<and>
     local_get (snd (applyRoundData rid data w)) ''nextProblem'' = JUndef)"
  by (simp add: applyRoundData_act applyRoundData_stored round_running_def)

theorem applyRoundData_starts_round_witness:
  "local_get (snd (applyRoundData (JStr ''r1'') demo_round demo_world)) ''roundEndTime'' =
     round_end_time 0 demo_round"
  using applyRoundData_starts_round [of "JStr ''r1''" demo_round demo_world] by (simp add: demo_world_def)

text \<open>
  With the server's clock in the event, the time left is what the server computed, whatever the
  local clock shows; without it the end time is the server's start time plus the duration, and a
  legacy event gives half an hour from now.
\<close>

theorem round_end_time_spec:
  assumes "is_objectlike data" "opt_get data ''startTime'' = JNum s" "s \<noteq> 0" "opt_get data ''duration'' = JNum d"
  shows "(\<forall>n. opt_get data ''serverNow'' = JNum n \<and> n \<noteq> 0 \<longrightarrow>
        js_sub (round_end_time now data) (JNum now) = JNum ((s - n + 60 * d) * 1000)) \<and>
    (\<not> truthy (opt_get data ''serverNow'') \<longrightarrow> round_end_time now data = JNum ((s + 60 * d) * 1000)) \<and>
    round_end_time now (JStr legacy) = JNum (now + 1800000)"
proof -
  have "truthy data" using assms(2) by (cases data) auto
  then have "has_start_time data" using assms by (simp add: has_start_time_def)
  then show ?thesis
    using assms by (auto simp: round_end_time_def duration_ms_def has_start_time_def algebra_simps)
qed

theorem round_end_time_spec_witness:
  "js_sub (round_end_time 77 demo_round) (JNum 77) = JNum 1810000"
  using round_end_time_spec [of demo_round 1000 30 77 "[]"] by (simp add: demo_round_def)

text \<open>
  The round key tells rounds apart: two rounds with start times in rooms whose ids have no bar
  share a key only when room and start time agree, and no key of a running round is the key that
  the end of a round sends.
\<close>

theorem round_key_identifies:
  assumes "CHR ''|'' \<notin> set r" "CHR ''|'' \<notin> set r'"
    and "opt_get d ''startTime'' = JNum s" "s \<noteq> 0" "opt_get d' ''startTime'' = JNum s'" "s' \<noteq> 0"
  shows "(round_key (JStr r) d ps = round_key (JStr r') d' ps' \<longleftrightarrow> r = r' \<and> s = s') \<and>
    round_key (JStr r) d ps \<noteq> ended_key (JStr r') now"
proof -
  have "show_int s \<noteq> CHR ''e'' # x" for x
    using show_int_head [of s "CHR ''e''" x] by (auto simp: is_digit_def)
  then show ?thesis
    using append_sep_cancel [OF assms(1,2)] assms(3-6) by (auto simp: round_key_def ended_key_def)
qed

theorem round_key_identifies_witness:
  "round_key (JStr ''r1'') demo_round [] \<noteq> round_key (JStr ''r2'') demo_round []"
  using round_key_identifies [of "''r1''" "''r2''" demo_round 1000 demo_round 1000]
  by (simp add: demo_round_def)

lemma next_problem_moves:
  "moves (snd (next_problem_event me data w)) = moves w @
     (if truthy (userId me) \<and> loose_eq (opt_get (parse_event_data data) ''userHandle'') (userId me)
      then (case door (\<lambda>_. opt_get (parse_event_data data) ''nextProblem'') (w_chrome w) (w_tab w) of
              None \<Rightarrow> [] | Some m \<Rightarrow> [m])
      else [])"
proof (cases "is_nullish (parse_event_data data)")
  case True
  then obtain e where "get (parse_event_data data) ''nextProblem'' = Inl e" by (metis get_Inl_iff)
  moreover have "truthy v \<Longrightarrow> \<not> loose_eq JUndef v" for v
    by (cases v) (auto simp: loose_eq_def Let_def)
  moreover have "opt_get (parse_event_data data) ''userHandle'' = JUndef"
    using True by (auto simp: is_nullish_def)
  ultimately show ?thesis by (auto simp: next_problem_event_def)
next
  case False
  then show ?thesis
    by (simp add: next_problem_event_def get_Inr when_do_def store_game_event_frame moves_navigate)
qed

text \<open>
  A \<open>next-problem\<close> event moves the tab only of the user it is addressed to, and then by exactly
  one pass through the door to the announced problem; malformed events move nothing.
\<close>

theorem next_problem_addressed:
  assumes "truthy rid" "ev_type e = NextProblem"
  shows "moves (snd (game_event_effect me rid (Some e) w)) = moves w @
     (if truthy (userId me) \<and> loose_eq (opt_get (parse_event_data (ev_data e)) ''userHandle'') (userId me)
      then (case door (\<lambda>_. opt_get (parse_event_data (ev_data e)) ''nextProblem'') (w_chrome w) (w_tab w) of
              None \<Rightarrow> [] | Some m \<Rightarrow> [m])
      else [])"
  using assms by (simp add: game_event_effect_def next_problem_moves)

definition demo_next :: game_event where
  "demo_next = \<lparr>ev_type = NextProblem,
     ev_data = JObj [(''nextProblem'', JStr ''lru-cache''), (''userHandle'', JStr ''u2'')], ev_timestamp = 1\<rparr>"

theorem next_problem_addressed_witness:
  "moves (snd (game_event_effect (userStoreInit\<lparr>userId := JStr ''u1''\<rparr>) (JStr ''r1'') (Some demo_next) demo_world)) = [] \<and>
   moves (snd (game_event_effect (userStoreInit\<lparr>userId := JStr ''u2''\<rparr>) (JStr ''r1'') (Some demo_next) demo_world)) =
     [(JNum 1, ''https://leetcode.com/problems/lru-cache/'')]"
  using next_problem_addressed [of "JStr ''r1''" demo_next "userStoreInit\<lparr>userId := JStr ''u1''\<rparr>" demo_world]
    next_problem_addressed [of "JStr ''r1''" demo_next "userStoreInit\<lparr>userId := JStr ''u2''\<rparr>" demo_world]
  by (simp add: demo_next_def parse_event_data_def demo_world_def door_def moves_def str_or_null_def problemUrl_def)

lemma join_round_run:
  obtains us v where "join_round_event me rid data w = when_do
      (strict_eq (opt_get data ''userID'') (userId me) \<and> strict_eq (opt_get data ''roundStatus'') (JStr ''in-progress''))
      (seqm (applyRoundData rid data) (store_game_event JoinRound)) v"
    "w_room v = setParticipants us (w_room w)" "moves v = moves w" "resets v = resets w" "w_local v = w_local w"
proof -
  let ?w = "w\<lparr>w_gameRef := ''join-round''\<rparr>"
  obtain us where us: "setRoomParticipants me rid ?w =
     (Inr (), (add_log [Fetch (get_request ?w (room_path (to_str rid) ''/participants''))] ?w)
        \<lparr>w_room := setParticipants us (w_room ?w)\<rparr>)"
    using setRoomParticipants_frame by blast
  show ?thesis
    by (rule that [of "snd (setRoomParticipants me rid ?w)" us])
       (simp_all add: join_round_event_def seqm_total us moves_def resets_def add_log_def map_filter_def)
qed

text \<open>
  A \<open>join-round\<close> broadcast sets up only the user who joined a round in progress: for everybody
  else it refreshes the participants and leaves the rest of the room store, the stored data, the
  worker's progress and the tab alone.
\<close>

theorem join_round_only_joiner:
  assumes "\<not> (strict_eq (opt_get data ''userID'') (userId me) \<and>
      strict_eq (opt_get data ''roundStatus'') (JStr ''in-progress''))"
  shows "\<exists>us. w_room (snd (join_round_event me rid data w)) = setParticipants us (w_room w) \<and>
    moves (snd (join_round_event me rid data w)) = moves w \<and>
    resets (snd (join_round_event me rid data w)) = resets w \<and>
    w_local (snd (join_round_event me rid data w)) = w_local w"
proof -
  obtain us v where v: "join_round_event me rid data w = when_do
      (strict_eq (opt_get data ''userID'') (userId me) \<and> strict_eq (opt_get data ''roundStatus'') (JStr ''in-progress''))
      (seqm (applyRoundData rid data) (store_game_event JoinRound)) v"
    "w_room v = setParticipants us (w_room w)" "moves v = moves w" "resets v = resets w" "w_local v = w_local w"
    by (rule join_round_run)
  have "join_round_event me rid data w = (Inr (), v)"
    unfolding v(1) using assms by (simp only: when_do_def if_False ret_def)
  then have "snd (join_round_event me rid data w) = v" by simp
  then show ?thesis using v(2-5) by (intro exI [of _ us]) (simp only: simp_thms)
qed

theorem join_round_only_joiner_witness:
  "moves (snd (join_round_event (userStoreInit\<lparr>userId := JStr ''u1''\<rparr>) (JStr ''r1'')
     (JObj [(''userID'', JStr ''u2''), (''roundStatus'', JStr ''in-progress'')]) demo_world)) = []"
  using join_round_only_joiner [of "JObj [(''userID'', JStr ''u2''), (''roundStatus'', JStr ''in-progress'')]"
      "userStoreInit\<lparr>userId := JStr ''u1''\<rparr>" "JStr ''r1''" demo_world]
  by (auto simp: demo_world_def moves_def)

lemma round_end_act:
  "w_room (snd (round_end_event rid w)) = setActiveTab TabChat
     ((w_room w)\<lparr>roundEndTime := JNull, isRoundStarted := False, hasRoundEnded := True\<rparr>)"
  by (cases "w_chrome w")
    (simp_all add: round_end_event_def store_game_event_def setRoundEndTime_def setIsRoundStarted_def setHasRoundEnded_def)

lemma round_end_moves: "moves (snd (round_end_event rid w)) = moves w"
proof -
  have "preserves moves (round_end_event rid)"
    unfolding round_end_event_def seq_list.simps by (intro frame_intro no_move_simps)
  then show ?thesis by (rule preservesD)
qed

lemma round_end_local:
  "w_chrome w \<Longrightarrow> w_local (snd (round_end_event rid w)) =
     (w_local w)(''nextProblem'' := None, ''roundEndTime'' := None, ''problems'' := None,
        ''lastGameEvent'' \<mapsto> JStr ''round-end'')"
  by (simp add: round_end_event_def store_game_event_def)

lemma resume_moves:
  "moves (snd (resume_effect rid w)) \<noteq> moves w \<Longrightarrow>
     w_chrome w \<and> should_resume w \<and> local_get w ''lastGameEvent'' \<in> {JStr ''round-start'', JStr ''join-round''} \<and>
     (\<exists>tid. moves (snd (resume_effect rid w)) =
        moves w @ [(tid, problemUrl (hd (slugs_of (js_or (local_get w ''problems'') (JArr [])))))])"
  by (cases "w_chrome w")
     (auto simp: resume_effect_def Let_def moves_navigate dest: door_resume_Some
       split: if_splits option.splits)

text \<open>
  Mounting the panel moves the tab only while a stored round is running: the last stored event is
  a start or a join, its end time lies in the future, and the one move goes to the round's first
  problem.
\<close>

theorem resume_only_running_round:
  "moves (snd (resume_effect rid w)) = moves w \<or>
   (should_resume w \<and> local_get w ''lastGameEvent'' \<in> {JStr ''round-start'', JStr ''join-round''} \<and>
    (\<exists>tid. moves (snd (resume_effect rid w)) =
        moves w @ [(tid, problemUrl (hd (slugs_of (js_or (local_get w ''problems'') (JArr [])))))]))"
  using resume_moves [of rid w] by blast

text \<open>
  The end of a round clears the round: the flags say it is over, the chat is shown, nothing of it
  stays in the extension's storage, and a panel that mounts afterwards never moves the tab.
\<close>

theorem round_end_clears:
  fixes w rid rid' r
  assumes "w_chrome w"
  defines "w' \<equiv> snd (round_end_event rid w)"
  shows "\<not> isRoundStarted (w_room w') \<and> hasRoundEnded (w_room w') \<and> roundEndTime (w_room w') = JNull \<and>
    activeTab (w_room w') = TabChat \<and> moves w' = moves w \<and>
    (\<forall>k \<in> {''nextProblem'', ''roundEndTime'', ''problems''}. local_get w' k = JUndef) \<and>
    moves (snd (resume_effect rid' (w'\<lparr>w_gameRef := r\<rparr>))) = moves w"
proof -
  have "moves (snd (resume_effect rid' (w'\<lparr>w_gameRef := r\<rparr>))) = moves (w'\<lparr>w_gameRef := r\<rparr>)"
    using resume_moves [of rid' "w'\<lparr>w_gameRef := r\<rparr>"] assms
    by (auto simp: local_get_def round_end_local)
  then show ?thesis
    using assms by (simp add: local_get_def round_end_act round_end_moves round_end_local setActiveTab_def)
qed

theorem round_end_clears_witness:
  "hasRoundEnded (w_room (snd (round_end_event (JStr ''r1'') demo_world)))"
  using round_end_clears [of demo_world "JStr ''r1''"] by (simp add: demo_world_def)

text \<open>
  A burst of participants joining and leaving refreshes the list once, for the room of the last
  change, and not at all when the panel is in no room by then.
\<close>

theorem participants_refreshed_once:
  assumes "cs \<noteq> []"
  shows "run participants_step (map Change cs @ [Fire]) (pending, refreshed) =
    (None, refreshed @ (if truthy (fst (last cs)) \<and> truthy (snd (last cs)) then [snd (last cs)] else []))"
  using debounce_burst [OF assms, of participants_arm pending refreshed]
  by (simp add: participants_step_def participants_arm_def)

theorem participants_refreshed_once_witness:
  "run participants_step (map Change [(JNum 5, JStr ''r1''), (JNum 6, JStr ''r2'')] @ [Fire]) (None, []) =
     (None, [JStr ''r2''])"
  using participants_refreshed_once [of "[(JNum 5, JStr ''r1''), (JNum 6, JStr ''r2'')]" None "[]"] by simp

section \<open>Leaving\<close>

lemma leave_response:
  fixes w rid
  assumes "res_ok res" "snd res = Some m"
  defines "w' \<equiv> snd ((bnd (res_json res) (\<lambda>message. when_do (res_ok res) (seq_list
             [in_chrome (seq_list [storage_remove ''activeRoomId'', storage_remove ''roundEndTime'',
                storage_remove ''lastGameEvent'', storage_remove ''problems'']),
              bnd (asks w_now) (\<lambda>now. progress_reset (left_key rid now)),
              on_room resetRoom,
              bnd (pushRoute ''/start-page'') (\<lambda>_. ret ())]))) w)"
  shows "w_room w' = roomStoreInit"
    and "w_chrome w \<Longrightarrow> w_local w' = (w_local w)(''activeRoomId'' := None, ''roundEndTime'' := None,
      ''lastGameEvent'' := None, ''problems'' := None)"
proof -
  have r: "res_json res v = (Inr m, v)" for v :: world
    using assms(2) by (simp add: res_json_def)
  have p: "bnd (pushRoute ''/start-page'') (\<lambda>_. ret ()) v =
      (case pushRoute ''/start-page'' v of (Inl e, v') \<Rightarrow> (Inl e, v') | (Inr x, v') \<Rightarrow> (Inr (), v'))" for v
    by (simp add: bnd_def split: prod.split sum.split)
  have q: "snd (bnd (pushRoute ''/start-page'') (\<lambda>_. ret ()) v) = snd (pushRoute ''/start-page'' v)" for v
    unfolding p by (cases "pushRoute ''/start-page'' v") (auto split: sum.split)
  show "w_room w' = roomStoreInit"
    using assms(1) by (cases "w_chrome w") (simp_all add: w'_def bnd_Inr [OF r] q pushRoute_keeps store_simps)
  show "w_chrome w \<Longrightarrow> w_local w' = (w_local w)(''activeRoomId'' := None, ''roundEndTime'' := None,
      ''lastGameEvent'' := None, ''problems'' := None)"
    using assms(1) by (simp add: w'_def bnd_Inr [OF r] q pushRoute_keeps)
qed

lemma handleLeaveRoom_total: "fst (handleLeaveRoom me rid w) = Inr ()"
  unfolding handleLeaveRoom_def using catch_total [of "\<lambda>_. ret ()"]
  by (auto simp: catch_def split: prod.split sum.split)

text \<open>
  Leaving never throws. Unless the server accepts it, the panel stays in its room; once it does,
  the room store is back in its initial state and the stored room, round and problems are gone.
\<close>

theorem leave_room_outcome:
  "fst (handleLeaveRoom me rid w) = Inr () \<and>
   (w_room (snd (handleLeaveRoom me rid w)) = w_room w \<or>
    accepted w (w_trace w) (post_request w (room_path (to_str rid) ''/leave'') None) \<and>
    w_room (snd (handleLeaveRoom me rid w)) = roomStoreInit \<and>
    (\<not> w_chrome w \<or> (\<forall>k \<in> {''activeRoomId'', ''roundEndTime'', ''lastGameEvent'', ''problems''}.
       local_get (snd (handleLeaveRoom me rid w)) k = JUndef)))"
proof (cases "truthy rid \<or> truthy (userId me)")
  case False
  then show ?thesis by (simp add: handleLeaveRoom_def)
next
  case True
  let ?q = "post_request w (room_path (to_str rid) ''/leave'') None"
  let ?w = "add_log [Fetch ?q] w"
  show ?thesis
  proof (cases "w_server w (w_trace w) ?q")
    case (NetError e)
    with True show ?thesis by (simp add: handleLeaveRoom_def catch_def bnd_def http_post_log)
  next
    case (Response st b)
    show ?thesis
    proof (cases "res_ok (st, b) \<and> b \<noteq> None")
      case True
      then obtain m where m: "snd (st, b) = Some m" by auto
      have "accepted w (w_trace w) ?q" using True Response by (simp add: accepted_def res_ok_def)
      then show ?thesis
        using leave_response [where res = "(st, b)" and m = m and rid = rid and w = ?w] True m \<open>truthy rid \<or> truthy (userId me)\<close>
          handleLeaveRoom_total [of me rid w]
        by (auto simp: handleLeaveRoom_def snd_catch_ret bnd_Inr [of "http_post _ _" _ "(st, b)" ?w]
            http_post_log Response local_get_def)
    next
      case False
      then have "snd (handleLeaveRoom me rid w) = ?w"
        using Response \<open>truthy rid \<or> truthy (userId me)\<close>
        by (cases b) (auto simp: handleLeaveRoom_def snd_catch_ret bnd_def http_post_log res_json_def)
      then show ?thesis using handleLeaveRoom_total [of me rid w] by simp
    qed
  qed
qed

theorem leave_room_outcome_witness:
  "w_room (snd (handleLeaveRoom userStoreInit (JStr ''r1'')
     (demo_world\<lparr>w_server := (\<lambda>h q. Response 503 None)\<rparr>))) = roomStoreInit"
proof -
  let ?w = "demo_world\<lparr>w_server := (\<lambda>h q. Response 503 None)\<rparr>"
  have "\<not> accepted ?w (w_trace ?w) (post_request ?w (room_path (to_str (JStr ''r1'')) ''/leave'') None)"
    by (simp add: accepted_def res_ok_def)
  with leave_room_outcome [of userStoreInit "JStr ''r1''" ?w] show ?thesis by (simp add: demo_world_def)
qed

end
