(* ===== verification/Round_Progress.thy ===== *)
theory Round_Progress
  imports Worker Room_Events
begin

text \<open>
  The panel, the worker and the content script together, for the touched problems of a round: the panel
  sends a reset with the key of the round on every start it sees, the start is replayed to every
  reconnecting panel (\<open>Room_Events\<close>), and the worker keeps the reports of the content script in
  \<open>chrome.storage.session\<close> (\<open>Touch_Queue\<close>, \<open>Worker\<close>).
\<close>

text \<open>The messages that a panel has sent to the worker, and the reports of the content script.\<close>

definition sent_messages :: "world \<Rightarrow> jv list" where
  "sent_messages w = List.map_filter (\<lambda>e. case e of SendMessage m \<Rightarrow> Some m | _ \<Rightarrow> None) (w_trace w)"

definition touch_report :: "string \<Rightarrow> jv" where
  "touch_report slug = JObj [(''type'', JStr ''PROBLEM_TOUCHED''), (''slug'', JStr slug)]"

lemma touch_view_report [simp]: "touch_view (Receive (touch_report s)) = [Touched (JStr s)]"
  by (simp add: touch_report_def message_type_def obj_lookup_def)

definition reset_request :: "string \<Rightarrow> jv" where
  "reset_request key = JObj [(''type'', JStr ''PROBLEM_PROGRESS_RESET''), (''roundKey'', JStr key)]"

lemma touch_view_reset [simp]: "touch_view (Receive (reset_request k)) = [RoundReset (JStr k)]"
  by (simp add: reset_request_def message_type_def obj_lookup_def)

text \<open>An event of the worker that touches no problem of another round.\<close>

definition same_round :: "string \<Rightarrow> worker_event \<Rightarrow> bool" where
  "same_round key e \<longleftrightarrow> (\<forall>t\<in>set (touch_view e). resolved t \<and>
     (case t of RoundReset k \<Rightarrow> k = JStr key | Touched v \<Rightarrow> (\<exists>s. v = JStr s) | _ \<Rightarrow> True))"

lemma arrival_in_round:
  "(case t of RoundReset k \<Rightarrow> k = JStr key | Touched v \<Rightarrow> (\<exists>s. v = JStr s) | _ \<Rightarrow> True) \<Longrightarrow>
   op \<in> set (touch_arrival t) \<Longrightarrow> in_round key op"
  by (cases t) (auto simp: in_round_def split: if_splits)

lemma arrivals_in_round:
  assumes "\<forall>e\<in>set es. same_round key e"
  shows "\<forall>op\<in>set (arrivals (concat (map touch_view es))). in_round key op"
proof
  fix op assume "op \<in> set (arrivals (concat (map touch_view es)))"
  then obtain e t where "e \<in> set es" "t \<in> set (touch_view e)" "op \<in> set (touch_arrival t)"
    unfolding arrivals_def by (simp only: set_concat set_map) blast
  with assms show "in_round key op" unfolding same_round_def by (blast intro: arrival_in_round)
qed

text \<open>
  C20: replaying the start of a round never loses progress. Every panel that sees the start asks the
  worker for a reset with the same key; after the worker has taken the first of these requests, whatever
  reports and replayed requests of the round follow, in any order and interleaved with the reads and
  writes of the storage, the stored problems are exactly those reported since, each once.
\<close>

theorem replay_keeps_progress:
  fixes w m rid data es
  defines "key \<equiv> round_key rid data (round_problems data)"
  assumes "wk_touch w = touchInit m" "session_get m TOUCHED_ROUND_KEY \<noteq> JStr key"
    and "\<forall>e\<in>set es. same_round key e"
  defines "w' \<equiv> run worker_step (Receive (reset_request key) # es) w"
  assumes "tq_chain (wk_touch w') = []"
  shows "(\<forall>me v. w_chrome v \<longrightarrow> resets (snd (round_start_event me rid data v)) = resets v @ [JStr key]) \<and>
    session_get (tq_session (wk_touch w')) TOUCHED_KEY = JArr (map JStr (marked (arrivals (concat (map touch_view es)))))"
proof -
  let ?ts = "RoundReset (JStr key) # concat (map touch_view es)"
  have run: "wk_touch w' = run touch_step ?ts (touchInit m)"
    unfolding w'_def touch_simulation_run by (simp only: list.map concat.simps touch_view_reset run_append run_Cons run_Nil assms(2))
  have "\<forall>t\<in>set ?ts. resolved t" using assms(4) by (auto simp: same_round_def)
  then have "tq_session (wk_touch w') = fold touch_apply (arrivals ?ts) m"
    using assms(6) settled_run [of "touchInit m" ?ts] touches.inv_init
    unfolding run by (simp add: settled_def touchInit_def)
  moreover have "arrivals ?ts = ResetOp (JStr key) # arrivals (concat (map touch_view es))"
    by (simp add: arrivals_def)
  ultimately have "session_get (tq_session (wk_touch w')) TOUCHED_KEY =
      JArr (map JStr (marked (arrivals (concat (map touch_view es)))))"
    using touched_in_round [OF arrivals_in_round [OF assms(4)], of "touch_apply (ResetOp (JStr key)) m"] assms(3)
    by (simp add: touch_apply_reset)
  then show ?thesis using round_start_effect(3) by (simp add: key_def)
qed

definition played_again :: "worker_event list" where
  "played_again = [TouchRead True, TouchWrote True, Receive (touch_report ''two-sum''),
     Receive (reset_request (round_key (JStr ''r1'') demo_round (round_problems demo_round))),
     TouchRead True, TouchWrote True, TouchRead True, Receive (touch_report ''two-sum''), TouchRead True]"

lemma touch_view_played:
  "concat (map touch_view played_again) = [ReadDone True, WriteDone True, Touched (JStr ''two-sum''),
     RoundReset (JStr (round_key (JStr ''r1'') demo_round (round_problems demo_round))),
     ReadDone True, WriteDone True, ReadDone True, Touched (JStr ''two-sum''), ReadDone True]"
  unfolding played_again_def
  by (simp only: list.map concat.simps touch_view_report touch_view_reset touch_view.simps(2,3) append.simps)

theorem replay_keeps_progress_witness:
  "session_get (tq_session (wk_touch (run worker_step
     (Receive (reset_request (round_key (JStr ''r1'') demo_round (round_problems demo_round))) # played_again) pending_demo)))
     TOUCHED_KEY = JArr [JStr ''two-sum'']"
proof -
  let ?key = "round_key (JStr ''r1'') demo_round (round_problems demo_round)"
  have t: "wk_touch pending_demo = touchInit Map.empty" by (simp add: pending_demo_def worker_start_def)
  have n: "session_get Map.empty TOUCHED_ROUND_KEY \<noteq> JStr ?key" by (simp add: session_get_def)
  have s: "\<forall>e\<in>set played_again. same_round ?key e"
    by (simp add: played_again_def same_round_def del: touch_view.simps(1))
  have "wk_touch (run worker_step (Receive (reset_request ?key) # played_again) pending_demo) =
      run touch_step (RoundReset (JStr ?key) # concat (map touch_view played_again)) (touchInit Map.empty)"
    unfolding touch_simulation_run t by (simp only: list.map concat.simps touch_view_reset run_append run_Cons run_Nil)
  then have c: "tq_chain (wk_touch (run worker_step (Receive (reset_request ?key) # played_again) pending_demo)) = []"
    by (simp only: touch_view_played)
       (simp add: touchInit_def resetTouchedProblems_def markProblemTouched_def session_get_def js_includes_def spread_def
          Let_def js_or_def)
  have m: "marked (arrivals (concat (map touch_view played_again))) = [''two-sum'']"
    by (simp only: touch_view_played) (simp add: arrivals_def marked_def)
  from replay_keeps_progress [OF t n s c] m show ?thesis by simp
qed

end
