(* ===== verification/Round_Statistics.thy ===== *)
theory Round_Statistics
  imports Round_Views
begin

text \<open>
  What the panel computes from the details of a round: the solve times and counts of
  \<open>customComponents/RoomDisplays/StatisticsDisplay.tsx\<close>, the progress bar of
  \<open>customComponents/Toolbar/ProblemProgress.tsx\<close>, and the podium of \<open>LeaderboardDisplay.tsx\<close>. The data have
  the types that \<open>hooks/useStatistics.ts\<close> declares; the time stamps are read by \<open>parse_date\<close>, and where one
  of them cannot be read (every time in the program is then NaN) the result is \<open>None\<close>.
\<close>

section \<open>The data\<close>

record round_problem =
  rp_id :: int
  rp_name :: string
  rp_slug :: string
  rp_difficulty :: string

record solved_info =
  so_problemId :: int
  so_timestamp :: string

record round_details =
  rd_roundStartTime :: string
  rd_problems :: "round_problem list option"
  rd_solvedProblems :: "(string \<times> solved_info list) list option"

text \<open>\<open>roundDetails.solvedProblems[id] ?? []\<close>\<close>

definition solved_of :: "(string \<times> solved_info list) list \<Rightarrow> string \<Rightarrow> solved_info list" where
  "solved_of m uid = (case map_of m uid of None \<Rightarrow> [] | Some l \<Rightarrow> l)"

text \<open>\<open>roundDetails?.problems ?? []\<close>\<close>

definition details_problems :: "round_details option \<Rightarrow> round_problem list" where
  "details_problems rd = (case rd of None \<Rightarrow> [] | Some r \<Rightarrow> (case rd_problems r of None \<Rightarrow> [] | Some ps \<Rightarrow> ps))"

section \<open>The solved problems in order\<close>

text \<open>An entry with its time in milliseconds; \<open>None\<close> when a time stamp is unreadable.\<close>

definition timed :: "solved_info \<Rightarrow> (int \<times> int) option" where
  "timed s = map_option (\<lambda>t. (so_problemId s, t)) (parse_date (so_timestamp s))"

fun all_timed :: "solved_info list \<Rightarrow> (int \<times> int) list option" where
  "all_timed [] = Some []"
| "all_timed (s # ss) = (case (timed s, all_timed ss) of (Some x, Some xs) \<Rightarrow> Some (x # xs) | _ \<Rightarrow> None)"

text \<open>The comparator subtracts the times; the library's sort is stable.\<close>

definition sortedSolved :: "solved_info list \<Rightarrow> (int \<times> int) list option" where
  "sortedSolved ss = map_option (sort_key snd) (all_timed ss)"

section \<open>Difficulties\<close>

definition lower_char :: "char \<Rightarrow> char" where
  "lower_char c = (let n = (of_char c :: nat) in
     if (65 \<le> n \<and> n \<le> 90) \<or> (192 \<le> n \<and> n \<le> 222 \<and> n \<noteq> 215) then char_of (n + 32) else c)"

definition upper_char :: "char \<Rightarrow> string" where
  "upper_char c = (let n = (of_char c :: nat) in
     if (97 \<le> n \<and> n \<le> 122) \<or> (224 \<le> n \<and> n \<le> 254 \<and> n \<noteq> 247) then [char_of (n - 32)]
     else if n = 223 then ''SS'' else [c])"

text \<open>\<open>d.charAt(0).toUpperCase() + d.slice(1).toLowerCase()\<close>\<close>

definition capitalize :: "string \<Rightarrow> string" where
  "capitalize d = (case d of [] \<Rightarrow> [] | c # cs \<Rightarrow> upper_char c @ map lower_char cs)"

datatype difficulty = Easy | Medium | Hard

definition difficulty_of :: "string \<Rightarrow> difficulty option" where
  "difficulty_of key =
     (if key = ''Easy'' then Some Easy else if key = ''Medium'' then Some Medium
      else if key = ''Hard'' then Some Hard else None)"

section \<open>Solve times\<close>

record solve_times =
  st_ids :: "int list"
  st_perDifficulty :: "difficulty \<Rightarrow> int"
  st_totalMs :: int
  st_lastTime :: int

definition seconds_between :: "int \<Rightarrow> int \<Rightarrow> int" where
  "seconds_between lastTime t = max 0 ((t - lastTime) div 1000)"

definition diffMap :: "round_problem list \<Rightarrow> int \<rightharpoonup> string" where
  "diffMap ps = map_of (rev (map (\<lambda>p. (rp_id p, rp_difficulty p)) ps))"

text \<open>The body of the loop over the solved problems.\<close>

definition add_difficulty :: "string option \<Rightarrow> int \<Rightarrow> (difficulty \<Rightarrow> int) \<Rightarrow> difficulty \<Rightarrow> int" where
  "add_difficulty d sec f =
     (case d of None \<Rightarrow> f
      | Some t \<Rightarrow> if t = [] then f
                 else (case difficulty_of (capitalize t) of None \<Rightarrow> f | Some k \<Rightarrow> f(k := f k + sec)))"

definition solve_step :: "(int \<rightharpoonup> string) \<Rightarrow> int \<times> int \<Rightarrow> solve_times \<Rightarrow> solve_times" where
  "solve_step dm s a =
     (let (pid, t) = s; sec = seconds_between (st_lastTime a) t in
      \<lparr>st_ids = List.insert pid (st_ids a), st_perDifficulty = add_difficulty (dm pid) sec (st_perDifficulty a),
       st_totalMs = st_totalMs a + (t - st_lastTime a), st_lastTime = t\<rparr>)"

definition solve_loop :: "(int \<rightharpoonup> string) \<Rightarrow> int \<Rightarrow> (int \<times> int) list \<Rightarrow> solve_times" where
  "solve_loop dm start ss =
     fold (solve_step dm) ss \<lparr>st_ids = [], st_perDifficulty = (\<lambda>_. 0), st_totalMs = 0, st_lastTime = start\<rparr>"

definition min_sec :: "int \<Rightarrow> string" where
  "min_sec n = show_int (n div 60) @ ''m '' @ show_int (n mod 60) @ ''s''"

text \<open>The memo of the display: solved ids, total time and seconds per difficulty; an em dash is \<open>''-''\<close>.\<close>

record solve_view =
  sw_solvedIds :: "int list"
  sw_totalTime :: string
  sw_perDifficulty :: "difficulty \<Rightarrow> int"

definition no_solve :: solve_view where
  "no_solve = \<lparr>sw_solvedIds = [], sw_totalTime = ''-'', sw_perDifficulty = (\<lambda>_. 0)\<rparr>"

definition solve_memo :: "string option \<Rightarrow> round_details option \<Rightarrow> solve_view option" where
  "solve_memo selected rd =
     (case (selected, rd) of
        (Some uid, Some r) \<Rightarrow>
          (case rd_solvedProblems r of
             None \<Rightarrow> Some no_solve
           | Some m \<Rightarrow>
               if rd_roundStartTime r = [] \<or> solved_of m uid = [] then Some no_solve
               else (case (sortedSolved (solved_of m uid), parse_date (rd_roundStartTime r)) of
                  (Some ss, Some start) \<Rightarrow>
                    (let a = solve_loop (diffMap (details_problems rd)) start ss in
                     Some \<lparr>sw_solvedIds = st_ids a,
                       sw_totalTime = (if st_totalMs a > 0 then min_sec (st_totalMs a div 1000) else ''-''),
                       sw_perDifficulty = st_perDifficulty a\<rparr>)
                | _ \<Rightarrow> None))
      | _ \<Rightarrow> Some no_solve)"

text \<open>\<open>problemTimeMap\<close>: the text of a problem is that of its last submission in the order of time.\<close>

fun time_texts :: "int \<Rightarrow> (int \<times> int) list \<Rightarrow> (int \<rightharpoonup> string)" where
  "time_texts lastTime [] = Map.empty"
| "time_texts lastTime ((pid, t) # ss) = [pid \<mapsto> min_sec (seconds_between lastTime t)] ++ time_texts t ss"

section \<open>Counts and charts\<close>

definition has_difficulty :: "difficulty \<Rightarrow> round_problem \<Rightarrow> bool" where
  "has_difficulty k p \<longleftrightarrow> difficulty_of (capitalize (rp_difficulty p)) = Some k"

definition diff_total :: "round_problem list \<Rightarrow> difficulty \<Rightarrow> nat" where
  "diff_total ps k = length (filter (has_difficulty k) ps)"

definition diff_solved :: "round_problem list \<Rightarrow> int list \<Rightarrow> difficulty \<Rightarrow> nat" where
  "diff_solved ps ids k = length (filter (\<lambda>p. has_difficulty k p \<and> rp_id p \<in> set ids) ps)"

text \<open>\<open>pieData\<close>: the slices with their seconds and solved counts.\<close>

definition pieData :: "(difficulty \<Rightarrow> int) \<Rightarrow> (difficulty \<Rightarrow> nat) \<Rightarrow> (difficulty \<times> int \<times> nat) list" where
  "pieData per counts = filter (\<lambda>d. fst (snd d) > 0) (map (\<lambda>k. (k, per k, counts k)) [Easy, Medium, Hard])"

definition safeIdx :: "nat \<Rightarrow> 'a list \<Rightarrow> nat" where
  "safeIdx selectedIdx ps = min selectedIdx (max (length ps - 1) 0)"

definition selected_of :: "nat \<Rightarrow> 'a list \<Rightarrow> 'a option" where
  "selected_of selectedIdx ps = arr_at ps (int (safeIdx selectedIdx ps))"

text \<open>The label of a bar; the ellipsis is one character, written as a dot here.\<close>

definition bar_label :: "string \<Rightarrow> string" where
  "bar_label name = (if length name > 8 then take 7 name @ ''.'' else name)"

datatype statistics_screen = Hidden | Loading | NoData | Shown

definition statistics_screen :: "bool \<Rightarrow> bool \<Rightarrow> jv \<Rightarrow> 'a list \<Rightarrow> statistics_screen" where
  "statistics_screen isActive isLoading err ps =
     (if \<not> isActive then Hidden
      else if isLoading \<and> ps = [] then Loading
      else if truthy err \<and> ps = [] then NoData else Shown)"

section \<open>The progress bar\<close>

datatype segment = Solved | Active | Touched | Untouched

definition progress_problems :: "round_details option \<Rightarrow> string list \<Rightarrow> string list" where
  "progress_problems rd storeProblems =
     (let fromServer = filter (\<lambda>s. s \<noteq> []) (map rp_slug (details_problems rd)) in
      if length fromServer > 0 then fromServer else storeProblems)"

definition solvedSlugs :: "jv \<Rightarrow> round_details option \<Rightarrow> string list" where
  "solvedSlugs uid rd =
     (let solved = (if truthy uid then (case rd of None \<Rightarrow> [] | Some r \<Rightarrow>
            (case rd_solvedProblems r of None \<Rightarrow> [] | Some m \<Rightarrow> solved_of m (to_str uid))) else []);
          slugById = map_of (rev (map (\<lambda>p. (rp_id p, rp_slug p)) (details_problems rd))) in
      remdups (List.map_filter (\<lambda>s. case slugById (so_problemId s) of Some t \<Rightarrow> (if t = [] then None else Some t) | None \<Rightarrow> None) solved))"

definition segmentState :: "string list \<Rightarrow> string option \<Rightarrow> string list \<Rightarrow> string \<Rightarrow> segment" where
  "segmentState solved currSlug touched slug =
     (if slug \<in> set solved then Solved else if currSlug = Some slug then Active
      else if slug \<in> set touched then Touched else Untouched)"

text \<open>The slug of the active tab: read once, then at every update and activation.\<close>

definition sync_slug :: "string option \<Rightarrow> string option" where
  "sync_slug url = (case url of None \<Rightarrow> None | Some u \<Rightarrow> if u = [] then None else parseProblemSlug u)"

section \<open>The leaderboard display\<close>

definition byRank :: "'a list \<Rightarrow> nat \<Rightarrow> 'a option" where
  "byRank standings rank = (if rank \<in> {1, 2, 3} then arr_at standings (int rank - 1) else None)"

definition rest_of :: "'a list \<Rightarrow> (nat \<times> 'a) list" where
  "rest_of standings = enumerate 4 (drop 3 standings)"

definition PODIUM_RANKS :: "nat list" where
  "PODIUM_RANKS = [2, 1, 3]"

definition hex_pair :: "string \<Rightarrow> nat option" where
  "hex_pair s = (case s of [a, b] \<Rightarrow>
     (case (hex_val a, hex_val b) of (Some x, Some y) \<Rightarrow> Some (16 * x + y) | _ \<Rightarrow> None) | _ \<Rightarrow> None)"

definition hexToRgb :: "string \<Rightarrow> string option" where
  "hexToRgb hex =
     (let clean = take 6 (remove1 CHR ''#'' hex) in
      case (hex_pair (take 2 clean), hex_pair (take 2 (drop 2 clean)), hex_pair (take 2 (drop 4 clean))) of
        (Some r, Some g, Some b) \<Rightarrow> Some (show_nat r @ '','' @ show_nat g @ '','' @ show_nat b)
      | _ \<Rightarrow> None)"

section \<open>The solve times add up\<close>

definition all_difficulties :: "(difficulty \<Rightarrow> int) \<Rightarrow> int" where
  "all_difficulties f = f Easy + f Medium + f Hard"

definition known_difficulty :: "string option \<Rightarrow> bool" where
  "known_difficulty d \<longleftrightarrow> (case d of None \<Rightarrow> False | Some t \<Rightarrow> t \<noteq> [] \<and> difficulty_of (capitalize t) \<noteq> None)"

lemma all_difficulties_add:
  "all_difficulties (add_difficulty d n f) = all_difficulties f + (if known_difficulty d then n else 0)"
proof (cases "known_difficulty d")
  case False
  then show ?thesis by (auto simp: known_difficulty_def add_difficulty_def split: option.split)
next
  case True
  then obtain t k where d: "d = Some t" "t \<noteq> []" "difficulty_of (capitalize t) = Some k"
    by (auto simp: known_difficulty_def split: option.splits)
  then have "add_difficulty d n f = f(k := f k + n)" by (simp add: add_difficulty_def)
  with True show ?thesis by (cases k) (simp_all add: all_difficulties_def)
qed

definition solve_sums :: "(int \<rightharpoonup> string) \<Rightarrow> (int \<times> int) list \<Rightarrow> solve_times \<Rightarrow> solve_times \<Rightarrow> bool" where
  "solve_sums dm ss a b \<longleftrightarrow>
     st_lastTime b = (if ss = [] then st_lastTime a else snd (last ss)) \<and>
     st_totalMs b - st_totalMs a = st_lastTime b - st_lastTime a \<and>
     all_difficulties (st_perDifficulty b) - all_difficulties (st_perDifficulty a) \<le> (st_lastTime b - st_lastTime a) div 1000 \<and>
     ((\<exists>x \<in> set ss. \<not> known_difficulty (dm (fst x))) \<or>
       (st_lastTime b - st_lastTime a) div 1000 \<le>
         all_difficulties (st_perDifficulty b) - all_difficulties (st_perDifficulty a) + int (length ss)) \<and>
     set (st_ids b) = set (st_ids a) \<union> fst ` set ss"

lemma solve_fold:
  assumes "sorted (map snd ss)" "\<forall>x \<in> set ss. st_lastTime a \<le> snd x"
  shows "solve_sums dm ss a (fold (solve_step dm) ss a)"
  using assms
proof (induction ss arbitrary: a)
  case Nil
  then show ?case by (simp add: solve_sums_def)
next
  case (Cons x ss)
  let ?pid = "fst x" and ?t = "snd x"
  let ?c = "solve_step dm x a"
  let ?sec = "seconds_between (st_lastTime a) ?t"
  have c: "st_lastTime ?c = ?t" "st_totalMs ?c = st_totalMs a + (?t - st_lastTime a)" "set (st_ids ?c) = insert ?pid (set (st_ids a))"
    by (auto simp: solve_step_def Let_def prod.case_eq_if)
  have d: "all_difficulties (st_perDifficulty ?c) = all_difficulties (st_perDifficulty a) + (if known_difficulty (dm ?pid) then ?sec else 0)"
    by (simp add: solve_step_def Let_def prod.case_eq_if all_difficulties_add)
  have sec: "?sec = (?t - st_lastTime a) div 1000" "0 \<le> ?sec"
    using Cons.prems by (simp_all add: seconds_between_def max_def pos_imp_zdiv_nonneg_iff)
  let ?e = "fold (solve_step dm) ss ?c"
  have e: "solve_sums dm ss ?c ?e" using Cons.prems by (intro Cons.IH) (simp_all add: c)
  have split: "(?t - st_lastTime a) div 1000 + (st_lastTime ?e - ?t) div 1000 \<le> (st_lastTime ?e - st_lastTime a) div 1000"
    "(st_lastTime ?e - st_lastTime a) div 1000 \<le> (?t - st_lastTime a) div 1000 + (st_lastTime ?e - ?t) div 1000 + 1"
    by linarith+
  show ?case unfolding solve_sums_def
  proof (intro conjI)
    show "st_lastTime (fold (solve_step dm) (x # ss) a) = (if x # ss = [] then st_lastTime a else snd (last (x # ss)))"
      using e by (simp add: solve_sums_def c)
    show "st_totalMs (fold (solve_step dm) (x # ss) a) - st_totalMs a = st_lastTime (fold (solve_step dm) (x # ss) a) - st_lastTime a"
      using e by (simp add: solve_sums_def c)
    show "set (st_ids (fold (solve_step dm) (x # ss) a)) = set (st_ids a) \<union> fst ` set (x # ss)"
      using e by (auto simp: solve_sums_def c)
  qed (use e split sec d in \<open>auto simp: solve_sums_def c split: if_splits\<close>)
qed

text \<open>
  C38: the solve times add up: for submissions after the start of the round, the total is the time from the
  start to the last one; the seconds per difficulty never exceed it, and when every solved problem has a
  difficulty they miss at most one second for each of them. The solved ids are exactly those submitted.
\<close>

theorem solve_times_add_up:
  fixes dm start ss
  assumes "ss \<noteq> []" "\<forall>s \<in> set ss. start \<le> snd s"
  defines "a \<equiv> solve_loop dm start (sort_key snd ss)"
  shows "st_totalMs a = Max (set (map snd ss)) - start \<and>
    all_difficulties (st_perDifficulty a) \<le> st_totalMs a div 1000 \<and>
    ((\<exists>s \<in> set ss. \<not> known_difficulty (dm (fst s))) \<or>
       st_totalMs a div 1000 \<le> all_difficulties (st_perDifficulty a) + int (length ss)) \<and>
    set (st_ids a) = fst ` set ss"
proof -
  let ?z = "\<lparr>st_ids = [], st_perDifficulty = (\<lambda>_. 0), st_totalMs = 0, st_lastTime = start\<rparr>"
  let ?s = "sort_key snd ss"
  have s: "sorted (map snd ?s)" "\<forall>x \<in> set ?s. st_lastTime ?z \<le> snd x" "?s \<noteq> []"
    using assms(1,2) by (simp_all add: set_empty [symmetric] del: set_empty)
  have a: "a = fold (solve_step dm) ?s ?z" by (simp add: a_def solve_loop_def)
  note f = solve_fold [OF s(1,2), of dm, folded a, unfolded solve_sums_def]
  have "snd (last ?s) = Max (set (map snd ss))"
  proof (rule Max_eqI [symmetric])
    show "finite (set (map snd ss))" by simp
    show "snd (last ?s) \<in> set (map snd ss)" using last_in_set [OF s(3)] by auto
    fix y assume "y \<in> set (map snd ss)"
    then have "y \<in> set (map snd ?s)" by simp
    then obtain i where i: "i < length ?s" "map snd ?s ! i = y" by (metis in_set_conv_nth length_map)
    have "map snd ?s ! i \<le> map snd ?s ! (length ?s - 1)"
      using i(1) s(1,3) by (intro sorted_nth_mono) auto
    then show "y \<le> snd (last ?s)" using i s(3) by (simp add: last_conv_nth)
  qed
  moreover have "all_difficulties (st_perDifficulty ?z) = 0" by (simp add: all_difficulties_def)
  ultimately show ?thesis using f s(3) by auto
qed

theorem solve_times_add_up_witness:
  "st_totalMs (solve_loop ((\<lambda>_. Some ''EASY'')(7 := Some ''hard'')) 1000 (sort_key snd [(7, 9500), (3, 4200)])) = 8500"
  using solve_times_add_up [of "[(7, 9500), (3, 4200)]" 1000 "(\<lambda>_. Some ''EASY'')(7 := Some ''hard'')"] by simp

end
