(* ===== verification/Toolbar.thy ===== *)
theory Toolbar
  imports Round_Views Navigation JSON_Codec
begin

text \<open>
  The toolbar of a room (\<open>customComponents/Toolbar/Toolbar.tsx\<close>), as a step function over what the browser and
  the user do. An effect of React runs with the change that triggers it; the callbacks of \<open>chrome.tabs.query\<close>
  are events of their own, which may come late.
\<close>

section \<open>Stepping through the problems of a round\<close>

text \<open>\<open>xs.indexOf(x)\<close>\<close>

fun js_index_of :: "'a list \<Rightarrow> 'a \<Rightarrow> int" where
  "js_index_of [] x = -1"
| "js_index_of (y # ys) x = (if y = x then 0 else let i = js_index_of ys x in if i = -1 then -1 else i + 1)"

text \<open>
  \<open>tb_index\<close> is -2 until the URL of the tab is known and -1 off the problems of the round;
  \<open>tb_listening\<close> and \<open>tb_queries\<close> hold the problems that the callbacks were created with.
\<close>

record toolbar =
  tb_problems :: "string list"
  tb_index :: int
  tb_timerVisible :: bool
  tb_listening :: "string list option"
  tb_queries :: "string list list"
  tb_opened :: "string list"

definition sync_index :: "string list \<Rightarrow> string option \<Rightarrow> int" where
  "sync_index ps url =
     (let slug = (case url of None \<Rightarrow> None | Some u \<Rightarrow> if u = [] then None else parseProblemSlug u) in
      case slug of None \<Rightarrow> -1 | Some s \<Rightarrow> if s = [] then -1 else js_index_of ps s)"

text \<open>The effect on \<open>problems\<close>, after the cleanup of the one before.\<close>

definition problems_effect :: "toolbar \<Rightarrow> toolbar" where
  "problems_effect tb =
     (if tb_problems tb = [] then tb\<lparr>tb_listening := None\<rparr>
      else tb\<lparr>tb_listening := Some (tb_problems tb), tb_queries := tb_queries tb @ [tb_problems tb]\<rparr>)"

definition toolbarInit :: "string list \<Rightarrow> toolbar" where
  "toolbarInit ps = problems_effect
     \<lparr>tb_problems = ps, tb_index = -2, tb_timerVisible = True, tb_listening = None, tb_queries = [], tb_opened = []\<rparr>"

text \<open>\<open>problemUrl(problems[i])\<close>, also for an index outside the list.\<close>

definition url_at :: "string list \<Rightarrow> int \<Rightarrow> string" where
  "url_at ps i = problemUrl (case arr_at ps i of Some s \<Rightarrow> s | None \<Rightarrow> ''undefined'')"

definition stepProblem :: "int \<Rightarrow> toolbar \<Rightarrow> toolbar" where
  "stepProblem delta tb =
     (let newIndex = (if tb_index tb = -1 then 0 else tb_index tb + delta) in
      tb\<lparr>tb_opened := tb_opened tb @ [url_at (tb_problems tb) newIndex]\<rparr>)"

definition previous_disabled :: "toolbar \<Rightarrow> bool" where
  "previous_disabled tb \<longleftrightarrow> tb_index tb = -2 \<or> tb_index tb = 0"

definition next_disabled :: "toolbar \<Rightarrow> bool" where
  "next_disabled tb \<longleftrightarrow> tb_index tb = -2 \<or> tb_index tb = int (length (tb_problems tb)) - 1"

definition tab_updated :: "string option \<Rightarrow> bool \<Rightarrow> toolbar \<Rightarrow> toolbar" where
  "tab_updated change active tb =
     (case (tb_listening tb, change) of
        (Some ps, Some u) \<Rightarrow> if u \<noteq> [] \<and> active then tb\<lparr>tb_index := sync_index ps change\<rparr> else tb
      | _ \<Rightarrow> tb)"

datatype toolbar_event =
    ProblemsStored "string list"
  | QueryAnswered nat "string option"
  | TabUpdated "string option" bool
  | PreviousClicked | NextClicked | TimerToggled

fun toolbar_step :: "toolbar_event \<Rightarrow> toolbar \<Rightarrow> toolbar" where
  "toolbar_step (ProblemsStored ps) tb = problems_effect (tb\<lparr>tb_problems := ps\<rparr>)"
| "toolbar_step (QueryAnswered i url) tb =
     (if i < length (tb_queries tb)
      then tb\<lparr>tb_index := sync_index (tb_queries tb ! i) url, tb_queries := take i (tb_queries tb) @ drop (Suc i) (tb_queries tb)\<rparr>
      else tb)"
| "toolbar_step (TabUpdated change active) tb = tab_updated change active tb"
| "toolbar_step PreviousClicked tb = (if previous_disabled tb then tb else stepProblem (-1) tb)"
| "toolbar_step NextClicked tb = (if next_disabled tb then tb else stepProblem 1 tb)"
| "toolbar_step TimerToggled tb = tb\<lparr>tb_timerVisible := \<not> tb_timerVisible tb\<rparr>"

text \<open>The button for the round and the one for the settings.\<close>

datatype round_button = NoButton | StartButton | EndButton

definition round_button :: "bool \<Rightarrow> bool \<Rightarrow> bool \<Rightarrow> round_button" where
  "round_button admin ended started =
     (if admin \<and> \<not> ended then (if started then EndButton else StartButton) else NoButton)"

definition toggleSettings :: "room_store \<Rightarrow> room_store" where
  "toggleSettings s = (if activeTab s = TabSettings then setActiveTab (previousTab s) s else setActiveTab TabSettings s)"

section \<open>The buttons stay within the round\<close>

lemma js_index_of_range: "-1 \<le> js_index_of xs x \<and> js_index_of xs x < int (length xs)"
  by (induction xs) (auto simp: Let_def)

lemma js_index_of_nth: "distinct xs \<Longrightarrow> i < length xs \<Longrightarrow> js_index_of xs (xs ! i) = int i"
proof (induction xs arbitrary: i)
  case (Cons y ys)
  show ?case
  proof (cases i)
    case (Suc j)
    with Cons have "js_index_of ys (ys ! j) = int j" "y \<noteq> ys ! j" by auto
    then show ?thesis by (simp add: Suc Let_def)
  qed simp
qed simp

lemma sync_index_range: "-1 \<le> sync_index ps u \<and> sync_index ps u < int (length ps)"
  using js_index_of_range [of ps] by (simp add: sync_index_def Let_def split: option.split)

lemma url_at_member: "0 \<le> i \<Longrightarrow> i < int (length ps) \<Longrightarrow> url_at ps i \<in> problemUrl ` set ps"
  by (auto simp: url_at_def arr_at_def nat_less_iff)

definition round_event :: "string list \<Rightarrow> toolbar_event \<Rightarrow> bool" where
  "round_event ps e \<longleftrightarrow> (case e of ProblemsStored qs \<Rightarrow> qs = ps | _ \<Rightarrow> True)"

definition toolbar_inv :: "string list \<Rightarrow> toolbar \<Rightarrow> bool" where
  "toolbar_inv ps tb \<longleftrightarrow>
     (tb_problems tb = ps \<or> tb_problems tb = [] \<and> tb_index tb = -2 \<and> tb_listening tb = None \<and> tb_queries tb = []) \<and>
     (tb_listening tb = None \<or> tb_listening tb = Some ps) \<and> set (tb_queries tb) \<subseteq> {ps} \<and>
     -2 \<le> tb_index tb \<and> tb_index tb < int (length ps) \<and> set (tb_opened tb) \<subseteq> problemUrl ` set ps"

lemma toolbar_inv_init: "ps \<noteq> [] \<Longrightarrow> qs = [] \<or> qs = ps \<Longrightarrow> toolbar_inv ps (toolbarInit qs)"
  by (auto simp: toolbar_inv_def toolbarInit_def problems_effect_def)

lemma toolbar_inv_click:
  assumes "toolbar_inv ps tb" "tb_index tb \<noteq> -2" "ps \<noteq> []"
    "tb_index tb = -1 \<or> 0 \<le> tb_index tb + d \<and> tb_index tb + d < int (length ps)"
  shows "toolbar_inv ps (stepProblem d tb)"
  using assms url_at_member [of "if tb_index tb = -1 then 0 else tb_index tb + d" ps]
  by (auto simp: toolbar_inv_def stepProblem_def Let_def)

lemma toolbar_inv_step:
  assumes "round_event ps e" "toolbar_inv ps tb" "ps \<noteq> []"
  shows "toolbar_inv ps (toolbar_step e tb)"
proof (cases e)
  case (ProblemsStored qs)
  then show ?thesis using assms by (auto simp: round_event_def toolbar_inv_def problems_effect_def)
next
  case (QueryAnswered i u)
  have "set (take i (tb_queries tb) @ drop (Suc i) (tb_queries tb)) \<subseteq> set (tb_queries tb)"
    using set_take_subset set_drop_subset by fastforce
  moreover have "i < length (tb_queries tb) \<Longrightarrow> tb_queries tb ! i = ps"
    using assms(2) nth_mem by (fastforce simp: toolbar_inv_def)
  ultimately show ?thesis
    using assms(2) sync_index_range [of ps u] by (auto simp: QueryAnswered toolbar_inv_def)
next
  case (TabUpdated c a)
  then show ?thesis using assms(2) sync_index_range [of ps c]
    by (auto simp: toolbar_inv_def tab_updated_def split: option.split)
next
  case PreviousClicked
  have "toolbar_inv ps (stepProblem (-1) tb)" if "\<not> previous_disabled tb"
    by (rule toolbar_inv_click [OF assms(2)]) (use assms that in \<open>auto simp: previous_disabled_def toolbar_inv_def\<close>)
  then show ?thesis using assms(2) by (simp add: PreviousClicked)
next
  case NextClicked
  have "toolbar_inv ps (stepProblem 1 tb)" if "\<not> next_disabled tb"
    by (rule toolbar_inv_click [OF assms(2)]) (use assms that in \<open>auto simp: next_disabled_def toolbar_inv_def\<close>)
  then show ?thesis using assms(2) by (simp add: NextClicked)
next
  case TimerToggled
  then show ?thesis using assms(2) by (simp add: toolbar_inv_def)
qed

interpretation toolbar_round: guarded_machine
  "\<lambda>e. round_event ps e" toolbar_step "\<lambda>tb. ps \<noteq> [] \<and> toolbar_inv ps tb" for ps
  by unfold_locales (blast intro: toolbar_inv_step)

text \<open>
  C16: the toolbar never leaves the round: whatever is clicked and however late or often the tab reports its
  URL, every page the two buttons open is the page of a problem of the round, and a button that would step
  past either end is disabled.
\<close>

theorem toolbar_stays_in_round:
  fixes ps qs es
  assumes "ps \<noteq> []" "qs = [] \<or> qs = ps" "\<forall>e\<in>set es. round_event ps e"
  defines "tb \<equiv> run toolbar_step es (toolbarInit qs)"
  shows "set (tb_opened tb) \<subseteq> problemUrl ` set ps \<and>
    (tb_index tb = 0 \<longrightarrow> toolbar_step PreviousClicked tb = tb) \<and>
    (tb_problems tb = ps \<longrightarrow> tb_index tb = int (length ps) - 1 \<longrightarrow> toolbar_step NextClicked tb = tb)"
proof -
  have "ps \<noteq> [] \<and> toolbar_inv ps tb"
    unfolding tb_def using assms(1,3) toolbar_inv_init [OF assms(1,2)] by (intro toolbar_round.inv_run_guarded) auto
  then show ?thesis by (auto simp: toolbar_inv_def previous_disabled_def next_disabled_def)
qed

theorem toolbar_stays_in_round_witness:
  "set (tb_opened (run toolbar_step
      [ProblemsStored [''two-sum'', ''3sum''], QueryAnswered 0 (Some ''https://leetcode.com/problems/two-sum/''),
       PreviousClicked, NextClicked] (toolbarInit []))) \<subseteq> problemUrl ` {''two-sum'', ''3sum''}"
proof -
  let ?ps = "[''two-sum'', ''3sum'']"
  let ?es = "[ProblemsStored ?ps, QueryAnswered 0 (Some ''https://leetcode.com/problems/two-sum/''), PreviousClicked, NextClicked]"
  have e: "\<forall>e\<in>set ?es. round_event ?ps e" by (simp add: round_event_def)
  have p: "?ps \<noteq> []" and s: "set ?ps = {''two-sum'', ''3sum''}" by simp_all
  show ?thesis using toolbar_stays_in_round [OF p disjI1 [OF refl] e] unfolding s by blast
qed

text \<open>
  Without that condition it is not so: while the callbacks of a longer list are still out, the button opens a
  page that no problem has.
\<close>

lemma stale_index_opens_undefined:
  "tb_opened (run toolbar_step [QueryAnswered 0 (Some (problemUrl ''b'')), ProblemsStored [''c''], NextClicked]
     (toolbarInit [''a'', ''b'', ''d''])) = [problemUrl ''undefined'']"
  by (simp add: toolbarInit_def problems_effect_def sync_index_def next_disabled_def stepProblem_def url_at_def arr_at_def
      problemUrl_def Let_def slug_char_def)

section \<open>Walking through a round\<close>

text \<open>A click, after which the browser has opened the page.\<close>

definition walk :: "string list \<Rightarrow> nat \<Rightarrow> toolbar_event list" where
  "walk ps i = [NextClicked, TabUpdated (Some (problemUrl (ps ! Suc i))) True]"

lemma problemUrl_nonempty [simp]: "problemUrl s \<noteq> []"
  by (simp add: problemUrl_def)

lemma sync_on_problem:
  assumes "distinct ps" "i < length ps" "slug_ok (ps ! i)"
  shows "sync_index ps (Some (problemUrl (ps ! i))) = int i"
  using assms by (simp add: sync_index_def Let_def parse_problemUrl js_index_of_nth slug_ok_def)

lemma walk_step:
  assumes "distinct ps" "\<forall>s\<in>set ps. slug_ok s" "Suc i < length ps"
    and "tb_problems tb = ps" "tb_listening tb = Some ps" "tb_index tb = int i"
  shows "run toolbar_step (walk ps i) tb = tb\<lparr>tb_index := int (Suc i), tb_opened := tb_opened tb @ [problemUrl (ps ! Suc i)]\<rparr>"
  using assms sync_on_problem [of ps "Suc i"]
  by (simp add: walk_def next_disabled_def stepProblem_def url_at_def arr_at_def tab_updated_def nat_add_distrib Let_def)

text \<open>Clicking through a round opens its problems in their order.\<close>

lemma toolbar_walks_round:
  assumes "distinct ps" "\<forall>s\<in>set ps. slug_ok s" "n < length ps"
  shows "run toolbar_step (QueryAnswered 0 (Some (problemUrl (hd ps))) # concat (map (walk ps) [0..<n])) (toolbarInit ps) =
    \<lparr>tb_problems = ps, tb_index = int n, tb_timerVisible = True, tb_listening = Some ps, tb_queries = [],
     tb_opened = map problemUrl (take n (tl ps))\<rparr>"
  using assms(3)
proof (induction n)
  case 0
  then have "ps \<noteq> []" "hd ps = ps ! 0" by (auto simp: hd_conv_nth)
  then show ?case using assms(1,2) 0 sync_on_problem [of ps 0]
    by (simp add: toolbarInit_def problems_effect_def)
next
  case (Suc n)
  then have "take (Suc n) (tl ps) = take n (tl ps) @ [ps ! Suc n]"
    by (simp add: take_Suc_conv_app_nth nth_tl)
  with Suc show ?case using assms(1,2) by (simp add: walk_step)
qed

end
