(* ===== verification/Timer_Form.thy ===== *)
theory Timer_Form
  imports Round_Views JSON_Codec
begin

text \<open>
  The timer form of the room's settings (\<open>customComponents/RoomDisplays/SettingsDisplay.tsx\<close>): the working value
  of the slider, the request that saves it and the duration in the room store, as one step function. The
  effects of React run with the change that triggers them; answers of the server and the timeout are events.
\<close>

section \<open>The form\<close>

definition MIN_DURATION :: int where "MIN_DURATION = 5"
definition MAX_DURATION :: int where "MAX_DURATION = 120"

text \<open>
  \<open>tf_duration\<close> and \<open>tf_room\<close> are the fields of the room store; \<open>tf_requests\<close> lists the requests sent with their
  room, the duration they carry and whether they still wait for their answer.
\<close>

record timer_form =
  tf_value :: jv
  tf_saving :: bool
  tf_error :: jv
  tf_saved :: bool
  tf_timeout :: bool
  tf_duration :: jv
  tf_room :: jv
  tf_active :: bool
  tf_requests :: "(jv \<times> jv \<times> bool) list"

text \<open>The effect on \<open>roundDuration\<close> and \<open>isActive\<close>.\<close>

definition sync_value :: "timer_form \<Rightarrow> timer_form" where
  "sync_value f = (if is_nullish (tf_duration f) then f else f\<lparr>tf_value := tf_duration f\<rparr>)"

definition timerFormInit :: "jv \<Rightarrow> jv \<Rightarrow> bool \<Rightarrow> timer_form" where
  "timerFormInit room dur active = sync_value
     \<lparr>tf_value = js_coalesce dur (JNum 30), tf_saving = False, tf_error = JNull, tf_saved = False, tf_timeout = False,
      tf_duration = dur, tf_room = room, tf_active = active, tf_requests = []\<rparr>"

text \<open>\<open>setSaved\<close> with the effect on \<open>saved\<close>: its cleanup clears the timeout, a new one starts when it is set.\<close>

definition set_saved :: "bool \<Rightarrow> timer_form \<Rightarrow> timer_form" where
  "set_saved b f = (if tf_saved f = b then f else f\<lparr>tf_saved := b, tf_timeout := b\<rparr>)"

definition store_duration :: "jv \<Rightarrow> timer_form \<Rightarrow> timer_form" where
  "store_duration d f = (if strict_eq d (tf_duration f) then f else sync_value (f\<lparr>tf_duration := d\<rparr>))"

definition clamp :: "int \<Rightarrow> int" where
  "clamp n = max MIN_DURATION (min MAX_DURATION n)"

definition change_value :: "int \<Rightarrow> timer_form \<Rightarrow> timer_form" where
  "change_value n f = set_saved False (f\<lparr>tf_value := JNum (clamp n), tf_error := JNull\<rparr>)"

definition dirty :: "timer_form \<Rightarrow> bool" where
  "dirty f \<longleftrightarrow> \<not> strict_eq (tf_value f) (tf_duration f)"

definition duration_request :: "string \<Rightarrow> jv \<Rightarrow> jv \<Rightarrow> request" where
  "duration_request server room d = \<lparr>rq_method = ''POST'', rq_url = server @ room_path (to_str room) ''/rounds/time'',
     rq_body = Some (json_stringify [(''duration'', d)]), rq_credentials = True\<rparr>"

text \<open>\<open>onSave\<close> up to its request, and after the answer.\<close>

definition onSave :: "timer_form \<Rightarrow> timer_form" where
  "onSave f =
     (if \<not> truthy (tf_room f) then f\<lparr>tf_error := JStr ''Not in a room.''\<rparr>
      else f\<lparr>tf_saving := True, tf_error := JNull, tf_requests := tf_requests f @ [(tf_room f, tf_value f, True)]\<rparr>)"

definition save_error :: "nat \<Rightarrow> jv \<Rightarrow> jv" where
  "save_error st data =
     js_or (if truthy data then js_or (opt_get data ''error'') (opt_get data ''message'') else data)
       (JStr (''Failed to update timer: '' @ show_int (int st)))"

definition saved_duration :: "jv \<Rightarrow> jv \<Rightarrow> jv" where
  "saved_duration data d = js_coalesce (opt_get (opt_get data ''data'') ''duration'') d"

definition save_answered :: "nat \<Rightarrow> http \<Rightarrow> timer_form \<Rightarrow> timer_form" where
  "save_answered i ans f =
     (if \<not> (i < length (tf_requests f) \<and> snd (snd (tf_requests f ! i))) then f
      else
        (let (room, d, _) = tf_requests f ! i;
             f1 = f\<lparr>tf_requests := (tf_requests f)[i := (room, d, False)]\<rparr>;
             f2 = (case ans of
                     NetError e \<Rightarrow> f1\<lparr>tf_error := js_or (opt_get e ''message'') (JStr ''Failed to update timer.'')\<rparr>
                   | Response st body \<Rightarrow>
                       (let data = (case body of None \<Rightarrow> JNull | Some v \<Rightarrow> v) in
                        if \<not> res_ok (st, body) then f1\<lparr>tf_error := save_error st data\<rparr>
                        else set_saved True (store_duration (saved_duration data d) f1))) in
         f2\<lparr>tf_saving := False\<rparr>))"

text \<open>What the form shows: the message after saving, and whether the button can be pressed.\<close>

definition shows_saved :: "timer_form \<Rightarrow> bool" where
  "shows_saved f \<longleftrightarrow> tf_saved f \<and> \<not> dirty f"

definition save_disabled :: "timer_form \<Rightarrow> bool" where
  "save_disabled f \<longleftrightarrow> tf_saving f \<or> \<not> dirty f"

datatype timer_event =
    SliderMoved int | SaveClicked | SaveAnswered nat http | SavedTimeout
  | DurationStored jv | TabShown bool

fun timer_step :: "timer_event \<Rightarrow> timer_form \<Rightarrow> timer_form" where
  "timer_step (SliderMoved n) f = change_value n f"
| "timer_step SaveClicked f = (if save_disabled f then f else onSave f)"
| "timer_step (SaveAnswered i ans) f = save_answered i ans f"
| "timer_step SavedTimeout f = (if tf_timeout f then set_saved False f else f)"
| "timer_step (DurationStored d) f = store_duration d f"
| "timer_step (TabShown b) f = (if b = tf_active f then f else sync_value (f\<lparr>tf_active := b\<rparr>))"

text \<open>The panel below the slider: who may change the timer, and when.\<close>

datatype timer_panel = AdminOnly | RoundRunning | Slider

definition timer_panel :: "bool \<Rightarrow> bool \<Rightarrow> timer_panel" where
  "timer_panel admin started = (if \<not> admin then AdminOnly else if started then RoundRunning else Slider)"

section \<open>Invariants\<close>

definition duration_ok :: "jv \<Rightarrow> bool" where
  "duration_ok d \<longleftrightarrow> (case d of JNum n \<Rightarrow> MIN_DURATION \<le> n \<and> n \<le> MAX_DURATION | _ \<Rightarrow> is_nullish d)"

text \<open>The durations that other parts of the panel and the server's answers bring.\<close>

definition durations_ok :: "timer_event \<Rightarrow> bool" where
  "durations_ok e \<longleftrightarrow> (case e of
     DurationStored d \<Rightarrow> duration_ok d
   | SaveAnswered i (Response st (Some v)) \<Rightarrow> duration_ok (opt_get (opt_get v ''data'') ''duration'')
   | _ \<Rightarrow> True)"

definition in_range :: "jv \<Rightarrow> bool" where
  "in_range d \<longleftrightarrow> (\<exists>n. d = JNum n \<and> MIN_DURATION \<le> n \<and> n \<le> MAX_DURATION)"

definition waits :: "timer_form \<Rightarrow> bool" where
  "waits f \<longleftrightarrow> (\<exists>r\<in>set (tf_requests f). snd (snd r))"

definition timer_inv :: "timer_form \<Rightarrow> bool" where
  "timer_inv f \<longleftrightarrow> tf_timeout f = tf_saved f \<and> tf_saving f = waits f \<and>
     length (filter (\<lambda>r. snd (snd r)) (tf_requests f)) \<le> 1 \<and>
     in_range (tf_value f) \<and> duration_ok (tf_duration f) \<and> (\<forall>r\<in>set (tf_requests f). in_range (fst (snd r)))"

lemma in_range_ok: "duration_ok d \<Longrightarrow> \<not> is_nullish d \<Longrightarrow> in_range d"
  by (cases d) (simp_all add: duration_ok_def in_range_def is_nullish_def)

lemma in_range_duration [intro]: "in_range d \<Longrightarrow> duration_ok d"
  by (auto simp: duration_ok_def in_range_def)

lemma sync_value_simps [simp]:
  "tf_requests (sync_value f) = tf_requests f" "tf_saving (sync_value f) = tf_saving f" "tf_saved (sync_value f) = tf_saved f"
  "tf_timeout (sync_value f) = tf_timeout f" "tf_duration (sync_value f) = tf_duration f" "tf_error (sync_value f) = tf_error f"
  by (simp_all add: sync_value_def)

lemma store_duration_simps [simp]:
  "tf_requests (store_duration d f) = tf_requests f" "tf_saving (store_duration d f) = tf_saving f"
  "tf_saved (store_duration d f) = tf_saved f" "tf_timeout (store_duration d f) = tf_timeout f"
  "tf_error (store_duration d f) = tf_error f"
  by (simp_all add: store_duration_def)

lemma set_saved_simps [simp]:
  "tf_requests (set_saved b f) = tf_requests f" "tf_saving (set_saved b f) = tf_saving f" "tf_saved (set_saved b f) = b"
  "tf_duration (set_saved b f) = tf_duration f" "tf_value (set_saved b f) = tf_value f" "tf_error (set_saved b f) = tf_error f"
  by (simp_all add: set_saved_def)

lemma set_saved_timeout [simp]: "tf_timeout f = tf_saved f \<Longrightarrow> tf_timeout (set_saved b f) = b"
  by (simp add: set_saved_def)

lemma waits_cong: "tf_requests f = tf_requests g \<Longrightarrow> waits f = waits g"
  by (simp add: waits_def)

lemma sync_value_range: "in_range (tf_value f) \<Longrightarrow> duration_ok (tf_duration f) \<Longrightarrow> in_range (tf_value (sync_value f))"
  by (simp add: sync_value_def in_range_ok)

lemma store_duration_range:
  assumes "in_range (tf_value f)" "duration_ok (tf_duration f)" "duration_ok d"
  shows "in_range (tf_value (store_duration d f)) \<and> duration_ok (tf_duration (store_duration d f))"
  using assms sync_value_range [of "f\<lparr>tf_duration := d\<rparr>"] by (simp add: store_duration_def)

lemma only_one_update:
  assumes "length (filter P xs) \<le> 1" "i < length xs" "P (xs ! i)" "\<not> P y"
  shows "filter P (xs[i := y]) = []"
proof -
  have xs: "xs = take i xs @ xs ! i # drop (Suc i) xs" by (rule id_take_nth_drop [OF assms(2)])
  then have "filter P xs = filter P (take i xs) @ xs ! i # filter P (drop (Suc i) xs)"
    using assms(3) by (metis filter.simps(2) filter_append)
  with assms(1) have "filter P (take i xs) = []" "filter P (drop (Suc i) xs) = []" by simp_all
  with assms(2,4) show ?thesis by (simp add: upd_conv_take_nth_drop)
qed

lemma waits_filter: "waits f \<longleftrightarrow> filter (\<lambda>r. snd (snd r)) (tf_requests f) \<noteq> []"
  by (simp add: waits_def filter_empty_conv)

lemma timer_inv_init: "duration_ok dur \<Longrightarrow> timer_inv (timerFormInit room dur active)"
  by (cases dur) (auto simp: timer_inv_def timerFormInit_def sync_value_def waits_def js_coalesce_def is_nullish_def
      duration_ok_def in_range_def MIN_DURATION_def MAX_DURATION_def)

lemma timer_inv_answered:
  assumes "timer_inv f" "durations_ok (SaveAnswered i ans)"
  shows "timer_inv (save_answered i ans f)"
proof (cases "i < length (tf_requests f) \<and> snd (snd (tf_requests f ! i))")
  case True
  obtain room d w where r: "tf_requests f ! i = (room, d, w)" by (cases "tf_requests f ! i")
  let ?f = "f\<lparr>tf_requests := (tf_requests f)[i := (room, d, False)]\<rparr>"
  have none: "filter (\<lambda>r. snd (snd r)) (tf_requests ?f) = []"
    using assms(1) True by (simp add: timer_inv_def only_one_update)
  have "in_range d" using assms(1) True r nth_mem [of i "tf_requests f"] by (fastforce simp: timer_inv_def)
  then have rs: "\<forall>r\<in>set (tf_requests ?f). in_range (fst (snd r))"
    using assms(1) set_update_subset_insert [of "tf_requests f" i "(room, d, False)"] by (fastforce simp: timer_inv_def)
  have v: "in_range (tf_value ?f)" "duration_ok (tf_duration ?f)" "tf_timeout ?f = tf_saved ?f"
    using assms(1) by (simp_all add: timer_inv_def)
  show ?thesis
  proof (cases ans)
    case (NetError e)
    then show ?thesis using True r none rs v by (auto simp: save_answered_def timer_inv_def waits_filter)
  next
    case (Response st body)
    let ?data = "case body of None \<Rightarrow> JNull | Some v \<Rightarrow> v"
    have "duration_ok (opt_get (opt_get ?data ''data'') ''duration'')"
      using assms(2) Response by (auto simp: durations_ok_def opt_get_def duration_ok_def is_nullish_def split: option.splits)
    then have "duration_ok (saved_duration ?data d)"
      using \<open>in_range d\<close> by (auto simp: saved_duration_def js_coalesce_def)
    then have "in_range (tf_value (store_duration (saved_duration ?data d) ?f)) \<and> duration_ok (tf_duration (store_duration (saved_duration ?data d) ?f))"
      using store_duration_range [OF v(1,2)] by blast
    then show ?thesis using True r none rs v Response
      by (auto simp: save_answered_def timer_inv_def waits_filter Let_def)
  qed
qed (use assms in \<open>auto simp: save_answered_def\<close>)

lemma timer_inv_step:
  assumes "durations_ok e" "timer_inv f"
  shows "timer_inv (timer_step e f)"
proof (cases e)
  case (SliderMoved n)
  then show ?thesis using assms(2)
    by (auto simp: timer_inv_def change_value_def waits_def in_range_def clamp_def MIN_DURATION_def MAX_DURATION_def)
next
  case SaveClicked
  then show ?thesis using assms(2) by (auto simp: timer_inv_def save_disabled_def onSave_def waits_filter waits_def [symmetric])
next
  case (SaveAnswered i ans)
  then show ?thesis using timer_inv_answered [OF assms(2)] assms(1) by simp
next
  case SavedTimeout
  then show ?thesis using assms(2) by (auto simp: timer_inv_def waits_def)
next
  case (DurationStored d)
  then show ?thesis using assms store_duration_range [of f d] by (auto simp: timer_inv_def waits_def durations_ok_def)
next
  case (TabShown b)
  then show ?thesis using assms(2) sync_value_range [of "f\<lparr>tf_active := b\<rparr>"] by (auto simp: timer_inv_def waits_def)
qed

interpretation timer: guarded_machine durations_ok timer_step timer_inv
  by unfold_locales (rule timer_inv_step)

text \<open>
  The timer form asks for a legal duration only: as long as the durations it is told are between 5 and
  120 minutes, so is every duration it asks the server for, whatever is dragged, clicked and answered; it is
  saving exactly while its one request is on the way, and the success message is up exactly while its timeout
  runs and the value shown is the stored one.
\<close>

theorem timer_form_ok:
  fixes room dur active es
  assumes "duration_ok dur" "\<forall>e\<in>set es. durations_ok e"
  defines "f \<equiv> run timer_step es (timerFormInit room dur active)"
  shows "(\<forall>r d b. (r, d, b) \<in> set (tf_requests f) \<longrightarrow> in_range d) \<and>
    tf_saving f = waits f \<and> length (filter (\<lambda>r. snd (snd r)) (tf_requests f)) \<le> 1 \<and>
    shows_saved f = (tf_timeout f \<and> strict_eq (tf_value f) (tf_duration f))"
proof -
  have "timer_inv f" unfolding f_def by (rule timer.inv_run_guarded [OF assms(2) timer_inv_init [OF assms(1)]])
  then show ?thesis by (force simp: timer_inv_def shows_saved_def dirty_def)
qed

theorem timer_form_ok_witness:
  "tf_saving (run timer_step [SliderMoved 500, SaveClicked] (timerFormInit (JStr ''r'') (JNum 30) True)) \<and>
   waits (run timer_step [SliderMoved 500, SaveClicked] (timerFormInit (JStr ''r'') (JNum 30) True))"
proof -
  let ?f = "run timer_step [SliderMoved 500, SaveClicked] (timerFormInit (JStr ''r'') (JNum 30) True)"
  have "tf_saving ?f"
    by (simp add: timerFormInit_def sync_value_def change_value_def set_saved_def save_disabled_def dirty_def onSave_def
        clamp_def MIN_DURATION_def MAX_DURATION_def is_nullish_def)
  moreover have "duration_ok (JNum 30)" by (simp add: duration_ok_def MIN_DURATION_def MAX_DURATION_def)
  ultimately show ?thesis
    using timer_form_ok [of "JNum 30" "[SliderMoved 500, SaveClicked]" "JStr ''r''" True] by (simp add: durations_ok_def)
qed

text \<open>
  The outcome of a save: a success stores the duration that the server reports, or the one asked for; a
  failure leaves the stored duration alone and says why.
\<close>

lemma save_outcome:
  assumes "i < length (tf_requests f)" "tf_requests f ! i = (room, d, True)"
  shows "tf_saving (save_answered i ans f) = False \<and>
    (case ans of
       Response st body \<Rightarrow>
         if 200 \<le> st \<and> st \<le> 299
         then tf_saved (save_answered i ans f) \<and>
              tf_duration (save_answered i ans f) = (let D = saved_duration (case body of None \<Rightarrow> JNull | Some v \<Rightarrow> v) d in
                if strict_eq D (tf_duration f) then tf_duration f else D)
         else tf_duration (save_answered i ans f) = tf_duration f \<and> truthy (tf_error (save_answered i ans f))
     | NetError e \<Rightarrow> tf_duration (save_answered i ans f) = tf_duration f \<and> truthy (tf_error (save_answered i ans f)))"
  using assms by (auto simp: save_answered_def res_ok_def save_error_def js_or_def store_duration_def Let_def split: http.split)

text \<open>A value chosen while a save is on the way is lost when the answer comes.\<close>

lemma edit_lost_while_saving:
  "tf_value (run timer_step [SliderMoved 60, SaveClicked, SliderMoved 90, SaveAnswered 0 (Response 200 (Some (JObj [])))]
     (timerFormInit (JStr ''r'') (JNum 30) True)) = JNum 60"
  by (simp add: timerFormInit_def sync_value_def change_value_def set_saved_def save_disabled_def dirty_def onSave_def
      clamp_def MIN_DURATION_def MAX_DURATION_def is_nullish_def save_answered_def store_duration_def saved_duration_def
      js_coalesce_def opt_get_def obj_lookup_def res_ok_def)

end
