(* ===== verification/Panel_Layout.thy ===== *)
theory Panel_Layout
  imports Machine Complex_Main
begin

text \<open>
  The geometry of the panel that the content script puts beside LeetCode (\<open>extension/contentScript.js\<close>):
  folding, maximising, dragging the resize handle and following the window. Widths are rationals in
  pixels: the quotients that JavaScript computes in floating point are taken without rounding error.
\<close>

section \<open>State\<close>

datatype css_length = Px rat | Rem rat

text \<open>What \<open>chrome.storage.local\<close> holds: \<open>None\<close> for an absent entry or one of another type.\<close>

record stored_panel =
  sp_width :: "css_length option"
  sp_fraction :: "rat option"
  sp_folded :: "bool option"
  sp_maximized :: bool
  sp_preMaximize :: "rat option"

record viewport =
  vp_width :: rat
  vp_height :: rat
  vp_top :: rat
  vp_content :: rat

text \<open>\<open>vp_top\<close>: the top of the wrapper of LeetCode's content; \<open>vp_content\<close>: the height of the content.\<close>

record panel =
  pn_folded :: bool
  pn_maximized :: bool
  pn_preMaximize :: rat
  pn_fraction :: rat
  pn_width :: css_length
  pn_height :: rat
  pn_fixedAt :: "rat option"
  pn_transition :: bool
  pn_handleShown :: bool
  pn_handleHeight :: "rat option"
  pn_dragging :: bool
  pn_stored :: stored_panel

definition MIN_PANEL_WIDTH :: rat where "MIN_PANEL_WIDTH = 36"

definition COLLAPSE_WIDTH :: rat where "COLLAPSE_WIDTH = 120"

definition MIN_EXPAND_WIDTH :: rat where "MIN_EXPAND_WIDTH = COLLAPSE_WIDTH + 40"

text \<open>\<open>Math.round\<close>: halves are rounded up.\<close>

definition js_round :: "rat \<Rightarrow> rat" where
  "js_round x = of_int \<lfloor>x + 1/2\<rfloor>"

text \<open>\<open>parseFloat\<close> of a length reads its number, whatever the unit.\<close>

fun parse_float :: "css_length \<Rightarrow> rat" where
  "parse_float (Px r) = r"
| "parse_float (Rem r) = r"

section \<open>The width at the start\<close>

definition positive :: "rat option \<Rightarrow> rat option" where
  "positive x = (case x of Some r \<Rightarrow> if r > 0 then Some r else None | None \<Rightarrow> None)"

definition legacy_fraction :: "stored_panel \<Rightarrow> rat \<Rightarrow> rat" where
  "legacy_fraction st innerWidth =
     (let legacy = (case sp_width st of None \<Rightarrow> Rem 24 | Some w \<Rightarrow> w);
          rem = parse_float legacy;
          px = (if rem > 0 then rem * 16 else 384) in
      max (5/100) (min 1 (px / innerWidth)))"

definition initPanelWidth :: "stored_panel \<Rightarrow> rat \<Rightarrow> panel \<Rightarrow> panel" where
  "initPanelWidth st innerWidth p =
     (let folded = (case sp_folded st of None \<Rightarrow> False | Some b \<Rightarrow> b);
          st1 = (if sp_folded st = None then st\<lparr>sp_folded := Some False\<rparr> else st);
          pre = (case positive (sp_preMaximize st) of Some r \<Rightarrow> r | None \<Rightarrow> pn_preMaximize p);
          (frac, st2) = (case positive (sp_fraction st) of
              Some r \<Rightarrow> (r, st1)
            | None \<Rightarrow> (let r = legacy_fraction st innerWidth in (r, st1\<lparr>sp_fraction := Some r\<rparr>)));
          expandedPx = js_round (frac * innerWidth);
          p1 = p\<lparr>pn_folded := folded, pn_maximized := sp_maximized st, pn_preMaximize := pre, pn_fraction := frac, pn_stored := st2\<rparr> in
      if folded \<or> expandedPx \<le> COLLAPSE_WIDTH
      then p1\<lparr>pn_folded := True, pn_width := Rem (MIN_PANEL_WIDTH / 16)\<rparr>
      else p1\<lparr>pn_width := Rem (expandedPx / 16)\<rparr>)"

section \<open>Layout\<close>

definition getMaximizedOffset :: "viewport \<Rightarrow> rat" where
  "getMaximizedOffset v = max 0 (vp_top v)"

definition applyMaximizedLayout :: "viewport \<Rightarrow> panel \<Rightarrow> panel" where
  "applyMaximizedLayout v p =
     (let top = getMaximizedOffset v in
      p\<lparr>pn_transition := False, pn_fixedAt := Some top, pn_width := Px (vp_width v), pn_height := vp_height v - top\<rparr>)"

text \<open>\<open>applyPanelWidth\<close>: the width applied and the panel.\<close>

definition applied_width :: "viewport \<Rightarrow> rat \<Rightarrow> rat" where
  "applied_width v px = max MIN_PANEL_WIDTH (min (vp_width v) px)"

definition applyPanelWidth :: "viewport \<Rightarrow> rat \<Rightarrow> panel \<Rightarrow> panel" where
  "applyPanelWidth v px p = p\<lparr>pn_width := Px (applied_width v px)\<rparr>"

definition store_panel :: "bool \<Rightarrow> rat \<Rightarrow> panel \<Rightarrow> panel" where
  "store_panel folded widthPx p = p\<lparr>pn_stored := (pn_stored p)
     \<lparr>sp_folded := Some folded, sp_maximized := pn_maximized p, sp_fraction := Some (pn_fraction p),
      sp_width := Some (if folded then Rem 24 else Px widthPx)\<rparr>\<rparr>"

definition setPanelWidth :: "viewport \<Rightarrow> rat \<Rightarrow> bool \<Rightarrow> panel \<Rightarrow> panel" where
  "setPanelWidth v px folded p =
     (let widthPx = applied_width v (if folded then MIN_PANEL_WIDTH else px);
          p1 = (applyPanelWidth v (if folded then MIN_PANEL_WIDTH else px) p)\<lparr>pn_folded := folded\<rparr>;
          p2 = (if folded then p1
                else (let p3 = p1\<lparr>pn_fraction := min 1 (widthPx / vp_width v)\<rparr> in
                      if widthPx < vp_width v - 1 then p3\<lparr>pn_maximized := False\<rparr> else p3)) in
      store_panel folded widthPx p2)"

definition requestWidth :: "viewport \<Rightarrow> rat \<Rightarrow> panel \<Rightarrow> panel" where
  "requestWidth v px p =
     (if px \<le> COLLAPSE_WIDTH then setPanelWidth v MIN_PANEL_WIDTH True p else setPanelWidth v px False p)"

definition syncPanelWidth :: "viewport \<Rightarrow> panel \<Rightarrow> panel" where
  "syncPanelWidth v p =
     (if pn_folded p then p
      else if pn_maximized p then
        (let top = getMaximizedOffset v in
         p\<lparr>pn_fixedAt := Some top, pn_width := Px (vp_width v), pn_height := vp_height v - top\<rparr>)
      else requestWidth v (js_round (pn_fraction p * vp_width v)) p)"

definition content_height :: "viewport \<Rightarrow> rat" where
  "content_height v = max 0 (min (vp_content v) (vp_height v))"

definition syncHandleHeight :: "viewport \<Rightarrow> panel \<Rightarrow> panel" where
  "syncHandleHeight v p =
     (if pn_maximized p then p\<lparr>pn_height := vp_height v - getMaximizedOffset v\<rparr>
      else p\<lparr>pn_handleHeight := Some (vp_content v), pn_height := content_height v\<rparr>)"

section \<open>Dragging\<close>

definition clampWidth :: "viewport \<Rightarrow> rat \<Rightarrow> rat" where
  "clampWidth v width = max MIN_PANEL_WIDTH (min (vp_width v) width)"

text \<open>The right edge of the panel and the pointer's position.\<close>

definition drag_to :: "viewport \<Rightarrow> rat \<Rightarrow> rat \<Rightarrow> panel \<Rightarrow> panel" where
  "drag_to v rightEdge clientX p = requestWidth v (clampWidth v (rightEdge - clientX)) p"

definition beginDrag :: "viewport \<Rightarrow> rat \<Rightarrow> rat \<Rightarrow> panel \<Rightarrow> panel" where
  "beginDrag v rightEdge clientX p = drag_to v rightEdge clientX (p\<lparr>pn_dragging := True\<rparr>)"

definition moveDrag :: "viewport \<Rightarrow> rat \<Rightarrow> rat \<Rightarrow> panel \<Rightarrow> panel" where
  "moveDrag v rightEdge clientX p = (if \<not> pn_dragging p then p else drag_to v rightEdge clientX p)"

definition endDrag :: "panel \<Rightarrow> panel" where
  "endDrag p = p\<lparr>pn_dragging := False\<rparr>"

section \<open>Messages of the extension\<close>

definition fold_panel :: "viewport \<Rightarrow> panel \<Rightarrow> panel" where
  "fold_panel v p = setPanelWidth v MIN_PANEL_WIDTH True p"

definition unfold_panel :: "viewport \<Rightarrow> panel \<Rightarrow> panel" where
  "unfold_panel v p =
     (let frac = (case positive (sp_fraction (pn_stored p)) of Some r \<Rightarrow> r | None \<Rightarrow> pn_fraction p);
          p1 = p\<lparr>pn_fraction := frac, pn_folded := False, pn_stored := (pn_stored p)\<lparr>sp_folded := Some False\<rparr>\<rparr> in
      requestWidth v (max MIN_EXPAND_WIDTH (js_round (frac * vp_width v))) p1)"

definition toggle_maximize :: "viewport \<Rightarrow> panel \<Rightarrow> panel" where
  "toggle_maximize v p =
     (if \<not> pn_maximized p then
        (let p1 = applyMaximizedLayout v (p\<lparr>pn_preMaximize := pn_fraction p, pn_folded := False, pn_maximized := True,
                    pn_fraction := 1, pn_handleShown := False\<rparr>) in
         p1\<lparr>pn_stored := (pn_stored p1)\<lparr>sp_folded := Some False, sp_maximized := True, sp_preMaximize := Some (pn_preMaximize p1)\<rparr>\<rparr>)
      else
        p\<lparr>pn_folded := False, pn_maximized := False, pn_fraction := pn_preMaximize p, pn_handleShown := True,
          pn_transition := True, pn_width := Px (max MIN_EXPAND_WIDTH (js_round (pn_preMaximize p * vp_width v))),
          pn_height := content_height v, pn_fixedAt := None,
          pn_stored := (pn_stored p)\<lparr>sp_folded := Some False, sp_maximized := False\<rparr>\<rparr>)"

datatype layout_event =
    FoldMsg | UnfoldMsg | MaximizeMsg
  | PointerDown rat rat | PointerMove rat rat | PointerUp
  | ContentResized | WindowResized viewport

text \<open>The state of the script: the panel in its viewport. The two resize observers run in the next frame.\<close>

fun layout_step :: "layout_event \<Rightarrow> viewport \<times> panel \<Rightarrow> viewport \<times> panel" where
  "layout_step FoldMsg (v, p) = (v, fold_panel v p)"
| "layout_step UnfoldMsg (v, p) = (v, unfold_panel v p)"
| "layout_step MaximizeMsg (v, p) = (v, toggle_maximize v p)"
| "layout_step (PointerDown edge x) (v, p) = (v, beginDrag v edge x p)"
| "layout_step (PointerMove edge x) (v, p) = (v, moveDrag v edge x p)"
| "layout_step PointerUp (v, p) = (v, if pn_dragging p then endDrag p else p)"
| "layout_step ContentResized (v, p) =
     (v, (let p1 = syncHandleHeight v p in if pn_dragging p1 then p1 else syncPanelWidth v p1))"
| "layout_step (WindowResized v') (v, p) = (v', syncPanelWidth v' (syncHandleHeight v' p))"

text \<open>The panel as the script creates it.\<close>

definition createPanel :: "stored_panel \<Rightarrow> viewport \<Rightarrow> panel" where
  "createPanel st v =
     (let p = initPanelWidth st (vp_width v)
                \<lparr>pn_folded = False, pn_maximized = False, pn_preMaximize = 1/4, pn_fraction = 1/4,
                 pn_width = Px 0, pn_height = vp_content v, pn_fixedAt = None, pn_transition = True,
                 pn_handleShown = True, pn_handleHeight = None, pn_dragging = False, pn_stored = st\<rparr>;
          p1 = (if pn_maximized p then applyMaximizedLayout v (p\<lparr>pn_handleShown := False\<rparr>) else p) in
      syncHandleHeight v p1)"

section \<open>The panel is usable or folded\<close>

fun px_of :: "css_length \<Rightarrow> rat" where
  "px_of (Px r) = r"
| "px_of (Rem r) = 16 * r"

definition unit_fraction :: "rat \<Rightarrow> bool" where
  "unit_fraction r \<longleftrightarrow> 0 < r \<and> r \<le> 1"

definition stored_ok :: "stored_panel \<Rightarrow> bool" where
  "stored_ok st \<longleftrightarrow> (\<forall>r. sp_fraction st = Some r \<longrightarrow> r \<le> 1) \<and> (\<forall>r. sp_preMaximize st = Some r \<longrightarrow> r \<le> 1)"

definition layout_inv :: "viewport \<times> panel \<Rightarrow> bool" where
  "layout_inv s \<longleftrightarrow> (case s of (v, p) \<Rightarrow>
     0 < vp_width v \<and> unit_fraction (pn_fraction p) \<and> unit_fraction (pn_preMaximize p) \<and> stored_ok (pn_stored p) \<and>
     (pn_folded p \<and> \<not> pn_maximized p \<longrightarrow> px_of (pn_width p) = MIN_PANEL_WIDTH) \<and>
     (\<not> pn_folded p \<and> \<not> pn_maximized p \<longrightarrow> COLLAPSE_WIDTH < vp_width v \<longrightarrow> COLLAPSE_WIDTH < px_of (pn_width p)))"

definition window_ok :: "layout_event \<Rightarrow> bool" where
  "window_ok e \<longleftrightarrow> (case e of WindowResized v \<Rightarrow> 0 < vp_width v | _ \<Rightarrow> True)"

lemma positive_unit: "(\<forall>r. x = Some r \<longrightarrow> r \<le> 1) \<Longrightarrow> positive x = Some r \<Longrightarrow> unit_fraction r"
  by (auto simp: positive_def unit_fraction_def split: option.splits if_splits)

lemma applied_fraction: "0 < vp_width v \<Longrightarrow> unit_fraction (min 1 (applied_width v px / vp_width v))"
  by (auto simp: unit_fraction_def applied_width_def MIN_PANEL_WIDTH_def min_def)

lemma inv_setPanelWidth:
  assumes "0 < vp_width v" "unit_fraction (pn_fraction p)" "unit_fraction (pn_preMaximize p)" "stored_ok (pn_stored p)"
    "\<not> folded \<Longrightarrow> COLLAPSE_WIDTH < px"
  shows "layout_inv (v, setPanelWidth v px folded p)"
proof -
  have "unit_fraction (min 1 (applied_width v px / vp_width v))" by (rule applied_fraction [OF assms(1)])
  then show ?thesis
    using assms
    by (auto simp: layout_inv_def setPanelWidth_def store_panel_def applyPanelWidth_def Let_def stored_ok_def
        unit_fraction_def applied_width_def MIN_PANEL_WIDTH_def COLLAPSE_WIDTH_def)
qed

lemma inv_requestWidth:
  assumes "0 < vp_width v" "unit_fraction (pn_fraction p)" "unit_fraction (pn_preMaximize p)" "stored_ok (pn_stored p)"
  shows "layout_inv (v, requestWidth v px p)"
  unfolding requestWidth_def by (auto intro!: inv_setPanelWidth assms)

lemma layout_invD:
  "layout_inv (v, p) \<Longrightarrow> 0 < vp_width v \<and> unit_fraction (pn_fraction p) \<and> unit_fraction (pn_preMaximize p) \<and> stored_ok (pn_stored p)"
  by (simp add: layout_inv_def)

lemma inv_same_geometry:
  assumes "layout_inv (v, p)" "pn_folded q = pn_folded p" "pn_maximized q = pn_maximized p" "pn_fraction q = pn_fraction p"
    "pn_preMaximize q = pn_preMaximize p" "pn_width q = pn_width p" "pn_stored q = pn_stored p"
  shows "layout_inv (v, q)"
  using assms by (simp add: layout_inv_def)

lemma inv_handle: "layout_inv (v, p) \<Longrightarrow> layout_inv (v, syncHandleHeight v p)"
  by (simp add: layout_inv_def syncHandleHeight_def)

lemma inv_sync: "layout_inv (v, p) \<Longrightarrow> layout_inv (v, syncPanelWidth v p)"
  using inv_requestWidth [of v p] by (auto simp: syncPanelWidth_def layout_inv_def Let_def)

lemma inv_sync_resized:
  assumes "layout_inv (v, p)" "0 < vp_width v'"
  shows "layout_inv (v', syncPanelWidth v' (syncHandleHeight v' p))"
proof -
  let ?p = "syncHandleHeight v' p"
  have q: "pn_folded ?p = pn_folded p" "pn_maximized ?p = pn_maximized p" "pn_fraction ?p = pn_fraction p"
      "pn_preMaximize ?p = pn_preMaximize p" "pn_width ?p = pn_width p" "pn_stored ?p = pn_stored p"
    by (simp_all add: syncHandleHeight_def)
  show ?thesis
  proof (cases "pn_folded p \<or> pn_maximized p")
    case True
    then show ?thesis using assms by (auto simp: layout_inv_def syncPanelWidth_def Let_def q)
  next
    case False
    then have "syncPanelWidth v' ?p = requestWidth v' (js_round (pn_fraction p * vp_width v')) ?p"
      by (simp add: syncPanelWidth_def q)
    then show ?thesis using layout_invD [OF assms(1)] assms(2) by (simp add: inv_requestWidth q)
  qed
qed

lemma inv_unfold: "layout_inv (v, p) \<Longrightarrow> layout_inv (v, unfold_panel v p)"
proof -
  assume i: "layout_inv (v, p)"
  have "positive (sp_fraction (pn_stored p)) = Some r \<Longrightarrow> unit_fraction r" for r
    using layout_invD [OF i] by (auto simp: stored_ok_def intro: positive_unit)
  then show ?thesis
    using layout_invD [OF i]
    by (auto simp: unfold_panel_def Let_def stored_ok_def split: option.split intro!: inv_requestWidth)
qed

lemma inv_maximize: "layout_inv (v, p) \<Longrightarrow> layout_inv (v, toggle_maximize v p)"
  by (auto simp: layout_inv_def toggle_maximize_def applyMaximizedLayout_def Let_def stored_ok_def unit_fraction_def
      MIN_EXPAND_WIDTH_def COLLAPSE_WIDTH_def)

lemma inv_drag: "layout_inv (v, p) \<Longrightarrow> layout_inv (v, drag_to v edge x (p\<lparr>pn_dragging := b\<rparr>))"
  unfolding drag_to_def using layout_invD by (intro inv_requestWidth) auto

lemma layout_inv_step:
  assumes "window_ok e" "layout_inv s"
  shows "layout_inv (layout_step e s)"
proof -
  obtain v p where s: "s = (v, p)" by fastforce
  note i = assms(2) [unfolded s]
  show ?thesis
  proof (cases e)
    case FoldMsg
    then show ?thesis using layout_invD [OF i] by (auto simp: s fold_panel_def intro!: inv_setPanelWidth)
  next
    case (PointerMove edge x)
    show ?thesis using i inv_drag [OF i, of edge x "pn_dragging p"] by (simp add: PointerMove s moveDrag_def)
  next
    case PointerUp
    then show ?thesis using i by (auto simp: s endDrag_def intro: inv_same_geometry)
  next
    case ContentResized
    then show ?thesis using inv_handle [OF i] by (simp add: s Let_def inv_sync)
  next
    case (WindowResized v')
    then show ?thesis using assms(1) inv_sync_resized [OF i] by (simp add: s window_ok_def)
  qed (simp_all add: s inv_unfold [OF i] inv_maximize [OF i] beginDrag_def inv_drag [OF i])
qed

interpretation layout: guarded_machine window_ok layout_step layout_inv
  by unfold_locales (rule layout_inv_step)

lemma legacy_unit: "unit_fraction (legacy_fraction st W)"
  by (auto simp: legacy_fraction_def unit_fraction_def Let_def min_def max_def)

lemma layout_inv_create:
  assumes "0 < vp_width v" "stored_ok st"
  shows "layout_inv (v, createPanel st v)"
proof -
  have f: "positive (sp_fraction st) = Some r \<Longrightarrow> unit_fraction r" "positive (sp_preMaximize st) = Some r \<Longrightarrow> unit_fraction r" for r
    using assms(2) by (auto simp: stored_ok_def intro: positive_unit)
  have q: "unit_fraction (1/4)" by (simp add: unit_fraction_def)
  have l: "legacy_fraction st W \<le> 1" for W using legacy_unit [of st W] by (simp add: unit_fraction_def)
  let ?p = "initPanelWidth st (vp_width v)
      \<lparr>pn_folded = False, pn_maximized = False, pn_preMaximize = 1/4, pn_fraction = 1/4,
       pn_width = Px 0, pn_height = vp_content v, pn_fixedAt = None, pn_transition = True,
       pn_handleShown = True, pn_handleHeight = None, pn_dragging = False, pn_stored = st\<rparr>"
  have i: "layout_inv (v, ?p)"
    using assms f q l legacy_unit [of st "vp_width v"]
    by (auto simp: layout_inv_def initPanelWidth_def Let_def stored_ok_def COLLAPSE_WIDTH_def MIN_PANEL_WIDTH_def
        split: option.split)
  moreover have "pn_maximized ?p \<Longrightarrow> layout_inv (v, applyMaximizedLayout v (?p\<lparr>pn_handleShown := False\<rparr>))"
    using i by (simp add: layout_inv_def applyMaximizedLayout_def Let_def)
  ultimately show ?thesis unfolding createPanel_def Let_def by (auto intro: inv_handle)
qed

text \<open>
  C30: whatever the user does in a window wider than the collapse width, the panel is never left in the
  dead zone: unless it is maximised it is either folded to the sidebar of 36 pixels or wider than the
  collapse width, and the fraction of the window it remembers is a real share of it.
\<close>

theorem panel_width_usable:
  assumes "0 < vp_width v0" "stored_ok st" "\<forall>e\<in>set es. window_ok e"
    and "run layout_step es (v0, createPanel st v0) = (v, p)" "\<not> pn_maximized p"
  shows "0 < pn_fraction p \<and> pn_fraction p \<le> 1 \<and>
    (if pn_folded p then px_of (pn_width p) = 36 else 120 < vp_width v \<longrightarrow> 120 < px_of (pn_width p))"
  using layout.inv_run_guarded [OF assms(3) layout_inv_create [OF assms(1,2)]] assms(4,5)
  by (simp add: layout_inv_def unit_fraction_def MIN_PANEL_WIDTH_def COLLAPSE_WIDTH_def)

definition demo_view :: viewport where
  "demo_view = \<lparr>vp_width = 1200, vp_height = 800, vp_top = 50, vp_content = 750\<rparr>"

definition no_settings :: stored_panel where
  "no_settings = \<lparr>sp_width = None, sp_fraction = None, sp_folded = None, sp_maximized = False, sp_preMaximize = None\<rparr>"

theorem panel_width_usable_witness:
  "120 < px_of (pn_width (createPanel no_settings demo_view))"
proof -
  have "0 < vp_width demo_view" "stored_ok no_settings" by (simp_all add: demo_view_def no_settings_def stored_ok_def)
  moreover have "\<not> pn_maximized (createPanel no_settings demo_view)" "\<not> pn_folded (createPanel no_settings demo_view)"
    by (simp_all add: createPanel_def initPanelWidth_def no_settings_def demo_view_def syncHandleHeight_def positive_def
        legacy_fraction_def js_round_def COLLAPSE_WIDTH_def Let_def)
  ultimately show ?thesis
    using panel_width_usable [of demo_view no_settings "[]" demo_view "createPanel no_settings demo_view"]
    by (simp add: demo_view_def)
qed

section \<open>Folding and maximising are undone\<close>

lemma js_round_of_int [simp]: "js_round (of_int n) = of_int n"
  by (simp add: js_round_def floor_eq_iff)

text \<open>A width that the user drags the panel to: whole pixels that fit the window.\<close>

definition comfortable :: "viewport \<Rightarrow> int \<Rightarrow> bool" where
  "comfortable v n \<longleftrightarrow> MIN_EXPAND_WIDTH \<le> of_int n \<and> of_int n \<le> vp_width v"

lemma comfortable_width:
  assumes "comfortable v n"
  shows "0 < vp_width v" "applied_width v (of_int n) = of_int n" "\<not> of_int n \<le> COLLAPSE_WIDTH"
    "min 1 (of_int n / vp_width v) = of_int n / vp_width v" "of_int n / vp_width v * vp_width v = of_int n"
    "0 < of_int n / vp_width v"
proof -
  have n: "160 \<le> (of_int n :: rat)" "of_int n \<le> vp_width v"
    using assms by (simp_all add: comfortable_def MIN_EXPAND_WIDTH_def COLLAPSE_WIDTH_def)
  then show w: "0 < vp_width v" by linarith
  show "applied_width v (of_int n) = of_int n" "\<not> of_int n \<le> COLLAPSE_WIDTH"
    using n by (simp_all add: applied_width_def MIN_PANEL_WIDTH_def COLLAPSE_WIDTH_def)
  show "min 1 (of_int n / vp_width v) = of_int n / vp_width v" "of_int n / vp_width v * vp_width v = of_int n"
    "0 < of_int n / vp_width v"
    using n w by simp_all
qed

lemma requested_width:
  fixes v n p
  assumes "comfortable v n"
  defines "p1 \<equiv> requestWidth v (of_int n) p"
  shows "pn_width p1 = Px (of_int n)" "pn_fraction p1 = of_int n / vp_width v" "\<not> pn_folded p1"
    "sp_fraction (pn_stored p1) = Some (of_int n / vp_width v)" "pn_preMaximize p1 = pn_preMaximize p"
    "\<not> pn_maximized p \<Longrightarrow> \<not> pn_maximized p1"
  using comfortable_width [OF assms(1)]
  by (simp_all add: p1_def requestWidth_def setPanelWidth_def store_panel_def applyPanelWidth_def Let_def)

lemma comfortable_max: "comfortable v n \<Longrightarrow> max MIN_EXPAND_WIDTH (of_int n) = of_int n"
  by (simp add: comfortable_def)



text \<open>
  While the handle is dragged the panel follows the pointer: its width is the distance from the right
  edge, as far as the window allows, and within the collapse width it folds and remembers the fraction it
  had.
\<close>

theorem drag_follows_pointer:
  assumes "pn_dragging p" "COLLAPSE_WIDTH < vp_width v"
  shows "(if edge - x \<le> COLLAPSE_WIDTH
     then pn_folded (moveDrag v edge x p) \<and> pn_width (moveDrag v edge x p) = Px MIN_PANEL_WIDTH \<and>
          pn_fraction (moveDrag v edge x p) = pn_fraction p
     else \<not> pn_folded (moveDrag v edge x p) \<and> pn_width (moveDrag v edge x p) = Px (min (vp_width v) (edge - x)))"
  using assms
  by (auto simp: moveDrag_def drag_to_def requestWidth_def setPanelWidth_def store_panel_def applyPanelWidth_def Let_def
      clampWidth_def applied_width_def MIN_PANEL_WIDTH_def COLLAPSE_WIDTH_def)

theorem drag_follows_pointer_witness:
  "pn_width (moveDrag demo_view 1200 900 ((createPanel no_settings demo_view)\<lparr>pn_dragging := True\<rparr>)) = Px 300"
  using drag_follows_pointer [of "(createPanel no_settings demo_view)\<lparr>pn_dragging := True\<rparr>" demo_view 1200 900]
  by (simp add: demo_view_def COLLAPSE_WIDTH_def)

text \<open>
  When the window changes, an expanded panel keeps its share of it up to half a pixel, or folds when
  the share has become too narrow.
\<close>

theorem resize_keeps_share:
  fixes p v
  assumes "\<not> pn_folded p" "\<not> pn_maximized p" "COLLAPSE_WIDTH < vp_width v" "0 < pn_fraction p" "pn_fraction p \<le> 1"
    "vp_width v = of_int n"
  defines "q \<equiv> syncPanelWidth v p"
  shows "pn_folded q \<and> pn_fraction q = pn_fraction p \<or>
    \<bar>px_of (pn_width q) - pn_fraction p * vp_width v\<bar> \<le> 1/2"
proof -
  let ?r = "js_round (pn_fraction p * vp_width v)"
  have round: "\<bar>?r - pn_fraction p * vp_width v\<bar> \<le> 1/2"
    unfolding js_round_def by linarith
  have "pn_fraction p * vp_width v \<le> of_int n"
    using assms(3-6) mult_right_mono [of "pn_fraction p" 1 "vp_width v"] by (simp add: COLLAPSE_WIDTH_def)
  then have "\<lfloor>pn_fraction p * vp_width v + 1/2\<rfloor> \<le> \<lfloor>of_int n + 1/2 :: rat\<rfloor>" by (intro floor_mono) simp
  also have "\<dots> = n" by (simp add: floor_eq_iff)
  finally have le: "?r \<le> vp_width v" by (simp add: js_round_def assms(6))
  show ?thesis
  proof (cases "?r \<le> COLLAPSE_WIDTH")
    case True
    then show ?thesis
      using assms(1,2) by (simp add: q_def syncPanelWidth_def requestWidth_def setPanelWidth_def store_panel_def
          applyPanelWidth_def Let_def)
  next
    case False
    then have "applied_width v ?r = ?r"
      using le by (simp add: applied_width_def MIN_PANEL_WIDTH_def COLLAPSE_WIDTH_def)
    then have "pn_width q = Px ?r"
      using False assms(1,2) by (simp add: q_def syncPanelWidth_def requestWidth_def setPanelWidth_def store_panel_def
          applyPanelWidth_def Let_def)
    then show ?thesis using round by simp
  qed
qed

theorem resize_keeps_share_witness:
  "let p = requestWidth demo_view 400 (createPanel no_settings demo_view);
       q = syncPanelWidth (demo_view\<lparr>vp_width := 900\<rparr>) p in
   pn_folded q \<or> \<bar>px_of (pn_width q) - 300\<bar> \<le> 1/2"
proof -
  let ?p = "requestWidth demo_view 400 (createPanel no_settings demo_view)" and ?v = "demo_view\<lparr>vp_width := 900\<rparr>"
  have c: "comfortable demo_view 400" by (simp add: comfortable_def demo_view_def MIN_EXPAND_WIDTH_def COLLAPSE_WIDTH_def)
  have "\<not> pn_maximized (createPanel no_settings demo_view)"
    by (simp add: createPanel_def initPanelWidth_def no_settings_def demo_view_def syncHandleHeight_def positive_def
        legacy_fraction_def Let_def)
  then have p: "\<not> pn_folded ?p" "\<not> pn_maximized ?p" "pn_fraction ?p = 1/3"
    using requested_width [OF c, of "createPanel no_settings demo_view"] by (simp_all add: demo_view_def)
  then show ?thesis
    using resize_keeps_share [of ?p ?v 900, unfolded p(3)] by (auto simp: Let_def COLLAPSE_WIDTH_def)
qed

end
