(* ===== verification/Page_Script.thy ===== *)
theory Page_Script
  imports Worker Navigation
begin

text \<open>
  What the content script does on a LeetCode page besides the layout (\<open>extension/contentScript.js\<close>): it
  reports the problems that are typed into, keeps the theme of the panel, watches LeetCode's active tab and
  relays the messages of the intercepted requests (\<open>extension/injected.js\<close>) to the worker.
\<close>

section \<open>Typing into the editor\<close>

definition INERT_KEYS :: "string list" where
  "INERT_KEYS = [''Shift'', ''Control'', ''Alt'', ''Meta'', ''CapsLock'', ''Tab'', ''Escape'',
     ''ArrowUp'', ''ArrowDown'', ''ArrowLeft'', ''ArrowRight'', ''Home'', ''End'', ''PageUp'', ''PageDown'', ''Insert'',
     ''ContextMenu'', ''NumLock'', ''ScrollLock'', ''Pause'']"

text \<open>\<open>/^F\d{1,2}$/\<close>\<close>

definition function_key :: "string \<Rightarrow> bool" where
  "function_key k = (k \<noteq> [] \<and> hd k = CHR ''F'' \<and> list_all is_digit (tl k) \<and> length (tl k) \<in> {1, 2})"

definition lower_char :: "char \<Rightarrow> char" where
  "lower_char c = (let n = (of_char c :: nat) in if 65 \<le> n \<and> n \<le> 90 then char_of (n + 32) else c)"

text \<open>An event on the document; \<open>ke_editor\<close>: the target has \<open>closest\<close> and lies in a Monaco editor.\<close>

record key_event =
  ke_type :: string
  ke_key :: string
  ke_ctrl :: bool
  ke_meta :: bool
  ke_editor :: bool

definition isEditingKey :: "key_event \<Rightarrow> bool" where
  "isEditingKey e =
     (if ke_key e \<in> set INERT_KEYS \<or> function_key (ke_key e) then False
      else if ke_ctrl e \<or> ke_meta e then map lower_char (ke_key e) \<in> {''v'', ''x'', ''z'', ''y''}
      else True)"

record page =
  pg_path :: string
  pg_reported :: "string list"
  pg_sent :: "jv list"

definition pageInit :: "string \<Rightarrow> page" where
  "pageInit path = \<lparr>pg_path = path, pg_reported = [], pg_sent = []\<rparr>"

definition runs_on :: "string \<Rightarrow> bool" where
  "runs_on path = str_includes path ''/problems/''"

definition touched_message :: "string \<Rightarrow> jv" where
  "touched_message slug = JObj [(''type'', JStr ''PROBLEM_TOUCHED''), (''slug'', JStr slug)]"

definition reportTouch :: "page \<Rightarrow> page" where
  "reportTouch p =
     (case parseProblemSlug (pg_path p) of
        None \<Rightarrow> p
      | Some slug \<Rightarrow>
          if slug \<in> set (pg_reported p) then p
          else p\<lparr>pg_reported := pg_reported p @ [slug], pg_sent := pg_sent p @ [touched_message slug]\<rparr>)"

definition handleEditorInput :: "key_event \<Rightarrow> page \<Rightarrow> page" where
  "handleEditorInput e p =
     (if \<not> ke_editor e then p
      else if ke_type e = ''keydown'' \<and> \<not> isEditingKey e then p
      else reportTouch p)"

text \<open>LeetCode routes between problems without reloading the page.\<close>

datatype page_event = EditorEvent key_event | RoutedTo string

fun page_step :: "page_event \<Rightarrow> page \<Rightarrow> page" where
  "page_step (EditorEvent e) p = handleEditorInput e p"
| "page_step (RoutedTo path) p = p\<lparr>pg_path := path\<rparr>"

definition page_inv :: "page \<Rightarrow> bool" where
  "page_inv p \<longleftrightarrow> distinct (pg_reported p) \<and> pg_sent p = map touched_message (pg_reported p) \<and>
     (\<forall>s\<in>set (pg_reported p). slug_ok s)"

lemma page_inv_step: "page_inv p \<Longrightarrow> page_inv (page_step e p)"
  by (cases e) (auto simp: page_inv_def handleEditorInput_def reportTouch_def parseProblemSlug_ok split: option.split)

interpretation page: machine "pageInit path" page_step page_inv for path
  by unfold_locales (simp add: page_inv_def pageInit_def, rule page_inv_step)

text \<open>
  C36: a page reports each problem at most once, whatever is typed and wherever LeetCode routes to, and
  typing reports the problem of the page at that moment.
\<close>

theorem each_problem_reported_once:
  fixes path es e
  defines "p \<equiv> run page_step es (pageInit path)"
  assumes "ke_editor e" "ke_type e \<noteq> ''keydown'' \<or> isEditingKey e"
  shows "distinct (pg_sent p) \<and>
    (\<forall>slug. parseProblemSlug (pg_path p) = Some slug \<longrightarrow> touched_message slug \<in> set (pg_sent (page_step (EditorEvent e) p)))"
proof -
  have i: "page_inv p" unfolding p_def by (rule page.inv_run_init)
  then have "distinct (pg_sent p)" by (auto simp: page_inv_def distinct_map inj_on_def touched_message_def)
  moreover have "page_inv (page_step (EditorEvent e) p)" using i by (rule page_inv_step)
  then have "parseProblemSlug (pg_path p) = Some slug \<Longrightarrow> touched_message slug \<in> set (pg_sent (page_step (EditorEvent e) p))" for slug
    using assms(2,3) by (auto simp: page_inv_def handleEditorInput_def reportTouch_def)
  ultimately show ?thesis by blast
qed

definition paste_event :: key_event where
  "paste_event = \<lparr>ke_type = ''paste'', ke_key = [], ke_ctrl = False, ke_meta = False, ke_editor = True\<rparr>"

theorem each_problem_reported_once_witness:
  "pg_sent (page_step (EditorEvent paste_event) (pageInit ''/problems/two-sum/'')) \<noteq> []"
proof -
  have "parseProblemSlug (pg_path (run page_step [] (pageInit ''/problems/two-sum/''))) = Some ''two-sum''"
    by (simp add: pageInit_def slug_char_def)
  then show ?thesis
    using each_problem_reported_once [of paste_event "[]" "''/problems/two-sum/''"] by (auto simp: paste_event_def)
qed

section \<open>Theme\<close>

record theme_state =
  th_pref :: jv
  th_leetcode :: "string option"
  th_systemDark :: bool
  th_sent :: "jv option"
  th_background :: string

definition DARK_BG :: string where "DARK_BG = ''#262626''"
definition LIGHT_BG :: string where "LIGHT_BG = ''#ffffff''"
definition DARK_HANDLE :: string where "DARK_HANDLE = ''#343434''"
definition LIGHT_HANDLE :: string where "LIGHT_HANDLE = ''#d4d4d4''"

definition getResolvedTheme :: "theme_state \<Rightarrow> string" where
  "getResolvedTheme t =
     (case th_leetcode t of
        Some s \<Rightarrow> if s = ''dark'' \<or> s = ''light'' then s else if th_systemDark t then ''dark'' else ''light''
      | None \<Rightarrow> if th_systemDark t then ''dark'' else ''light'')"

definition sendThemeToIframe :: "jv \<Rightarrow> theme_state \<Rightarrow> theme_state" where
  "sendThemeToIframe theme t =
     t\<lparr>th_sent := Some theme, th_background := (if strict_eq theme (JStr ''light'') then LIGHT_BG else DARK_BG)\<rparr>"

definition has_preference :: "jv \<Rightarrow> bool" where
  "has_preference pref \<longleftrightarrow> truthy pref \<and> \<not> strict_eq pref (JStr ''auto'')"

definition syncTheme :: "theme_state \<Rightarrow> theme_state" where
  "syncTheme t =
     (if has_preference (th_pref t) then sendThemeToIframe (th_pref t) t
      else sendThemeToIframe (JStr (getResolvedTheme t)) t)"

text \<open>The observer of LeetCode's theme class and the listener of the system theme.\<close>

definition theme_changed :: "theme_state \<Rightarrow> theme_state" where
  "theme_changed t =
     (if \<not> truthy (th_pref t) \<or> strict_eq (th_pref t) (JStr ''auto'')
      then sendThemeToIframe (JStr (getResolvedTheme t)) t else t)"

datatype theme_event = IframeLoaded | PreferenceStored jv | LeetCodeTheme "string option" | SystemTheme bool

fun theme_step :: "theme_event \<Rightarrow> theme_state \<Rightarrow> theme_state" where
  "theme_step IframeLoaded t = syncTheme t"
| "theme_step (PreferenceStored v) t = syncTheme (t\<lparr>th_pref := v\<rparr>)"
| "theme_step (LeetCodeTheme s) t = theme_changed (t\<lparr>th_leetcode := s\<rparr>)"
| "theme_step (SystemTheme d) t = theme_changed (t\<lparr>th_systemDark := d\<rparr>)"

definition effective_theme :: "theme_state \<Rightarrow> jv" where
  "effective_theme t = (if has_preference (th_pref t) then th_pref t else JStr (getResolvedTheme t))"

text \<open>The colour of the resize handle when it is not used.\<close>

definition handle_color :: "jv \<Rightarrow> bool \<Rightarrow> string" where
  "handle_color pref systemDark =
     (if strict_eq pref (JStr ''light'') \<or> (\<not> truthy pref \<and> \<not> systemDark) then LIGHT_HANDLE else DARK_HANDLE)"

definition theme_inv :: "theme_state \<Rightarrow> bool" where
  "theme_inv t \<longleftrightarrow> th_sent t = Some (effective_theme t) \<and>
     th_background t = (if effective_theme t = JStr ''light'' then LIGHT_BG else DARK_BG)"

lemma theme_inv_sync: "theme_inv (syncTheme t)"
  by (auto simp: theme_inv_def syncTheme_def sendThemeToIframe_def effective_theme_def getResolvedTheme_def)

lemma theme_inv_changed:
  assumes "theme_inv t" "th_pref t' = th_pref t" "th_sent t' = th_sent t" "th_background t' = th_background t"
  shows "theme_inv (theme_changed t')"
  using assms
  by (auto simp: theme_inv_def theme_changed_def sendThemeToIframe_def effective_theme_def has_preference_def getResolvedTheme_def)

lemma theme_inv_step: "theme_inv t \<Longrightarrow> theme_inv (theme_step e t)"
  by (cases e) (auto intro: theme_inv_sync theme_inv_changed)

interpretation theme: machine "syncTheme t" theme_step theme_inv for t
  by unfold_locales (rule theme_inv_sync, rule theme_inv_step)

text \<open>
  Once the panel has loaded, the theme it was sent last and its background are those of the user's
  preference, or without one those of LeetCode, or else of the system, after every change of any of them.
\<close>

theorem panel_theme_in_sync:
  fixes t es
  defines "t' \<equiv> run theme_step (IframeLoaded # es) t"
  shows "th_sent t' = Some (effective_theme t') \<and>
    (th_background t' = LIGHT_BG \<longleftrightarrow> effective_theme t' = JStr ''light'')"
  using theme.inv_run_init [of es t] by (auto simp: t'_def theme_inv_def LIGHT_BG_def DARK_BG_def)

text \<open>The handle disagrees with the panel: with the stored preference \<open>auto\<close> it is dark in a light system.\<close>

lemma auto_handle_stays_dark:
  "handle_color (JStr ''auto'') False = DARK_HANDLE \<and>
   effective_theme \<lparr>th_pref = JStr ''auto'', th_leetcode = None, th_systemDark = False, th_sent = None, th_background = []\<rparr>
     = JStr ''light''"
  by (simp add: handle_color_def effective_theme_def has_preference_def getResolvedTheme_def)

section \<open>The active tab of LeetCode\<close>

text \<open>Which tabsets carry the class \<open>flexlayout__tabset-active\<close>, and the tabset that is observed.\<close>

record tabs_state =
  at_panelActive :: bool
  at_active :: "bool list"
  at_observed :: "nat list"
  at_sent :: "jv list"

definition first_active :: "bool list \<Rightarrow> nat option" where
  "first_active bs = (case filter (\<lambda>i. bs ! i) [0..<length bs] of [] \<Rightarrow> None | i # _ \<Rightarrow> Some i)"

definition activate_panel :: "tabs_state \<Rightarrow> tabs_state" where
  "activate_panel s =
     (if at_panelActive s then s
      else (case first_active (at_active s) of
              None \<Rightarrow> s\<lparr>at_panelActive := True\<rparr>
            | Some i \<Rightarrow> s\<lparr>at_panelActive := True, at_active := (at_active s)[i := False], at_observed := at_observed s @ [i]\<rparr>))"

definition removeActive :: "tabs_state \<Rightarrow> tabs_state" where
  "removeActive s = s\<lparr>at_panelActive := False, at_observed := [],
     at_sent := at_sent s @ [JObj [(''type'', JStr ''NOT_ACTIVE'')]]\<rparr>"

definition tabset_pressed :: "nat option \<Rightarrow> tabs_state \<Rightarrow> tabs_state" where
  "tabset_pressed tabset s =
     (case tabset of None \<Rightarrow> s | Some i \<Rightarrow> (removeActive s)\<lparr>at_active := (at_active s)[i := True]\<rparr>)"

text \<open>LeetCode sets the class of a tabset again; an observed one loses it.\<close>

definition leetcode_activates :: "nat \<Rightarrow> tabs_state \<Rightarrow> tabs_state" where
  "leetcode_activates i s = s\<lparr>at_active := (at_active s)[i := (i \<notin> set (at_observed s))]\<rparr>"

datatype tabs_event = PanelActive | Pressed "nat option" | TabsetAdded bool | TabAdded | ClassSet nat

fun tabs_step :: "tabs_event \<Rightarrow> tabs_state \<Rightarrow> tabs_state" where
  "tabs_step PanelActive s = activate_panel s"
| "tabs_step (Pressed t) s = tabset_pressed t s"
| "tabs_step (TabsetAdded active) s = (removeActive s)\<lparr>at_active := at_active s @ [active]\<rparr>"
| "tabs_step TabAdded s = removeActive s"
| "tabs_step (ClassSet i) s = leetcode_activates i s"

text \<open>While the panel is active the tabset it was taken from does not look active.\<close>

definition tabs_inv :: "tabs_state \<Rightarrow> bool" where
  "tabs_inv s \<longleftrightarrow> (\<not> at_panelActive s \<longrightarrow> at_observed s = []) \<and>
     (\<forall>i\<in>set (at_observed s). i < length (at_active s) \<and> \<not> at_active s ! i) \<and> length (at_observed s) \<le> 1"

lemma first_active_less: "first_active bs = Some i \<Longrightarrow> i < length bs \<and> bs ! i"
proof (cases "filter (\<lambda>i. bs ! i) [0..<length bs]")
  case (Cons j js)
  assume "first_active bs = Some i"
  with Cons have "j = i" by (simp add: first_active_def)
  moreover have "j \<in> set (filter (\<lambda>i. bs ! i) [0..<length bs])" unfolding Cons by simp
  ultimately show ?thesis by simp
qed (simp add: first_active_def)

lemma tabs_inv_step: "tabs_inv s \<Longrightarrow> tabs_inv (tabs_step e s)"
proof (cases e)
  case (ClassSet j)
  assume i: "tabs_inv s"
  have "\<not> (at_active s)[j := (j \<notin> set (at_observed s))] ! i" if "i \<in> set (at_observed s)" for i
    using i that by (cases "i = j") (auto simp: tabs_inv_def)
  then show ?thesis using i by (simp add: ClassSet tabs_inv_def leetcode_activates_def)
qed (auto simp: tabs_inv_def activate_panel_def tabset_pressed_def removeActive_def split: option.split dest: first_active_less)

definition tabs_start :: "bool list \<Rightarrow> tabs_state" where
  "tabs_start bs = \<lparr>at_panelActive = False, at_active = bs, at_observed = [], at_sent = []\<rparr>"

interpretation tabs: machine "tabs_start bs" tabs_step tabs_inv for bs
  by unfold_locales (simp add: tabs_inv_def tabs_start_def, rule tabs_inv_step)

section \<open>Intercepted requests\<close>

text \<open>The match of \<open>/problems\/([^\/]+)\/submit/\<close>, or the empty string.\<close>

fun submit_slug :: "string \<Rightarrow> string" where
  "submit_slug [] = []"
| "submit_slug (c # cs) =
     (if starts_with (c # cs) ''problems/'' then
        (let rest = drop (length ''problems/'') (c # cs); slug = takeWhile (\<lambda>x. x \<noteq> CHR ''/'') rest in
         if slug \<noteq> [] \<and> starts_with (drop (length slug) rest) ''/submit'' then slug else submit_slug cs)
      else submit_slug cs)"

definition posted :: "string \<Rightarrow> (string \<times> jv) list \<Rightarrow> jv" where
  "posted t payload = JObj [(''type'', JStr t), (''payload'', JObj payload)]"

text \<open>\<open>options.body ? JSON.parse(options.body) : {}\<close>\<close>

definition request_body :: "jv \<Rightarrow> jv + jv" where
  "request_body options =
     (if truthy (opt_get options ''body'')
      then (case json_parse (to_str (opt_get options ''body'')) of None \<Rightarrow> Inl syntax_error | Some v \<Rightarrow> Inr v)
      else Inr (JObj []))"

definition submit_payload :: "string \<Rightarrow> jv \<Rightarrow> jv \<Rightarrow> jv + (string \<times> jv) list" where
  "submit_payload url options data =
     (case request_body (js_or options (JObj [])) of
        Inl e \<Rightarrow> Inl e
      | Inr body \<Rightarrow>
          (case (get data ''submission_id'', get body ''lang'') of
             (Inr sid, Inr lang) \<Rightarrow>
               Inr [(''problemSlug'', JStr (submit_slug url)), (''submissionId'', sid), (''lang'', lang),
                    (''question_id'', opt_get body ''question_id''), (''typed_code'', opt_get body ''typed_code'')]
           | (Inl e, _) \<Rightarrow> Inl e
           | (_, Inl e) \<Rightarrow> Inl e))"

text \<open>\<open>url.split('/')[3]\<close>\<close>

definition check_id :: "string \<Rightarrow> jv" where
  "check_id url = (let ps = split_on CHR ''/'' url in if 3 < length ps then JStr (ps ! 3) else JUndef)"

definition check_payload :: "string \<Rightarrow> jv \<Rightarrow> (string \<times> jv) list" where
  "check_payload url data =
     (''submissionId'', check_id url) #
     map (\<lambda>k. (k, opt_get data k)) [''status_msg'', ''total_correct'', ''total_testcases'', ''runtime_percentile'',
       ''memory_percentile'', ''code_output'', ''std_output'', ''elapsed_time'']"

text \<open>The messages that the wrapped \<open>fetch(url, options)\<close> posts for a response with this body.\<close>

definition intercepted :: "jv \<Rightarrow> jv \<Rightarrow> jv option \<Rightarrow> jv list" where
  "intercepted arg0 options body =
     (case js_or arg0 (JStr []) of
        JStr url \<Rightarrow>
          (if str_includes url ''/submit/''
           then (case body of
                   None \<Rightarrow> []
                 | Some data \<Rightarrow> (case submit_payload url options data of
                                   Inl e \<Rightarrow> [] | Inr p \<Rightarrow> [posted ''BSG_LEETCODE_SUBMISSION'' p])) else []) @
          (if str_includes url ''/check/''
           then (case body of
                   None \<Rightarrow> []
                 | Some data \<Rightarrow> if strict_eq (opt_get data ''state'') (JStr ''SUCCESS'')
                                then [posted ''BSG_LEETCODE_RESULT'' (check_payload url data)] else []) else [])
      | _ \<Rightarrow> [])"

text \<open>The listener of the content script: the messages to the worker for a message of the page itself.\<close>

definition relay :: "bool \<Rightarrow> jv \<Rightarrow> jv + jv list" where
  "relay from_page data =
     (if \<not> from_page then Inr []
      else
        (case get data ''type'' of
           Inl e \<Rightarrow> Inl e
         | Inr t \<Rightarrow>
             if \<not> truthy t then Inr []
             else Inr
               ((if strict_eq t (JStr ''BSG_LEETCODE_SUBMISSION'')
                 then [JObj [(''type'', JStr ''SUBMISSION_PENDING''), (''data'', opt_get data ''payload'')]] else []) @
                (if strict_eq t (JStr ''BSG_LEETCODE_RESULT'')
                 then [JObj [(''type'', JStr ''SUBMISSION_RESULT''), (''data'', opt_get data ''payload'')]] else []))))"

text \<open>\<open>DetectBrowser\<close>: throws without \<open>userAgentData\<close> or with fewer than three brands.\<close>

definition DetectBrowser :: "jv \<Rightarrow> jv + jv" where
  "DetectBrowser userAgentData =
     (case get userAgentData ''platform'' of
        Inl e \<Rightarrow> Inl e
      | Inr _ \<Rightarrow>
          (case opt_get userAgentData ''brands'' of
             JArr brands \<Rightarrow> get (arr_get brands 2) ''brand''
           | v \<Rightarrow> (case get v ''2'' of Inl e \<Rightarrow> Inl e | Inr b \<Rightarrow> get b ''brand'')))"

section \<open>From the submission to the server\<close>

lemma split_on_append: "split_on c (a @ c # b) = split_on c a @ split_on c b"
  by (induction a) (auto split: list.split)

lemma includes_segment:
  assumes "str_includes s (c # p @ [c])" "c \<notin> set p"
  shows "p \<in> set (split_on c s)"
proof -
  from assms(1) obtain a b where "s = a @ c # (p @ c # b)" by (auto simp: str_includes_iff)
  then show ?thesis using assms(2) by (simp add: split_on_append split_on_no_sep)
qed

definition submit_url :: "string \<Rightarrow> string" where
  "submit_url slug = ''/problems/'' @ slug @ ''/submit/''"

definition check_url :: "nat \<Rightarrow> string" where
  "check_url n = ''/submissions/detail/'' @ show_nat n @ ''/check/''"

lemma submit_slug_url: "slug_ok s \<Longrightarrow> submit_slug (submit_url s) = s"
proof -
  assume s: "slug_ok s"
  have "takeWhile (\<lambda>x. x \<noteq> CHR ''/'') (s @ ''/submit/'') = s"
    using s by (subst takeWhile_append2) (auto simp: slug_ok_def list_all_iff slug_char_def)
  moreover have "s \<noteq> []" using s by (simp add: slug_ok_def)
  ultimately show ?thesis by (simp add: submit_url_def Let_def)
qed

lemma slash_digits: "CHR ''/'' \<notin> set (show_nat n)"
  by (rule show_nat_notin) code_simp

lemma check_segments: "split_on CHR ''/'' (check_url n) = [[], ''submissions'', ''detail'', show_nat n, ''check'', []]"
  by (simp add: check_url_def split_on_append split_on_no_sep slash_digits)

lemma check_not_submit: "\<not> str_includes (check_url n) ''/submit/''"
proof
  assume "str_includes (check_url n) ''/submit/''"
  then have "''submit'' \<in> set (split_on CHR ''/'' (check_url n))"
    using includes_segment [of "check_url n" "CHR ''/''" "''submit''"] by simp
  then have "show_nat n = ''submit''" by (simp add: check_segments)
  then have "list_all is_digit ''submit''" using show_nat_digits [of n] by simp
  then show False by (simp add: is_digit_def)
qed

definition relay_all :: "jv list \<Rightarrow> jv list" where
  "relay_all msgs = concat (map (\<lambda>d. case relay True d of Inl e \<Rightarrow> [] | Inr ms \<Rightarrow> ms) msgs)"

text \<open>The worker after the page has made a request that was answered with this body.\<close>

definition page_request :: "string \<Rightarrow> jv \<Rightarrow> jv \<Rightarrow> worker \<Rightarrow> worker" where
  "page_request url options body w = run worker_step (map Receive (relay_all (intercepted (JStr url) options (Some body)))) w"

lemma announce_message:
  assumes "slug_ok slug" "json_parse jsn = Some (JObj bfs)"
  shows "relay_all (intercepted (JStr (submit_url slug)) (JObj [(''body'', JStr jsn)]) (Some (JObj [(''submission_id'', sid)]))) =
    [JObj [(''type'', JStr ''SUBMISSION_PENDING''), (''data'', JObj [(''problemSlug'', JStr slug), (''submissionId'', sid),
       (''lang'', obj_lookup bfs ''lang''), (''question_id'', obj_lookup bfs ''question_id''), (''typed_code'', obj_lookup bfs ''typed_code'')])]]"
proof -
  have i: "str_includes (submit_url slug) ''/submit/''"
    unfolding submit_url_def using str_includes_append [of "''/problems/'' @ slug" "''/submit/''" "[]"] by simp
  have u: "submit_url slug \<noteq> []" by (simp add: submit_url_def)
  have "json_parse [] = None" by (simp add: json_parse_def json_fuel_def)
  then have "jsn \<noteq> []" using assms(2) by auto
  with assms(2) have rb: "request_body (js_or (JObj [(''body'', JStr jsn)]) (JObj [])) = Inr (JObj bfs)"
    by (simp add: request_body_def obj_lookup_def)
  have p: "submit_payload (submit_url slug) (JObj [(''body'', JStr jsn)]) (JObj [(''submission_id'', sid)]) =
     Inr [(''problemSlug'', JStr slug), (''submissionId'', sid), (''lang'', obj_lookup bfs ''lang''),
       (''question_id'', obj_lookup bfs ''question_id''), (''typed_code'', obj_lookup bfs ''typed_code'')]"
    unfolding submit_payload_def rb by (simp add: submit_slug_url [OF assms(1)] obj_lookup_def [of "[x]" for x])
  have "intercepted (JStr (submit_url slug)) (JObj [(''body'', JStr jsn)]) (Some (JObj [(''submission_id'', sid)])) =
     [posted ''BSG_LEETCODE_SUBMISSION'' [(''problemSlug'', JStr slug), (''submissionId'', sid), (''lang'', obj_lookup bfs ''lang''),
       (''question_id'', obj_lookup bfs ''question_id''), (''typed_code'', obj_lookup bfs ''typed_code'')]]"
    using u by (simp add: intercepted_def js_or_def i p obj_lookup_def [of "[x]" for x])
  then show ?thesis by (simp add: relay_all_def relay_def posted_def obj_lookup_def [of "[x, y]" for x y])
qed

lemma verdict_message:
  assumes "obj_lookup res ''state'' = JStr ''SUCCESS''"
  shows "relay_all (intercepted (JStr (check_url n)) options (Some (JObj res))) =
    [JObj [(''type'', JStr ''SUBMISSION_RESULT''), (''data'', JObj (check_payload (check_url n) (JObj res)))]]"
proof -
  have i: "str_includes (check_url n) ''/check/''"
    unfolding check_url_def using str_includes_append [of "''/submissions/detail/'' @ show_nat n" "''/check/''" "[]"] by simp
  have u: "check_url n \<noteq> []" by (simp add: check_url_def)
  show ?thesis
    using assms by (simp add: intercepted_def js_or_def i u check_not_submit relay_all_def relay_def posted_def obj_lookup_def [of "[(a, b), (c, d)]" for a b c d])
qed

lemma check_fields:
  "get (JObj (check_payload (check_url n) (JObj res))) ''submissionId'' = Inr (JStr (show_nat n))"
  "opt_get (JObj (check_payload (check_url n) (JObj res))) ''status_msg'' = obj_lookup res ''status_msg''"
  "opt_get (JObj (check_payload (check_url n) (JObj res))) ''elapsed_time'' = obj_lookup res ''elapsed_time''"
  "opt_get (JObj (check_payload (check_url n) (JObj res))) ''memory_percentile'' = obj_lookup res ''memory_percentile''"
  by (simp_all add: check_payload_def check_id_def check_segments obj_lookup_def [of "x # xs" for x xs])

definition report_body :: "string \<Rightarrow> (string \<times> jv) list \<Rightarrow> (string \<times> jv) list \<Rightarrow> (string \<times> jv) list" where
  "report_body slug src res =
     [(''slug'', JStr slug), (''status'', JStr ''Accepted''), (''code'', obj_lookup src ''typed_code''),
      (''language'', obj_lookup src ''lang''), (''runtime'', obj_lookup res ''elapsed_time''),
      (''memory'', obj_lookup res ''memory_percentile'')]"

text \<open>
  An accepted solution reaches the server: when the page submits a solution of a problem and later
  polls its verdict, the intercepted requests, the relay and the worker together send exactly one report,
  with the slug of the problem, the submitted code and language and the measurements of the verdict,
  provided the round has not run out.
\<close>

lemma accepted_report:
  fixes w slug n jsn src res opts fs
  assumes "slug_ok slug" "0 < n" "json_parse jsn = Some (JObj src)"
    and "obj_lookup res ''state'' = JStr ''SUCCESS''" "obj_lookup res ''status_msg'' = JStr ''Accepted''"
    and "wk_configReady w" "pending_of w = JObj fs" "\<not> round_over w"
  defines "w1 \<equiv> page_request (submit_url slug) (JObj [(''body'', JStr jsn)]) (JObj [(''submission_id'', JNum (int n))]) w"
  defines "w2 \<equiv> page_request (check_url n) opts (JObj res) w1"
  shows "requests w2 = requests w @ [\<lparr>rq_method = ''POST'', rq_url = wk_serverUrl w @ ''/submission'',
    rq_body = Some (json_stringify (report_body slug src res)), rq_credentials = True\<rparr>]"
proof -
  let ?data = "JObj [(''problemSlug'', JStr slug), (''submissionId'', JNum (int n)), (''lang'', obj_lookup src ''lang''),
     (''question_id'', obj_lookup src ''question_id''), (''typed_code'', obj_lookup src ''typed_code'')]"
  let ?key = "show_nat n"
  have key: "to_str (JNum (int n)) = ?key" by (simp add: show_int_def)
  have slug: "slug \<noteq> []" using assms(1) by (simp add: slug_ok_def)
  have w1: "w1 = w\<lparr>wk_local := (wk_local w)(''pendingSubmissions'' \<mapsto> JObj (obj_put ?key ?data fs)), wk_trace := wk_trace w @ [Reply received]\<rparr>"
    unfolding w1_def page_request_def announce_message [OF assms(1,3)]
    using assms(2,7) slug key
    by (simp add: on_message_def Let_def obj_lookup_def [of "x # xs" for x xs] submission_pending_def put_member_def del: to_str.simps)
  have ready: "wk_configReady w1" using assms(6) by (simp add: w1)
  have over: "\<not> round_over w1" using assms(8) by (simp add: w1 round_over_def session_get_def)
  have pend: "pending_of w1 = JObj (obj_put ?key ?data fs)"
    by (simp add: w1 pending_of_def session_get_def js_or_def)
  have entry: "pending_entry w1 (JStr ?key) = ?data"
    by (simp add: pending_entry_def pend obj_lookup_put)
  have req: "requests w1 = requests w" by (simp add: w1 requests_def map_filter_def)
  have "w2 = snd (submission_result (JObj (check_payload (check_url n) (JObj res))) w1)"
    unfolding w2_def page_request_def verdict_message [OF assms(4)]
    by (simp add: on_message_def Let_def obj_lookup_def [of "x # xs" for x xs])
  then have "requests w2 = requests w1 @
      (if reportable w1 (JStr ?key) (JObj (check_payload (check_url n) (JObj res)))
       then [submission_request w1 ?data (JObj (check_payload (check_url n) (JObj res)))] else [])"
    using requests_result [OF ready check_fields(1) [of n res]] by (simp only: entry)
  moreover have "reportable w1 (JStr ?key) (JObj (check_payload (check_url n) (JObj res)))"
    unfolding reportable_def entry check_fields(2) using assms(5) over by simp
  moreover have "submission_request w1 ?data (JObj (check_payload (check_url n) (JObj res))) =
      \<lparr>rq_method = ''POST'', rq_url = wk_serverUrl w @ ''/submission'',
       rq_body = Some (json_stringify (report_body slug src res)), rq_credentials = True\<rparr>"
    unfolding submission_request_def submission_body_def report_body_def check_fields
    by (simp add: w1 obj_lookup_def [of "x # xs" for x xs])
  ultimately show ?thesis by (simp add: req)
qed

end
