(* ===== verification/Panel_Shell.thy ===== *)
theory Panel_Shell
  imports Panel_Layout Page_Script Chat_Socket
begin

text \<open>
  The frame around the pages of the panel: \<open>pages/_app.tsx\<close> with the theme, the screens and the effects that keep
  the stores in step with the size of the panel, the sidebar and the header (\<open>customComponents/TabBar\<close>), the
  hooks that read the state of the content script, and the messages back to it (\<open>utils/messageScript.ts\<close>).
\<close>

section \<open>The theme classes\<close>

definition applyTheme :: "jv \<Rightarrow> string list \<Rightarrow> string list" where
  "applyTheme theme classes =
     filter (\<lambda>c. c \<noteq> ''dark'' \<and> c \<noteq> ''light'') classes @ [if strict_eq theme (JStr ''light'') then ''light'' else ''dark'']"

text \<open>The callback that applies the stored preference when the panel starts.\<close>

definition initial_theme :: "jv \<Rightarrow> bool \<Rightarrow> string list \<Rightarrow> string list" where
  "initial_theme pref systemLight classes =
     (if has_preference pref then applyTheme pref classes
      else if systemLight then applyTheme (JStr ''light'') classes else classes)"

definition theme_message :: "jv \<Rightarrow> string list \<Rightarrow> string list" where
  "theme_message data classes =
     (if strict_eq (opt_get data ''type'') (JStr ''BSG_THEME_UPDATE'') then applyTheme (opt_get data ''theme'') classes else classes)"

definition theme_stored :: "jv \<Rightarrow> string list \<Rightarrow> string list" where
  "theme_stored changes classes =
     (let c = opt_get changes ''themePreference'' in
      if truthy c \<and> has_preference (opt_get c ''newValue'') then applyTheme (opt_get c ''newValue'') classes else classes)"

text \<open>
  The page and the panel together: every change reaches the content script, which posts its theme to the
  panel; a stored preference also reaches the panel's own listener.
\<close>

definition theme_update :: "jv \<Rightarrow> jv" where
  "theme_update theme = JObj [(''type'', JStr ''BSG_THEME_UPDATE''), (''theme'', theme)]"

definition preference_change :: "jv \<Rightarrow> jv" where
  "preference_change v = JObj [(''themePreference'', JObj [(''newValue'', v)])]"

definition both_themes :: "theme_event \<Rightarrow> theme_state \<times> string list \<Rightarrow> theme_state \<times> string list" where
  "both_themes e s =
     (let (t, classes) = s; t' = theme_step e t;
          own = (case e of PreferenceStored v \<Rightarrow> theme_stored (preference_change v) classes | _ \<Rightarrow> classes) in
      (t', case th_sent t' of None \<Rightarrow> own | Some theme \<Rightarrow> theme_message (theme_update theme) own))"

section \<open>The screen\<close>

datatype app_screen = PopupPage | BlankPage | RestorePage bool | PanelPage

text \<open>\<open>RestorePage True\<close> shows the indicator of a slow restore.\<close>

definition app_screen :: "bool \<Rightarrow> bool \<Rightarrow> bool \<Rightarrow> bool \<Rightarrow> bool \<Rightarrow> app_screen" where
  "app_screen isDefaultPopup configLoaded sessionReady isRestoreSlow folded =
     (if isDefaultPopup then PopupPage
      else if \<not> configLoaded then BlankPage
      else if \<not> sessionReady then RestorePage (isRestoreSlow \<and> \<not> folded)
      else PanelPage)"

section \<open>Folding and unread messages\<close>

text \<open>\<open>useIsFolded\<close>: the observer of the size of the document.\<close>

definition folded_at :: "rat \<Rightarrow> bool" where
  "folded_at w \<longleftrightarrow> w \<le> 36"

record shell =
  sh_chat :: chat
  sh_folded :: bool

definition chat_panel :: "(panel_store \<Rightarrow> panel_store) \<Rightarrow> chat \<Rightarrow> chat" where
  "chat_panel f s = s\<lparr>ch_world := (ch_world s)\<lparr>w_panel := f (w_panel (ch_world s))\<rparr>\<rparr>"

definition shell_room :: "shell \<Rightarrow> room_store" where
  "shell_room s = w_room (ch_world (sh_chat s))"

definition shell_panel :: "shell \<Rightarrow> panel_store" where
  "shell_panel s = w_panel (ch_world (sh_chat s))"

text \<open>The two effects of a commit, when one of their dependencies differs from the commit before.\<close>

definition folded_effect :: "shell \<Rightarrow> shell" where
  "folded_effect s = s\<lparr>sh_chat := chat_panel (setIsFolded (sh_folded s)) (sh_chat s)\<rparr>"

definition unread_effect :: "shell \<Rightarrow> shell" where
  "unread_effect s =
     (if activeTab (shell_room s) = TabChat \<and> \<not> sh_folded s then s\<lparr>sh_chat := chat_room clearUnread (sh_chat s)\<rparr> else s)"

definition commit :: "tab_name \<Rightarrow> bool \<Rightarrow> shell \<Rightarrow> shell" where
  "commit tab0 folded0 s =
     (let s1 = (if sh_folded s \<noteq> folded0 then folded_effect s else s) in
      if activeTab (shell_room s1) \<noteq> tab0 \<or> sh_folded s1 \<noteq> folded0 then unread_effect s1 else s1)"

definition shellInit :: "chat \<Rightarrow> shell" where
  "shellInit c = unread_effect (folded_effect \<lparr>sh_chat = c, sh_folded = False\<rparr>)"

datatype shell_event =
    PanelResized rat | RoomActed room_action | MessageArrived jv jv | HoverChanged bool

fun shell_raw :: "shell_event \<Rightarrow> shell \<Rightarrow> shell" where
  "shell_raw (PanelResized w) s = s\<lparr>sh_folded := folded_at w\<rparr>"
| "shell_raw (RoomActed a) s = s\<lparr>sh_chat := chat_room (room_step a) (sh_chat s)\<rparr>"
| "shell_raw (MessageArrived me handle) s = s\<lparr>sh_chat := count_unread me handle (sh_chat s)\<rparr>"
| "shell_raw (HoverChanged b) s = s\<lparr>sh_chat := chat_panel (setIsPanelHovered b) (sh_chat s)\<rparr>"

definition shell_step :: "shell_event \<Rightarrow> shell \<Rightarrow> shell" where
  "shell_step e s = commit (activeTab (shell_room s)) (sh_folded s) (shell_raw e s)"

section \<open>Messages to the content script\<close>

datatype panel_message = MFold | MUnfold | MMaximize | MActive

fun message_str :: "panel_message \<Rightarrow> string" where
  "message_str MFold = ''FOLD''"
| "message_str MUnfold = ''UNFOLD''"
| "message_str MMaximize = ''MAXIMIZE''"
| "message_str MActive = ''ACTIVE''"

text \<open>The message that leaves for the active tab, given the identifier of that tab; failures are swallowed.\<close>

definition messageScript :: "panel_message \<Rightarrow> bool \<Rightarrow> jv option \<Rightarrow> (jv \<times> jv) option" where
  "messageScript m hasTabs tab =
     (case tab of
        Some tid \<Rightarrow> if hasTabs \<and> truthy tid then Some (tid, JObj [(''type'', JStr (message_str m))]) else None
      | None \<Rightarrow> None)"

text \<open>The branch of the content script's listener that a message about the layout takes.\<close>

definition layout_message :: "jv \<Rightarrow> viewport \<times> panel \<Rightarrow> viewport \<times> panel" where
  "layout_message msg s =
     (if strict_eq (opt_get msg ''type'') (JStr ''FOLD'') then layout_step FoldMsg s
      else if strict_eq (opt_get msg ''type'') (JStr ''UNFOLD'') then layout_step UnfoldMsg s
      else if strict_eq (opt_get msg ''type'') (JStr ''MAXIMIZE'') then layout_step MaximizeMsg s
      else s)"

section \<open>The sidebar\<close>

text \<open>The badge over the logo.\<close>

definition unread_badge :: "nat \<Rightarrow> string option" where
  "unread_badge n = (if n > 0 then Some (if n > 9 then ''9+'' else show_nat n) else None)"

text \<open>
  A tab of the sidebar: the tab is set, the message leaves, the content script changes the layout, and the
  observer reports the new width of the panel.
\<close>

definition selectTabAndUnfold :: "tab_name \<Rightarrow> jv \<Rightarrow> (viewport \<times> panel) \<times> shell \<Rightarrow> (viewport \<times> panel) \<times> shell" where
  "selectTabAndUnfold tab tid s =
     (let s1 = shell_step (RoomActed (ASetActiveTab tab)) (snd s) in
      case messageScript MUnfold True (Some tid) of
        None \<Rightarrow> (fst s, s1)
      | Some (_, msg) \<Rightarrow>
          (let l = layout_message msg (fst s) in (l, shell_step (PanelResized (px_of (pn_width (snd l)))) s1)))"

section \<open>Hooks\<close>

text \<open>\<open>useIsMaximized\<close>, \<open>useBrowser\<close>, \<open>useIsActive\<close>: what a stored value, a change or a message does to the state.\<close>

definition maximized_read :: "jv \<Rightarrow> bool" where
  "maximized_read v \<longleftrightarrow> strict_eq v (JBool True)"

definition maximized_changed :: "jv \<Rightarrow> bool \<Rightarrow> bool" where
  "maximized_changed changes m =
     (let c = opt_get changes ''isPanelMaximized'' in if truthy c then strict_eq (opt_get c ''newValue'') (JBool True) else m)"

definition browser_read :: "jv \<Rightarrow> jv \<Rightarrow> jv" where
  "browser_read stored b = (if truthy stored then stored else b)"

definition browser_changed :: "jv \<Rightarrow> jv \<Rightarrow> jv" where
  "browser_changed changes b =
     (let c = opt_get changes ''browser'' in if truthy c then opt_get c ''newValue'' else b)"

definition active_message :: "jv \<Rightarrow> bool \<Rightarrow> bool" where
  "active_message msg a = (if strict_eq (opt_get msg ''type'') (JStr ''NOT_ACTIVE'') then False else a)"

text \<open>\<open>useDefaultPopup\<close>\<close>

definition on_leetcode :: "jv \<Rightarrow> bool" where
  "on_leetcode url = str_includes (to_str (js_coalesce url (JStr []))) ''leetcode.com''"

text \<open>\<open>useIsScrolled\<close> and \<open>useIsOverflowed\<close>: the flags of the two axes.\<close>

definition scrolled :: "rat \<times> rat \<Rightarrow> bool \<times> bool" where
  "scrolled pos = (0 < fst pos, 0 < snd pos)"

definition overflowed :: "rat \<times> rat \<Rightarrow> rat \<times> rat \<Rightarrow> bool \<times> bool" where
  "overflowed scroll client = (fst client < fst scroll, snd client < snd scroll)"

text \<open>
  The callback reference of the tab bar: it removes the wheel and scroll listeners of the element before and adds
  them to the new one. \<open>Some n\<close> is the element \<open>n\<close>, \<open>None\<close> the call when the element goes away.
\<close>

record tab_bar =
  bar_element :: "nat option"
  bar_wheel :: "nat list"
  bar_scroll :: "nat list"
  bar_cleanup :: "nat option"

definition scroll_ref :: "nat option \<Rightarrow> tab_bar \<Rightarrow> tab_bar" where
  "scroll_ref node b =
     (let s1 = (case bar_element b of None \<Rightarrow> bar_scroll b | Some n \<Rightarrow> removeAll n (bar_scroll b)) in
      b\<lparr>bar_element := node, bar_scroll := (case node of None \<Rightarrow> s1 | Some n \<Rightarrow> s1 @ [n])\<rparr>)"

definition combinedRef :: "nat option \<Rightarrow> tab_bar \<Rightarrow> tab_bar" where
  "combinedRef node b =
     (let b1 = b\<lparr>bar_wheel := (case bar_cleanup b of None \<Rightarrow> bar_wheel b | Some n \<Rightarrow> removeAll n (bar_wheel b)), bar_cleanup := None\<rparr>;
          b2 = scroll_ref node b1 in
      case node of None \<Rightarrow> b2 | Some n \<Rightarrow> b2\<lparr>bar_wheel := bar_wheel b2 @ [n], bar_cleanup := Some n\<rparr>)"

text \<open>The wheel handler: how far the bar scrolls sideways, and whether the page's own scrolling is stopped.\<close>

definition wheel_scroll :: "rat \<Rightarrow> rat \<Rightarrow> rat option" where
  "wheel_scroll deltaX deltaY =
     (let delta = (if \<bar>deltaX\<bar> > \<bar>deltaY\<bar> then deltaX else deltaY) in if delta \<noteq> 0 then Some delta else None)"

section \<open>The theme of the panel follows the page\<close>

lemma applyTheme_twice [simp]: "applyTheme a (applyTheme b cs) = applyTheme a cs"
  by (simp add: applyTheme_def)

lemma theme_message_update [simp]: "theme_message (theme_update theme) cs = applyTheme theme cs"
  by (simp add: theme_message_def theme_update_def opt_get_def obj_lookup_def)

lemma both_themes_step:
  assumes "theme_inv (theme_step e t)"
  shows "both_themes e (t, applyTheme v cs) = (theme_step e t, applyTheme (effective_theme (theme_step e t)) cs)"
proof -
  have "\<exists>v'. theme_stored c (applyTheme v cs) = applyTheme v' cs" for c
    by (auto simp: theme_stored_def Let_def)
  then obtain f where f: "theme_stored c (applyTheme v cs) = applyTheme (f c) cs" for c by metis
  then show ?thesis using assms by (cases e) (simp_all add: both_themes_def Let_def theme_inv_def)
qed

lemma both_themes_run:
  "theme_inv t \<Longrightarrow> run both_themes es (t, applyTheme (effective_theme t) cs) =
     (run theme_step es t, applyTheme (effective_theme (run theme_step es t)) cs)"
  by (induction es arbitrary: t) (simp_all add: both_themes_step theme_inv_step)


section \<open>What is visible has been read\<close>

lemma shell_frames [simp]:
  "w_room (ch_world (chat_panel f c)) = w_room (ch_world c)" "w_panel (ch_world (chat_panel f c)) = f (w_panel (ch_world c))"
  "w_room (ch_world (chat_room g c)) = g (w_room (ch_world c))" "w_panel (ch_world (chat_room g c)) = w_panel (ch_world c)"
  by (simp_all add: chat_panel_def chat_room_def)

definition unread :: "shell \<Rightarrow> nat" where
  "unread s = unreadCount (shell_room s)"

lemma shell_resize_frame [simp]:
  "shell_room (s\<lparr>sh_folded := b\<rparr>) = shell_room s" "shell_panel (s\<lparr>sh_folded := b\<rparr>) = shell_panel s"
  by (simp_all add: shell_room_def shell_panel_def)

definition shell_inv :: "shell \<Rightarrow> bool" where
  "shell_inv s \<longleftrightarrow> isFolded (shell_panel s) = sh_folded s \<and> (isChatVisible (sh_chat s) \<longrightarrow> unread s = 0)"

definition counts_through_chat :: "shell_event \<Rightarrow> bool" where
  "counts_through_chat e \<longleftrightarrow> e \<noteq> RoomActed AIncrementUnread"

lemma visible_iff: "isChatVisible (sh_chat s) \<longleftrightarrow> activeTab (shell_room s) = TabChat \<and> \<not> isFolded (shell_panel s)"
  by (simp add: isChatVisible_def shell_room_def shell_panel_def)

lemma unread_effect_simps [simp]:
  "sh_folded (unread_effect s) = sh_folded s" "shell_panel (unread_effect s) = shell_panel s"
  "activeTab (shell_room (unread_effect s)) = activeTab (shell_room s)"
  "unread (unread_effect s) = (if activeTab (shell_room s) = TabChat \<and> \<not> sh_folded s then 0 else unread s)"
  by (simp_all add: unread_effect_def shell_panel_def shell_room_def unread_def clearUnread_def)

lemma folded_effect_simps [simp]:
  "sh_folded (folded_effect s) = sh_folded s" "isFolded (shell_panel (folded_effect s)) = sh_folded s"
  "shell_room (folded_effect s) = shell_room s" "unread (folded_effect s) = unread s"
  by (simp_all add: folded_effect_def shell_panel_def shell_room_def unread_def setIsFolded_def)

lemma shell_inv_init: "shell_inv (shellInit c)"
  by (auto simp: shell_inv_def shellInit_def visible_iff)

text \<open>Whatever a commit starts from, it restores the invariant if it only changed the tab, the fold or the count.\<close>

lemma commit_inv:
  assumes "sh_folded s \<noteq> folded0 \<or> isFolded (shell_panel s) = sh_folded s"
    and "activeTab (shell_room s) = tab0 \<Longrightarrow> sh_folded s = folded0 \<Longrightarrow> isChatVisible (sh_chat s) \<Longrightarrow> unread s = 0"
  shows "shell_inv (commit tab0 folded0 s)"
  using assms by (auto simp: commit_def Let_def shell_inv_def visible_iff)

lemma room_step_unread:
  "a \<noteq> AIncrementUnread \<Longrightarrow> unreadCount (room_step a r) = unreadCount r \<or> unreadCount (room_step a r) = 0"
  by (cases a) (simp_all add: setIsInRoom_def setRoomId_def setIsConnected_def setIsAdmin_def setAdminId_def setRoomCode_def
      setParticipants_def setActiveTab_def setIsRoundStarted_def setHasRoundEnded_def setRoundEndTime_def setRoundDuration_def
      setLastGameEvent_def setRoomNotice_def setProblems_def setLastParticipantJoinTime_def clearUnread_def initRoom_def
      resetRoom_def roomStoreInit_def)

lemma shell_inv_step:
  assumes "counts_through_chat e" "shell_inv s"
  shows "shell_inv (shell_step e s)"
  unfolding shell_step_def
proof (rule commit_inv)
  show "sh_folded (shell_raw e s) \<noteq> sh_folded s \<or> isFolded (shell_panel (shell_raw e s)) = sh_folded (shell_raw e s)"
    using assms(2) by (cases e) (auto simp: shell_inv_def shell_panel_def count_unread_def setIsPanelHovered_def)
next
  assume a: "activeTab (shell_room (shell_raw e s)) = activeTab (shell_room s)" "sh_folded (shell_raw e s) = sh_folded s"
    "isChatVisible (sh_chat (shell_raw e s))"
  show "unread (shell_raw e s) = 0"
  proof (cases e)
    case (RoomActed act)
    then have "isChatVisible (sh_chat s)" using a by (simp add: isChatVisible_def shell_room_def)
    then have "unread s = 0" using assms(2) by (simp add: shell_inv_def)
    then show ?thesis using room_step_unread [of act "w_room (ch_world (sh_chat s))"] assms(1) RoomActed
      by (auto simp: unread_def shell_room_def counts_through_chat_def)
  next
    case (MessageArrived me handle)
    have "isChatVisible (count_unread me handle (sh_chat s)) = isChatVisible (sh_chat s)"
      by (simp add: count_unread_def isChatVisible_def incrementUnread_def)
    then show ?thesis using a assms(2) MessageArrived by (simp add: count_unread_def shell_inv_def unread_def shell_room_def)
  qed (use a assms(2) in \<open>auto simp: shell_inv_def isChatVisible_def unread_def shell_room_def shell_panel_def setIsPanelHovered_def\<close>)
qed

interpretation shell: guarded_machine counts_through_chat shell_step shell_inv
  by unfold_locales (rule shell_inv_step)

lemma shell_resized:
  "sh_folded (shell_step (PanelResized w) s) = folded_at w"
  "activeTab (shell_room (shell_step (PanelResized w) s)) = activeTab (shell_room s)"
  by (simp_all add: shell_step_def commit_def Let_def)

lemma shell_tab_chosen: "activeTab (shell_room (shell_step (RoomActed (ASetActiveTab tab)) s)) = tab"
proof -
  have "activeTab (shell_room (s\<lparr>sh_chat := chat_room (setActiveTab t) (sh_chat s)\<rparr>)) = t" for t
    by (simp add: shell_room_def setActiveTab_def)
  then show ?thesis by (auto simp: shell_step_def commit_def Let_def)
qed

text \<open>
  C15: what is visible has been read: however the panel is resized, tabs are chosen and messages arrive, while
  the chat is open in an unfolded panel no message counts as unread, and the folded state that the chat and the
  sounds consult is that of the last size reported.
\<close>

theorem visible_chat_is_read:
  fixes c es
  assumes "\<forall>e\<in>set es. counts_through_chat e"
  defines "s \<equiv> run shell_step es (shellInit c)"
  shows "isFolded (shell_panel s) = sh_folded s \<and> (unread s = 0 \<or> activeTab (shell_room s) \<noteq> TabChat \<or> sh_folded s)"
proof -
  have "shell_inv s" unfolding s_def by (rule shell.inv_run_guarded [OF assms(1) shell_inv_init])
  then show ?thesis by (auto simp: shell_inv_def visible_iff)
qed

theorem visible_chat_is_read_witness:
  "\<forall>c. unread (run shell_step [MessageArrived (JStr ''me'') (JStr ''you''), RoomActed (ASetActiveTab TabChat)] (shellInit c)) = 0"
proof
  fix c
  let ?es = "[MessageArrived (JStr ''me'') (JStr ''you''), RoomActed (ASetActiveTab TabChat)]"
  have "\<forall>e\<in>set ?es. counts_through_chat e" by (simp add: counts_through_chat_def)
  note ok = visible_chat_is_read [OF this, of c]
  have tab: "activeTab (shell_room (shell_step (RoomActed (ASetActiveTab tab)) s)) = tab" for tab s
    by (rule shell_tab_chosen)
  have "\<not> sh_folded (shell_step (RoomActed a) (shell_step (MessageArrived x y) (shellInit c)))" for a x y
    by (simp add: shell_step_def commit_def Let_def shellInit_def)
  with ok show "unread (run shell_step ?es (shellInit c)) = 0" by (simp add: tab del: Stores.room_step.simps)
qed

section \<open>The sidebar opens the chat\<close>

lemma unfold_wide: "120 < vp_width v \<Longrightarrow> 120 < px_of (pn_width (unfold_panel v p))"
  by (auto simp: unfold_panel_def Let_def requestWidth_def setPanelWidth_def store_panel_def applyPanelWidth_def applied_width_def
      COLLAPSE_WIDTH_def MIN_EXPAND_WIDTH_def MIN_PANEL_WIDTH_def max_def min_def)

text \<open>
  C32: a tab of the sidebar opens it: in a window wider than the collapse width, the content script unfolds the
  panel, the panel notices, and the chosen tab is shown; for the chat no message is unread any more and the
  badge is gone.
\<close>

theorem sidebar_opens_tab:
  fixes v p s tab tid
  assumes "120 < vp_width v" "truthy tid" "shell_inv s"
  defines "r \<equiv> selectTabAndUnfold tab tid ((v, p), s)"
  shows "\<not> sh_folded (snd r) \<and> 36 < px_of (pn_width (snd (fst r))) \<and> activeTab (shell_room (snd r)) = tab \<and>
    (tab \<noteq> TabChat \<or> isChatVisible (sh_chat (snd r)) \<and> unread_badge (unread (snd r)) = None)"
proof -
  let ?s1 = "shell_step (RoomActed (ASetActiveTab tab)) s"
  let ?q = "unfold_panel v p"
  let ?s2 = "shell_step (PanelResized (px_of (pn_width ?q))) ?s1"
  have r: "r = ((v, ?q), ?s2)"
    using assms(2) by (simp add: r_def selectTabAndUnfold_def messageScript_def layout_message_def opt_get_def obj_lookup_def Let_def)
  have w: "120 < px_of (pn_width ?q)" by (rule unfold_wide [OF assms(1)])
  then have f: "\<not> sh_folded ?s2" by (simp add: shell_resized folded_at_def)
  have i: "shell_inv ?s2" by (intro shell_inv_step assms(3)) (simp_all add: counts_through_chat_def)
  moreover have t: "activeTab (shell_room ?s2) = tab" by (simp add: shell_resized shell_tab_chosen)
  ultimately have "tab = TabChat \<Longrightarrow> isChatVisible (sh_chat ?s2) \<and> unread ?s2 = 0"
    using f by (simp add: shell_inv_def visible_iff)
  then show ?thesis using r w f t by (auto simp: unread_badge_def)
qed

theorem sidebar_opens_tab_witness:
  "\<forall>c. isChatVisible (sh_chat (snd (selectTabAndUnfold TabChat (JNum 7)
     ((demo_view, fold_panel demo_view (createPanel no_settings demo_view)), shellInit c))))"
proof
  fix c
  have "120 < vp_width demo_view" "truthy (JNum 7)" by (simp_all add: demo_view_def)
  then show "isChatVisible (sh_chat (snd (selectTabAndUnfold TabChat (JNum 7)
     ((demo_view, fold_panel demo_view (createPanel no_settings demo_view)), shellInit c))))"
    using sidebar_opens_tab [of demo_view "JNum 7" "shellInit c" TabChat] shell_inv_init by blast
qed

section \<open>The listeners of the tab bar\<close>

definition the_one :: "'a option \<Rightarrow> 'a list" where
  "the_one x = (case x of None \<Rightarrow> [] | Some a \<Rightarrow> [a])"

definition bar_inv :: "tab_bar \<Rightarrow> bool" where
  "bar_inv b \<longleftrightarrow> bar_cleanup b = bar_element b \<and> bar_wheel b = the_one (bar_element b) \<and>
     bar_scroll b = the_one (bar_element b)"

lemma bar_one_listener:
  "bar_inv (run combinedRef nodes \<lparr>bar_element = None, bar_wheel = [], bar_scroll = [], bar_cleanup = None\<rparr>)"
proof -
  have "bar_inv b \<Longrightarrow> bar_inv (combinedRef node b)" for node b
    by (auto simp: bar_inv_def combinedRef_def scroll_ref_def the_one_def Let_def split: option.splits)
  then have "bar_inv b \<Longrightarrow> bar_inv (run combinedRef nodes b)" for b
    by (induction nodes arbitrary: b) simp_all
  then show ?thesis by (simp add: bar_inv_def the_one_def)
qed

text \<open>The panel's own view of the maximised state follows what the content script stores.\<close>

lemma maximized_follows:
  "maximized_changed (JObj [(''isPanelMaximized'', JObj [(''newValue'', JBool b)])]) m = b"
  by (simp add: maximized_changed_def opt_get_def obj_lookup_def)

end
