(* ===== verification/Server_World.thy ===== *)
theory Server_World
  imports World
begin

text \<open>
  The ground of the gateway under \<open>src/server/\<close>: the requests that its handlers get from Express, the
  responses they give, and the state they run on. What is not the gateway's own code is a parameter: the
  node-redis client (its operations on a store of any type), the services it calls with \<open>fetch\<close>
  (a function of the requests sent so far), and the outcomes that Passport and the session store report.
  A handler is a script in the sense of \<open>World\<close>, so that an awaited call may reject and a
  \<open>catch\<close> sees it. Logging has no effect on any of it and is left out.
\<close>

section \<open>Requests and responses\<close>

text \<open>What a handler reads of \<open>req\<close>; \<open>user\<close> and \<open>account\<close> are set by Passport.\<close>

record server_request =
  sr_method :: string
  sr_path :: string
  sr_headers :: "(string \<times> jv) list"
  sr_ip :: jv
  sr_authenticated :: bool
  sr_user :: jv
  sr_account :: jv
  sr_id :: string
  sr_query :: "(string \<times> jv) list"
  sr_body :: jv

datatype reply = JsonReply jv | TextReply string | RedirectTo string

record response =
  rp_status :: nat
  rp_headers :: "(string \<times> jv) list"
  rp_reply :: reply

text \<open>\<open>res.status(n).json(data)\<close>, \<open>res.json(data)\<close>, \<open>res.status(n).send(text)\<close>, \<open>res.redirect(url)\<close>\<close>

definition status_json :: "nat \<Rightarrow> jv \<Rightarrow> response" where
  "status_json n v = \<lparr>rp_status = n, rp_headers = [], rp_reply = JsonReply v\<rparr>"

definition send_json :: "jv \<Rightarrow> response" where
  "send_json v = status_json 200 v"

definition status_send :: "nat \<Rightarrow> string \<Rightarrow> response" where
  "status_send n t = \<lparr>rp_status = n, rp_headers = [], rp_reply = TextReply t\<rparr>"

definition redirect :: "string \<Rightarrow> response" where
  "redirect url = \<lparr>rp_status = 302, rp_headers = [], rp_reply = RedirectTo url\<rparr>"

definition error_json :: "nat \<Rightarrow> string \<Rightarrow> response" where
  "error_json n msg = status_json n (JObj [(''error'', JStr msg)])"

section \<open>What the gateway calls\<close>

text \<open>The operations of the node-redis client that the gateway uses; each may reject.\<close>

record 'r redis_client =
  rc_incr :: "string \<Rightarrow> ('r, int) js"
  rc_decr :: "string \<Rightarrow> ('r, int) js"
  rc_expire :: "string \<Rightarrow> int \<Rightarrow> ('r, unit) js"
  rc_get :: "string \<Rightarrow> ('r, string option) js"
  rc_set :: "string \<Rightarrow> string \<Rightarrow> ('r, unit) js"
  rc_del :: "string \<Rightarrow> ('r, unit) js"

record outgoing =
  og_method :: string
  og_url :: string
  og_headers :: "(string \<times> string) list"
  og_body :: "string option"

text \<open>A response with its status and the text of its body, or a rejected \<open>fetch\<close>.\<close>

datatype answer = Rejected jv | Answer nat string

text \<open>Work that is started without \<open>await\<close>.\<close>

datatype job =
    PushSolution jv jv jv jv
  | SyncUser jv string
  | RevokeOrphan jv

datatype session_event = LoggedOut | SessionDestroyed | CookieCleared string

record 'r server =
  sv_client :: "'r redis_client"
  sv_redis :: 'r
  sv_now :: int
  sv_fetch :: "outgoing list \<Rightarrow> outgoing \<Rightarrow> answer"
  sv_sent :: "outgoing list"
  sv_central :: string
  sv_secret :: jv
  sv_githubId :: jv
  sv_githubSecret :: jv
  sv_jobs :: "job list"
  sv_logoutError :: jv
  sv_destroyError :: jv
  sv_session :: "session_event list"

text \<open>\<open>process.env.CENTRAL_SERVICE_URL || 'http://central-service:5000'\<close>\<close>

definition centralServiceUrl :: "jv \<Rightarrow> string" where
  "centralServiceUrl env = to_str (js_or env (JStr ''http://central-service:5000''))"

definition redis :: "('r redis_client \<Rightarrow> ('r, 'a) js) \<Rightarrow> ('r server, 'a) js" where
  "redis f s = (case f (sv_client s) (sv_redis s) of (r, d) \<Rightarrow> (r, s\<lparr>sv_redis := d\<rparr>))"

definition fetch_out :: "outgoing \<Rightarrow> ('r server, nat \<times> string) js" where
  "fetch_out q s =
     (let s' = s\<lparr>sv_sent := sv_sent s @ [q]\<rparr> in
      case sv_fetch s (sv_sent s) q of
        Rejected e \<Rightarrow> (Inl e, s')
      | Answer st body \<Rightarrow> (Inr (st, body), s'))"

definition out_ok :: "nat \<times> string \<Rightarrow> bool" where
  "out_ok r = (200 \<le> fst r \<and> fst r \<le> 299)"

text \<open>\<open>await response.json()\<close>\<close>

definition out_json :: "nat \<times> string \<Rightarrow> ('w, jv) js" where
  "out_json r = (case json_parse (snd r) of None \<Rightarrow> throw syntax_error | Some v \<Rightarrow> ret v)"

definition spawn :: "job \<Rightarrow> ('r server, unit) js" where
  "spawn j = modify (\<lambda>s. s\<lparr>sv_jobs := sv_jobs s @ [j]\<rparr>)"

definition session_do :: "session_event \<Rightarrow> ('r server, unit) js" where
  "session_do e = modify (\<lambda>s. s\<lparr>sv_session := sv_session s @ [e]\<rparr>)"

text \<open>\<open>JSON.stringify(v)\<close> as the body of a request: no body for \<open>undefined\<close>.\<close>

definition json_body :: "jv \<Rightarrow> string option" where
  "json_body v = json_value v"

section \<open>How they act\<close>

lemma fetch_out_Answer: "sv_fetch s (sv_sent s) q = Answer st b \<Longrightarrow>
    fetch_out q s = (Inr (st, b), s\<lparr>sv_sent := sv_sent s @ [q]\<rparr>)"
  by (simp add: fetch_out_def)

lemma fetch_out_Rejected: "sv_fetch s (sv_sent s) q = Rejected e \<Longrightarrow>
    fetch_out q s = (Inl e, s\<lparr>sv_sent := sv_sent s @ [q]\<rparr>)"
  by (simp add: fetch_out_def)

lemma fetch_out_state: "snd (fetch_out q s) = s\<lparr>sv_sent := sv_sent s @ [q]\<rparr>"
  by (simp add: fetch_out_def Let_def split: answer.split)

lemma fetch_out_cases:
  obtains (rejected) e where "sv_fetch s (sv_sent s) q = Rejected e"
      "fetch_out q s = (Inl e, s\<lparr>sv_sent := sv_sent s @ [q]\<rparr>)"
  | (answered) st b where "sv_fetch s (sv_sent s) q = Answer st b"
      "fetch_out q s = (Inr (st, b), s\<lparr>sv_sent := sv_sent s @ [q]\<rparr>)"
  by (cases "sv_fetch s (sv_sent s) q") (auto simp: fetch_out_Answer fetch_out_Rejected)

lemma out_json_simps [simp]:
  "json_parse t = Some v \<Longrightarrow> out_json (n, t) = ret v"
  "json_parse t = None \<Longrightarrow> out_json (n, t) = throw syntax_error"
  by (simp_all add: out_json_def)

lemma out_json_act: "out_json r w = (case json_parse (snd r) of None \<Rightarrow> (Inl syntax_error, w) | Some v \<Rightarrow> (Inr v, w))"
  by (simp add: out_json_def split: option.split)

lemma redis_act: "f (sv_client s) (sv_redis s) = (r, d) \<Longrightarrow> redis f s = (r, s\<lparr>sv_redis := d\<rparr>)"
  by (simp add: redis_def)

lemma spawn_act [simp]: "spawn j s = (Inr (), s\<lparr>sv_jobs := sv_jobs s @ [j]\<rparr>)"
  "session_do e s = (Inr (), s\<lparr>sv_session := sv_session s @ [e]\<rparr>)"
  by (simp_all add: spawn_def session_do_def)

lemma seqm_spawn [simp]: "seqm (spawn j) n s = n (s\<lparr>sv_jobs := sv_jobs s @ [j]\<rparr>)"
  "seqm (session_do e) n s = n (s\<lparr>sv_session := sv_session s @ [e]\<rparr>)"
  by (simp_all add: seqm_def bnd_def)

lemma preserves_server [frame_intro]:
  "preserves sv_redis (fetch_out q)" "preserves sv_client (fetch_out q)" "preserves sv_client (redis f)"
  "preserves sv_sent (redis f)" "preserves sv_redis (spawn j)" "preserves sv_sent (spawn j)"
  "preserves sv_client (spawn j)" "preserves g (out_json r)"
  by (simp_all add: preserves_def fetch_out_def Let_def redis_def spawn_def out_json_def split: answer.split prod.split option.split)

text \<open>A Redis server for the witnesses: a map from keys to texts and the counters.\<close>

record demo_redis =
  dr_counts :: "string \<Rightarrow> int"
  dr_texts :: "string \<rightharpoonup> string"

definition demo_client :: "demo_redis redis_client" where
  "demo_client = \<lparr>
     rc_incr = (\<lambda>k d. (Inr (dr_counts d k + 1), d\<lparr>dr_counts := (dr_counts d)(k := dr_counts d k + 1)\<rparr>)),
     rc_decr = (\<lambda>k d. (Inr (dr_counts d k - 1), d\<lparr>dr_counts := (dr_counts d)(k := dr_counts d k - 1)\<rparr>)),
     rc_expire = (\<lambda>k n d. (Inr (), d)),
     rc_get = (\<lambda>k d. (Inr (dr_texts d k), d)),
     rc_set = (\<lambda>k v d. (Inr (), d\<lparr>dr_texts := (dr_texts d)(k \<mapsto> v)\<rparr>)),
     rc_del = (\<lambda>k d. (Inr (), d\<lparr>dr_counts := (dr_counts d)(k := 0), dr_texts := (dr_texts d)(k := None)\<rparr>))\<rparr>"

definition demo_server :: "(outgoing list \<Rightarrow> outgoing \<Rightarrow> answer) \<Rightarrow> demo_redis server" where
  "demo_server net = \<lparr>sv_client = demo_client, sv_redis = \<lparr>dr_counts = (\<lambda>_. 0), dr_texts = Map.empty\<rparr>, sv_now = 0,
     sv_fetch = net, sv_sent = [], sv_central = centralServiceUrl JUndef, sv_secret = JStr ''s3cret'',
     sv_githubId = JStr ''gh'', sv_githubSecret = JStr ''ghs'', sv_jobs = [], sv_logoutError = JNull,
     sv_destroyError = JNull, sv_session = []\<rparr>"

definition demo_request :: "string \<Rightarrow> jv \<Rightarrow> server_request" where
  "demo_request path user = \<lparr>sr_method = ''POST'', sr_path = path, sr_headers = [], sr_ip = JStr ''1.2.3.4'',
     sr_authenticated = truthy user, sr_user = user, sr_account = JUndef, sr_id = ''room1'', sr_query = [],
     sr_body = JUndef\<rparr>"

end
