(* ===== verification/Gateway.thy ===== *)
theory Gateway
  imports Server_World Form_Encoding
begin

text \<open>
  The routes of the gateway that forward a request to the central service
  (\<open>src/server/src/routes/rooms.js\<close>, \<open>problems.js\<close>, \<open>statistics.js\<close>), the authentication check in
  front of them, and the checks on requests in \<open>middleware/logging.js\<close>. Which route a path belongs to is
  decided by Express and not modelled; a handler gets the request with its path parameters.
\<close>

section \<open>Authentication and forwarding\<close>

definition ensureAuth ::
  "(server_request \<Rightarrow> ('r server, response) js) \<Rightarrow> server_request \<Rightarrow> ('r server, response) js" where
  "ensureAuth handler req =
     (if \<not> sr_authenticated req \<or> \<not> truthy (sr_user req) then ret (error_json 401 ''Not authenticated'')
      else handler req)"

definition auth_id :: "server_request \<Rightarrow> jv" where
  "auth_id req = opt_get (sr_user req) ''id''"

definition secret_headers :: "'r server \<Rightarrow> jv \<Rightarrow> (string \<times> string) list" where
  "secret_headers s authID = [(''X-Server-Secret'', to_str (sv_secret s)), (''X-User-Auth-ID'', to_str authID)]"

definition json_type :: "(string \<times> string) list" where
  "json_type = [(''Content-Type'', ''application/json'')]"

definition central_fetch ::
  "string \<Rightarrow> string \<Rightarrow> (string \<times> string) list \<Rightarrow> string option \<Rightarrow> jv \<Rightarrow> ('r server, nat \<times> string) js" where
  "central_fetch verb path extra body authID =
     bnd (asks (\<lambda>s. \<lparr>og_method = verb, og_url = sv_central s @ path, og_headers = extra @ secret_headers s authID,
        og_body = body\<rparr>)) fetch_out"

text \<open>\<open>try { ... res.status(response.status).json(await response.json()) } catch { 500 }\<close>\<close>

definition forward :: "string \<Rightarrow> ('r server, nat \<times> string) js \<Rightarrow> ('r server, response) js" where
  "forward msg call =
     catch (bnd call (\<lambda>r. bnd (out_json r) (\<lambda>data. ret (status_json (fst r) data))))
       (\<lambda>e. ret (error_json 500 msg))"

definition internal_error :: string where
  "internal_error = ''Internal server error''"

definition room_api :: "server_request \<Rightarrow> string \<Rightarrow> string" where
  "room_api req tail = ''/api/rooms/'' @ sr_id req @ tail"

section \<open>Rooms\<close>

definition post_room :: "server_request \<Rightarrow> ('r server, response) js" where
  "post_room = ensureAuth (\<lambda>req. forward internal_error
     (central_fetch ''POST'' ''/api/rooms/'' json_type (json_body (sr_body req)) (auth_id req)))"

definition get_participants :: "server_request \<Rightarrow> ('r server, response) js" where
  "get_participants = ensureAuth (\<lambda>req. forward internal_error
     (central_fetch ''GET'' (room_api req ''/participants'') [] None (auth_id req)))"

definition post_round_create :: "server_request \<Rightarrow> ('r server, response) js" where
  "post_round_create = ensureAuth (\<lambda>req. forward internal_error
     (central_fetch ''POST'' (room_api req ''/rounds/create'') json_type (json_body (sr_body req)) (auth_id req)))"

definition post_round_time :: "server_request \<Rightarrow> ('r server, response) js" where
  "post_round_time = ensureAuth (\<lambda>req. forward internal_error
     (central_fetch ''POST'' (room_api req ''/rounds/time'') json_type (json_body (sr_body req)) (auth_id req)))"

definition post_start :: "server_request \<Rightarrow> ('r server, response) js" where
  "post_start = ensureAuth (\<lambda>req. forward internal_error
     (central_fetch ''POST'' (room_api req ''/start'') [] None (auth_id req)))"

definition post_join :: "server_request \<Rightarrow> ('r server, response) js" where
  "post_join = ensureAuth (\<lambda>req. forward internal_error
     (central_fetch ''POST'' (room_api req ''/join'') [] None (auth_id req)))"

definition get_active :: "server_request \<Rightarrow> ('r server, response) js" where
  "get_active = ensureAuth (\<lambda>req. forward internal_error
     (central_fetch ''GET'' ''/api/rooms/active'' [] None (auth_id req)))"

definition get_room :: "server_request \<Rightarrow> ('r server, response) js" where
  "get_room = ensureAuth (\<lambda>req. forward internal_error
     (central_fetch ''GET'' (room_api req []) [] None (auth_id req)))"

definition post_leave :: "server_request \<Rightarrow> ('r server, response) js" where
  "post_leave = ensureAuth (\<lambda>req. forward internal_error
     (central_fetch ''POST'' (room_api req ''/leave'') [] None (auth_id req)))"

definition post_end :: "server_request \<Rightarrow> ('r server, response) js" where
  "post_end = ensureAuth (\<lambda>req. forward internal_error
     (central_fetch ''POST'' (room_api req ''/end'') [] None (auth_id req)))"

definition get_leaderboard :: "server_request \<Rightarrow> ('r server, response) js" where
  "get_leaderboard = ensureAuth (\<lambda>req. forward internal_error
     (central_fetch ''GET'' (room_api req ''/leaderboard'') [] None (auth_id req)))"

definition get_round_details :: "server_request \<Rightarrow> ('r server, response) js" where
  "get_round_details = ensureAuth (\<lambda>req. forward internal_error
     (central_fetch ''GET'' (room_api req ''/round-details'') [] None (auth_id req)))"

section \<open>Problems and statistics\<close>

definition get_tags :: "server_request \<Rightarrow> ('r server, response) js" where
  "get_tags = ensureAuth (\<lambda>req. forward internal_error
     (central_fetch ''GET'' ''/api/problems/tags'' [] None (auth_id req)))"

definition get_companies :: "server_request \<Rightarrow> ('r server, response) js" where
  "get_companies = ensureAuth (\<lambda>req. forward internal_error
     (central_fetch ''GET'' ''/api/problems/companies'' [] None (auth_id req)))"

definition get_list :: "server_request \<Rightarrow> ('r server, response) js" where
  "get_list = ensureAuth (\<lambda>req. forward internal_error
     (central_fetch ''GET'' ''/api/problems/list'' [] None (auth_id req)))"

definition COUNT_FILTERS :: "string list" where
  "COUNT_FILTERS = [''tags'', ''companies'', ''blind75'', ''neetcode150'', ''recentlyAsked'', ''difficulties'', ''excludePaid'']"

definition count_query :: "(string \<times> jv) list \<Rightarrow> (string \<times> string) list" where
  "count_query query =
     map (\<lambda>k. (k, to_str (obj_lookup query k))) (filter (\<lambda>k. truthy (obj_lookup query k)) COUNT_FILTERS)"

definition get_count :: "server_request \<Rightarrow> ('r server, response) js" where
  "get_count = ensureAuth (\<lambda>req. forward internal_error
     (central_fetch ''GET'' (''/api/problems/count?'' @ params_string (count_query (sr_query req))) [] None (auth_id req)))"

text \<open>\<open>statistics.js\<close> keeps the status of a failure and answers a success with status 200.\<close>

definition get_statistics :: "server_request \<Rightarrow> ('r server, response) js" where
  "get_statistics = ensureAuth (\<lambda>req. catch
     (bnd (central_fetch ''GET'' (''/api/statistics/'' @ sr_id req) json_type None (auth_id req)) (\<lambda>r.
        if \<not> out_ok r then bnd (out_json r) (\<lambda>errorData. ret (status_json (fst r) errorData))
        else bnd (out_json r) (\<lambda>data. ret (send_json data))))
     (\<lambda>e. ret (error_json 500 ''Internal Server Error'')))"

datatype route = PostRoom | GetParticipants | PostRoundCreate | PostRoundTime | PostStart | PostJoin | GetActive
  | GetRoom | PostLeave | PostEnd | GetLeaderboard | GetRoundDetails | GetTags | GetCompanies | GetList | GetCount
  | GetStatistics

fun serve :: "route \<Rightarrow> server_request \<Rightarrow> ('r server, response) js" where
  "serve PostRoom = post_room"
| "serve GetParticipants = get_participants"
| "serve PostRoundCreate = post_round_create"
| "serve PostRoundTime = post_round_time"
| "serve PostStart = post_start"
| "serve PostJoin = post_join"
| "serve GetActive = get_active"
| "serve GetRoom = get_room"
| "serve PostLeave = post_leave"
| "serve PostEnd = post_end"
| "serve GetLeaderboard = get_leaderboard"
| "serve GetRoundDetails = get_round_details"
| "serve GetTags = get_tags"
| "serve GetCompanies = get_companies"
| "serve GetList = get_list"
| "serve GetCount = get_count"
| "serve GetStatistics = get_statistics"

section \<open>What a route does\<close>

text \<open>What a forwarded answer becomes.\<close>

definition relayed :: "string \<Rightarrow> answer \<Rightarrow> response" where
  "relayed msg ans =
     (case ans of
        Rejected e \<Rightarrow> error_json 500 msg
      | Answer st b \<Rightarrow> (case json_parse b of None \<Rightarrow> error_json 500 msg | Some v \<Rightarrow> status_json st v))"

definition central_request ::
  "'r server \<Rightarrow> string \<Rightarrow> string \<Rightarrow> (string \<times> string) list \<Rightarrow> string option \<Rightarrow> jv \<Rightarrow> outgoing" where
  "central_request s verb path extra body authID =
     \<lparr>og_method = verb, og_url = sv_central s @ path, og_headers = extra @ secret_headers s authID, og_body = body\<rparr>"

lemma central_fetch_act: "central_fetch verb path extra body a s = fetch_out (central_request s verb path extra body a) s"
  by (simp add: central_fetch_def central_request_def)

lemma forward_act:
  "forward msg (central_fetch verb path extra body a) s =
     (let q = central_request s verb path extra body a in
      (Inr (relayed msg (sv_fetch s (sv_sent s) q)), s\<lparr>sv_sent := sv_sent s @ [q]\<rparr>))"
  by (cases "sv_fetch s (sv_sent s) (central_request s verb path extra body a)")
     (auto simp: forward_def central_fetch_act fetch_out_def relayed_def catch_def bnd_def out_json_def Let_def
       split: option.split)

text \<open>The request that a route makes, and the answer of the statistics route.\<close>

definition speaks_for :: "'r server \<Rightarrow> server_request \<Rightarrow> outgoing \<Rightarrow> bool" where
  "speaks_for s req q \<longleftrightarrow>
     starts_with (og_url q) (sv_central s @ ''/api/'') \<and>
     map_of (og_headers q) ''X-User-Auth-ID'' = Some (to_str (auth_id req)) \<and>
     map_of (og_headers q) ''X-Server-Secret'' = Some (to_str (sv_secret s))"

lemma central_request_speaks:
  "extra = [] \<or> extra = json_type \<Longrightarrow> speaks_for s req (central_request s verb (''/api/'' @ p) extra body (auth_id req))"
  by (auto simp: speaks_for_def central_request_def secret_headers_def json_type_def starts_with_iff)

definition relays :: "route \<Rightarrow> answer \<Rightarrow> response" where
  "relays r ans =
     (if r = GetStatistics then
        (case ans of
           Rejected e \<Rightarrow> error_json 500 ''Internal Server Error''
         | Answer st b \<Rightarrow> (case json_parse b of None \<Rightarrow> error_json 500 ''Internal Server Error''
                         | Some v \<Rightarrow> status_json (if out_ok (st, b) then 200 else st) v))
      else relayed internal_error ans)"

lemma forward_statistics:
  "catch (bnd (fetch_out q) (\<lambda>r.
        if \<not> out_ok r then bnd (out_json r) (\<lambda>errorData. ret (status_json (fst r) errorData))
        else bnd (out_json r) (\<lambda>data. ret (send_json data))))
     (\<lambda>e. ret (error_json 500 ''Internal Server Error'')) s =
   (Inr (relays GetStatistics (sv_fetch s (sv_sent s) q)), s\<lparr>sv_sent := sv_sent s @ [q]\<rparr>)"
  by (rule fetch_out_cases [of s q])
     (auto simp: relays_def catch_def bnd_def out_json_def send_json_def split: option.split)

lemma central_fetch_script:
  "catch (bnd (central_fetch verb path extra body a) k) h s =
   catch (bnd (fetch_out (central_request s verb path extra body a)) k) h s"
  by (simp add: catch_def bnd_def central_fetch_act)

lemma statistics_act:
  fixes s :: "'r server"
  assumes "sr_authenticated req" "truthy (sr_user req)"
  defines "q \<equiv> central_request s ''GET'' (''/api/statistics/'' @ sr_id req) json_type None (auth_id req)"
  shows "get_statistics req s = (Inr (relays GetStatistics (sv_fetch s (sv_sent s) q)), s\<lparr>sv_sent := sv_sent s @ [q]\<rparr>)"
proof -
  have "\<not> (\<not> sr_authenticated req \<or> \<not> truthy (sr_user req))" using assms(1,2) by simp
  then show ?thesis
    by (simp only: get_statistics_def ensureAuth_def if_False central_fetch_script forward_statistics q_def)
qed

lemmas route_defs = post_room_def get_participants_def post_round_create_def post_round_time_def post_start_def
  post_join_def get_active_def get_room_def post_leave_def post_end_def get_leaderboard_def get_round_details_def
  get_tags_def get_companies_def get_list_def get_count_def

lemma serve_sends:
  assumes "sr_authenticated req" "truthy (sr_user req)"
  shows "\<exists>verb p extra body. (extra = [] \<or> extra = json_type) \<and>
    serve r req s = (let q = central_request s verb (''/api/'' @ p) extra body (auth_id req) in
      (Inr (relays r (sv_fetch s (sv_sent s) q)), s\<lparr>sv_sent := sv_sent s @ [q]\<rparr>))"
proof (cases "r = GetStatistics")
  case True
  with statistics_act [OF assms, of s] show ?thesis
    by (intro exI [of _ "''GET''"] exI [of _ "''statistics/'' @ sr_id req"] exI [of _ json_type] exI [of _ None])
       (simp add: Let_def)
next
  case False
  have go: "forward internal_error (central_fetch verb (''/api/'' @ p) extra body (auth_id req)) s =
      (let q = central_request s verb (''/api/'' @ p) extra body (auth_id req) in
      (Inr (relays r (sv_fetch s (sv_sent s) q)), s\<lparr>sv_sent := sv_sent s @ [q]\<rparr>))" for verb p extra body
    using False by (simp add: forward_act relays_def)
  from False have "\<exists>verb p extra body. (extra = [] \<or> extra = json_type) \<and>
      serve r req s = forward internal_error (central_fetch verb (''/api/'' @ p) extra body (auth_id req)) s"
    using assms by (cases r) (simp_all add: route_defs ensureAuth_def room_api_def, blast+)
  then show ?thesis using go by metis
qed

text \<open>
  C5: the gateway speaks for the session user only: without a session a route answers 401 and calls
  nobody; with one it makes exactly one request to the API of the central service, with the server's
  secret and the identity of the session user (nothing the client sends can change it), never throws, and
  passes the answer on or answers 500.
\<close>

theorem gateway_speaks_for_session:
  "if sr_authenticated req \<and> truthy (sr_user req)
   then (\<exists>q. serve r req s = (Inr (relays r (sv_fetch s (sv_sent s) q)), s\<lparr>sv_sent := sv_sent s @ [q]\<rparr>) \<and> speaks_for s req q)
   else serve r req s = (Inr (error_json 401 ''Not authenticated''), s)"
proof (cases "sr_authenticated req \<and> truthy (sr_user req)")
  case True
  with serve_sends [of req r s] obtain verb p extra body where
    e: "extra = [] \<or> extra = json_type" and
    s: "serve r req s = (let q = central_request s verb (''/api/'' @ p) extra body (auth_id req) in
      (Inr (relays r (sv_fetch s (sv_sent s) q)), s\<lparr>sv_sent := sv_sent s @ [q]\<rparr>))" by blast
  with True central_request_speaks [OF e, of s req verb p body] show ?thesis by (auto simp: Let_def)
next
  case False
  then show ?thesis by (cases r) (auto simp: route_defs get_statistics_def ensureAuth_def)
qed

end
