(* ===== verification/Submission.thy ===== *)
theory Submission
  imports Gateway
begin

text \<open>
  The submission route of the gateway (\<open>src/server/src/routes/submission.js\<close>) with what it calls in
  \<open>config/github.js\<close> and \<open>config/redis.js\<close>: an accepted solution is scored with the central service in
  four requests, and pushed to the user's repository in the background.
\<close>

section \<open>The repository on GitHub\<close>

text \<open>\<open>Buffer.from(bytes).toString('base64')\<close>\<close>

definition b64_char :: "nat \<Rightarrow> char" where
  "b64_char d =
     (if d < 26 then char_of (65 + d) else if d < 52 then char_of (71 + d)
      else if d < 62 then char_of (d - 4) else if d = 62 then CHR ''+'' else CHR ''/'')"

fun base64 :: "nat list \<Rightarrow> string" where
  "base64 [] = []"
| "base64 [a] = [b64_char (a div 4), b64_char (a mod 4 * 16), CHR ''='', CHR ''='']"
| "base64 [a, b] = [b64_char (a div 4), b64_char (a mod 4 * 16 + b div 16), b64_char (b mod 16 * 4), CHR ''='']"
| "base64 (a # b # c # r) =
     [b64_char (a div 4), b64_char (a mod 4 * 16 + b div 16), b64_char (b mod 16 * 4 + c div 64), b64_char (c mod 64)] @ base64 r"

text \<open>\<open>Buffer.from(text)\<close>: the UTF-8 bytes of a text; a value that is no text counts as a \<open>TypeError\<close>.\<close>

definition utf8_bytes :: "string \<Rightarrow> nat list" where
  "utf8_bytes t = concat (map utf8 t)"

definition buffer_base64 :: "jv \<Rightarrow> jv + string" where
  "buffer_base64 v = (case v of JStr t \<Rightarrow> Inr (base64 (utf8_bytes t)) | _ \<Rightarrow> Inl type_error)"

definition SUBMISSION_REPO :: string where
  "SUBMISSION_REPO = ''BSG-Submissions''"

definition githubHeaders :: "jv \<Rightarrow> (string \<times> string) list" where
  "githubHeaders accessToken =
     [(''Authorization'', ''Bearer '' @ to_str accessToken), (''Accept'', ''application/vnd.github+json''),
      (''Content-Type'', ''application/json'')]"

definition createSubmissionRepo :: "jv \<Rightarrow> ('r server, unit) js" where
  "createSubmissionRepo accessToken =
     bnd (fetch_out \<lparr>og_method = ''POST'', og_url = ''https://api.github.com/user/repos'', og_headers = githubHeaders accessToken,
            og_body = Some (json_stringify [(''name'', JStr SUBMISSION_REPO),
              (''description'', JStr ''Solutions submitted during BSG rounds'')])\<rparr>) (\<lambda>response.
       if \<not> out_ok response \<and> fst response \<noteq> 422
       then throw (mk_error ''Error'' (''Repo creation failed: '' @ show_int (int (fst response)) @ '' '' @ snd response))
       else ret ())"

definition file_url :: "jv \<Rightarrow> string \<Rightarrow> string" where
  "file_url owner path = ''https://api.github.com/repos/'' @ to_str owner @ ''/'' @ SUBMISSION_REPO @ ''/contents/'' @ path"

definition put_file :: "jv \<Rightarrow> string \<Rightarrow> string \<Rightarrow> string \<Rightarrow> jv \<Rightarrow> outgoing" where
  "put_file accessToken url message content sha =
     \<lparr>og_method = ''PUT'', og_url = url, og_headers = githubHeaders accessToken,
      og_body = Some (json_stringify [(''message'', JStr message), (''content'', JStr content), (''sha'', sha)])\<rparr>"

definition commitSolution :: "jv \<Rightarrow> jv \<Rightarrow> string \<Rightarrow> jv \<Rightarrow> string \<Rightarrow> ('r server, unit) js" where
  "commitSolution accessToken owner path code message =
     bnd (fetch_out \<lparr>og_method = ''GET'', og_url = file_url owner path, og_headers = githubHeaders accessToken, og_body = None\<rparr>) (\<lambda>existing.
     bnd (if out_ok existing then bnd (out_json existing) (\<lambda>f. lift (get f ''sha'')) else ret JUndef) (\<lambda>sha.
     bnd (lift (buffer_base64 code)) (\<lambda>content.
     bnd (fetch_out (put_file accessToken (file_url owner path) message content sha)) (\<lambda>response.
       if \<not> out_ok response
       then throw (mk_error ''Error'' (''Commit failed: '' @ show_int (int (fst response)) @ '' '' @ snd response))
       else ret ()))))"

section \<open>The link to the repository\<close>

definition repo_key :: "jv \<Rightarrow> string" where
  "repo_key uid = ''gh_repo:'' @ to_str uid"

definition getGithubRepoLink :: "jv \<Rightarrow> ('r server, jv) js" where
  "getGithubRepoLink uid = bnd (redis (\<lambda>c. rc_get c (repo_key uid))) (\<lambda>link.
     (case link of
        None \<Rightarrow> ret JNull
      | Some t \<Rightarrow> if t = [] then ret JNull
                 else (case json_parse t of None \<Rightarrow> throw syntax_error | Some v \<Rightarrow> ret v)))"

definition saveGithubRepoLink :: "jv \<Rightarrow> (string \<times> jv) list \<Rightarrow> ('r server, unit) js" where
  "saveGithubRepoLink uid link = redis (\<lambda>c. rc_set c (repo_key uid) (json_stringify link))"

definition extensions :: "(string \<times> string) list" where
  "extensions = [(''python3'', ''.py''), (''cpp'', ''.cpp''), (''python'', ''.py''), (''java'', ''.java''), (''c'', ''.c''),
     (''csharp'', ''.cs''), (''javascript'', ''.js''), (''typescript'', ''.ts''), (''php'', ''.php''), (''swift'', ''.swift''),
     (''kotlin'', ''.kt''), (''dart'', ''.dart''), (''golang'', ''.go''), (''ruby'', ''.rb''), (''scala'', ''.scala''),
     (''rust'', ''.rs''), (''racket'', ''.rkt''), (''erlang'', ''.erl''), (''elixir'', ''.ex''), (''mysql'', ''.sql''),
     (''mssql'', ''.sql''), (''oraclesql'', ''.sql''), (''postgresql'', ''.sql''), (''pythondata'', ''.py''), (''bash'', ''.sh'')]"

definition solutionPath :: "jv \<Rightarrow> jv \<Rightarrow> string" where
  "solutionPath slug language =
     ''submission/'' @ to_str slug @ ''/solution'' @
       (case map_of extensions (to_str language) of Some e \<Rightarrow> e | None \<Rightarrow> ''.txt'')"

definition pushToGithub :: "jv \<Rightarrow> jv \<Rightarrow> jv \<Rightarrow> jv \<Rightarrow> ('r server, unit) js" where
  "pushToGithub authID slug language code = bnd (getGithubRepoLink authID) (\<lambda>link.
     if \<not> truthy link then ret ()
     else bnd (lift (get link ''token'')) (\<lambda>token. bnd (lift (get link ''username'')) (\<lambda>username.
       commitSolution token username (solutionPath slug language) code (''Solved '' @ to_str slug))))"

section \<open>The route\<close>

definition active_request :: "'r server \<Rightarrow> jv \<Rightarrow> outgoing" where
  "active_request s authID = central_request s ''GET'' ''/api/rooms/active'' [] None authID"

definition lookup_request :: "'r server \<Rightarrow> jv \<Rightarrow> jv \<Rightarrow> outgoing" where
  "lookup_request s authID slug = central_request s ''GET'' (''/api/problems/lookup?slug='' @ to_str slug) [] None authID"

definition score_request :: "'r server \<Rightarrow> jv \<Rightarrow> jv \<Rightarrow> jv \<Rightarrow> jv \<Rightarrow> outgoing" where
  "score_request s authID roomID problemID body =
     \<lparr>og_method = ''POST'', og_url = sv_central s @ ''/api/rooms/'' @ to_str roomID @ ''/'' @ to_str problemID,
      og_headers = secret_headers s authID @ json_type,
      og_body = Some (json_stringify [(''code'', opt_get body ''code''), (''language'', opt_get body ''language''),
        (''runtime'', opt_get body ''runtime''), (''memory'', opt_get body ''memory''), (''verdict'', opt_get body ''status'')])\<rparr>"

definition stats_request :: "'r server \<Rightarrow> jv \<Rightarrow> jv \<Rightarrow> jv \<Rightarrow> jv \<Rightarrow> outgoing" where
  "stats_request s authID roomID runtime difficulty = central_request s ''POST'' (''/api/statistics/'' @ to_str roomID @ ''/update'') json_type
     (Some (json_stringify [(''runtime'', runtime), (''difficulty'', difficulty)])) authID"

text \<open>The part after the score has been accepted.\<close>

definition finish_submission :: "jv \<Rightarrow> jv \<Rightarrow> jv \<Rightarrow> jv \<Rightarrow> ('r server, response) js" where
  "finish_submission authID body roomID difficulty =
     seqm (spawn (PushSolution authID (opt_get body ''slug'') (opt_get body ''language'') (opt_get body ''code'')))
       (bnd (asks (\<lambda>s. stats_request s authID roomID (opt_get body ''runtime'') difficulty)) (\<lambda>q.
        bnd (fetch_out q) (\<lambda>statsRes.
          ret (send_json (JObj [(''success'', JBool True), (''message'', JStr ''Score submitted'')])))))"

definition score_solution :: "jv \<Rightarrow> jv \<Rightarrow> jv \<Rightarrow> ('r server, response) js" where
  "score_solution authID body roomID =
     bnd (asks (\<lambda>s. lookup_request s authID (opt_get body ''slug''))) (\<lambda>q1. bnd (fetch_out q1) (\<lambda>lookupRes.
       if \<not> out_ok lookupRes then ret (error_json 500 ''Problem lookup failed'')
       else bnd (out_json lookupRes) (\<lambda>problemData.
         bnd (lift (get problemData ''data'')) (\<lambda>d.
         let problemID = opt_get d ''id'' in
         if \<not> truthy problemID then ret (error_json 404 ''Problem not found'')
         else bnd (asks (\<lambda>s. score_request s authID roomID problemID body)) (\<lambda>q2. bnd (fetch_out q2) (\<lambda>submitRes.
           if \<not> out_ok submitRes then ret (error_json 500 ''Failed to submit score'')
           else finish_submission authID body roomID (opt_get d ''difficulty'')))))))"

definition submit_solution :: "server_request \<Rightarrow> ('r server, response) js" where
  "submit_solution req =
     (if \<not> sr_authenticated req \<or> \<not> truthy (sr_user req) then ret (error_json 401 ''Not authenticated'')
      else if is_nullish (sr_body req) then throw type_error
      else if \<not> strict_eq (opt_get (sr_body req) ''status'') (JStr ''Accepted'')
        then ret (send_json (JObj [(''message'', JStr ''Ignored non-accepted submission'')]))
      else let authID = auth_id req in
        catch
          (bnd (asks (\<lambda>s. active_request s authID)) (\<lambda>q. bnd (fetch_out q) (\<lambda>activeRoomRes.
             if \<not> out_ok activeRoomRes then ret (error_json 500 ''Failed to check active room'')
             else bnd (out_json activeRoomRes) (\<lambda>activeRoomData. bnd (lift (get activeRoomData ''roomID'')) (\<lambda>roomID.
               if \<not> truthy roomID then ret (send_json (JObj [(''message'', JStr ''No active room for user'')]))
               else score_solution authID (sr_body req) roomID)))))
          (\<lambda>error. ret (error_json 500 ''Internal server error'')))"

section \<open>What a submission does\<close>

definition scored :: response where
  "scored = send_json (JObj [(''success'', JBool True), (''message'', JStr ''Score submitted'')])"

definition push_job :: "jv \<Rightarrow> jv \<Rightarrow> job" where
  "push_job authID body = PushSolution authID (opt_get body ''slug'') (opt_get body ''language'') (opt_get body ''code'')"

text \<open>The requests do not depend on what has been sent or started before.\<close>

lemma requests_sent [simp]:
  "central_request (s\<lparr>sv_sent := q\<rparr>) verb p x b a = central_request s verb p x b a"
  "central_request (s\<lparr>sv_jobs := js\<rparr>) verb p x b a = central_request s verb p x b a"
  "score_request (s\<lparr>sv_sent := q\<rparr>) a r p' b' = score_request s a r p' b'"
  by (simp_all add: central_request_def score_request_def secret_headers_def)

lemma server_same [simp]: "s\<lparr>sv_jobs := sv_jobs s\<rparr> = s" "s\<lparr>sv_sent := sv_sent s\<rparr> = s"
  by simp_all

lemma finish_act:
  fixes s :: "'r server" and a r body d
  defines "q \<equiv> stats_request s a r (opt_get body ''runtime'') d"
  shows "finish_submission a body r d s =
    ((case sv_fetch s (sv_sent s) q of Rejected e \<Rightarrow> Inl e | Answer st b \<Rightarrow> Inr scored),
     s\<lparr>sv_jobs := sv_jobs s @ [push_job a body], sv_sent := sv_sent s @ [q]\<rparr>)"
  by (cases "sv_fetch s (sv_sent s) q")
     (auto simp: finish_submission_def q_def stats_request_def bnd_def fetch_out_def Let_def scored_def push_job_def)

text \<open>The last three requests, of which a prefix is sent.\<close>

definition score_chain :: "'r server \<Rightarrow> jv \<Rightarrow> jv \<Rightarrow> jv \<Rightarrow> jv \<Rightarrow> jv \<Rightarrow> outgoing list" where
  "score_chain s a body r p d =
     [lookup_request s a (opt_get body ''slug''), score_request s a r p body, stats_request s a r (opt_get body ''runtime'') d]"

definition answered_ok :: "'r server \<Rightarrow> outgoing list \<Rightarrow> outgoing \<Rightarrow> bool" where
  "answered_ok s before q = (case sv_fetch s before q of Answer st b \<Rightarrow> out_ok (st, b) | Rejected e \<Rightarrow> False)"

definition answered_at_all :: "'r server \<Rightarrow> outgoing list \<Rightarrow> outgoing \<Rightarrow> bool" where
  "answered_at_all s before q = (case sv_fetch s before q of Answer st b \<Rightarrow> True | Rejected e \<Rightarrow> False)"

text \<open>
  A run that sends the first \<open>n\<close> requests of a chain: the score is the last but one of them, the job is
  started and the success reported exactly as the answers say.
\<close>

definition chain_run :: "'r server \<Rightarrow> jv \<Rightarrow> jv \<Rightarrow> outgoing list \<Rightarrow> nat \<Rightarrow> (jv + response) \<times> 'r server \<Rightarrow> bool" where
  "chain_run s a body qs n res \<longleftrightarrow>
     (let m = length qs; before = (\<lambda>k. sv_sent s @ take k qs) in
      n \<le> m \<and>
      snd res = s\<lparr>sv_sent := before n, sv_jobs := sv_jobs s @ (if n = m then [push_job a body] else [])\<rparr> \<and>
      (n = m) = (n + 1 \<ge> m \<and> answered_ok s (before (m - 2)) (qs ! (m - 2))) \<and>
      (fst res = Inr scored) = (n = m \<and> answered_at_all s (before (m - 1)) (qs ! (m - 1))))"

lemma not_scored [simp]: "error_json n t \<noteq> scored" "send_json (JObj [(k, JStr t)]) \<noteq> scored"
  by (simp_all add: error_json_def scored_def send_json_def status_json_def)

lemma score_act: "\<exists>p d n. 0 < n \<and> chain_run s a body (score_chain s a body r p d) n (score_solution a body r s)"
proof (cases rule: fetch_out_cases [of s "lookup_request s a (opt_get body ''slug'')"])
  case (rejected e)
  then show ?thesis
    by (intro exI [of _ JUndef] exI [of _ 1])
       (simp add: chain_run_def score_chain_def score_solution_def bnd_def)
next
  case (answered st b)
  let ?q1 = "lookup_request s a (opt_get body ''slug'')"
  let ?s1 = "s\<lparr>sv_sent := sv_sent s @ [?q1]\<rparr>"
  have stop: ?thesis if "score_solution a body r s = (x, ?s1)" "x \<noteq> Inr scored" for x
    using that by (intro exI [of _ JUndef] exI [of _ 1]) (simp add: chain_run_def score_chain_def)
  show ?thesis
  proof (cases "out_ok (st, b)")
    case False
    then show ?thesis by (intro stop) (auto simp: score_solution_def bnd_def answered)
  next
    case True
    show ?thesis
    proof (cases "json_parse b")
      case None
      then show ?thesis using True by (intro stop) (auto simp: score_solution_def bnd_def answered)
    next
      case (Some v)
      show ?thesis
      proof (cases "get v ''data''")
        case (Inl e)
        then show ?thesis using True Some by (intro stop) (auto simp: score_solution_def bnd_def answered)
      next
        case (Inr d)
        let ?p = "opt_get d ''id''"
        show ?thesis
        proof (cases "truthy ?p")
          case False
          then show ?thesis using True Some Inr by (intro stop) (auto simp: score_solution_def bnd_def answered Let_def)
        next
          case p: True
          let ?q2 = "score_request s a r ?p body"
          have run: "score_solution a body r s = bnd (fetch_out ?q2) (\<lambda>submitRes.
              if \<not> out_ok submitRes then ret (error_json 500 ''Failed to submit score'')
              else finish_submission a body r (opt_get d ''difficulty'')) ?s1"
            using True Some Inr p by (simp add: score_solution_def bnd_def answered Let_def)
          show ?thesis
          proof (cases rule: fetch_out_cases [of ?s1 ?q2])
            case (rejected e)
            then show ?thesis unfolding run
              by (intro exI [of _ ?p] exI [of _ "opt_get d ''difficulty''"] exI [of _ 2])
                 (simp add: chain_run_def score_chain_def bnd_def answered_ok_def eval_nat_numeral)
          next
            case ans: (answered st' b')
            let ?s2 = "s\<lparr>sv_sent := sv_sent s @ [?q1, ?q2]\<rparr>"
            let ?q3 = "stats_request s a r (opt_get body ''runtime'') (opt_get d ''difficulty'')"
            show ?thesis
            proof (cases "out_ok (st', b')")
              case False
              then show ?thesis unfolding run using ans
                by (intro exI [of _ ?p] exI [of _ "opt_get d ''difficulty''"] exI [of _ 2])
                   (simp add: chain_run_def score_chain_def bnd_def answered_ok_def eval_nat_numeral)
            next
              case ok: True
              have q3: "stats_request ?s2 a r (opt_get body ''runtime'') (opt_get d ''difficulty'') = ?q3"
                by (simp add: stats_request_def)
              have "score_solution a body r s = finish_submission a body r (opt_get d ''difficulty'') ?s2"
                unfolding run using ans ok by (simp add: bnd_def)
              then show ?thesis using ans ok
                by (intro exI [of _ ?p] exI [of _ "opt_get d ''difficulty''"] exI [of _ 3])
                   (simp add: chain_run_def score_chain_def finish_act q3 answered_ok_def answered_at_all_def
                     eval_nat_numeral split: answer.split)
            qed
          qed
        qed
      qed
    qed
  qed
qed

lemma chain_run_more:
  assumes "chain_run (s\<lparr>sv_sent := sv_sent s @ [q]\<rparr>) a body [x, y, z] n (r, t)"
  shows "chain_run s a body [q, x, y, z] (Suc n) (r, t)"
  using assms by (auto simp: chain_run_def Let_def answered_ok_def answered_at_all_def numeral_nat)

lemma chain_run_caught:
  "chain_run s a body qs n (r, t) \<Longrightarrow>
   chain_run s a body qs n (case r of Inl e \<Rightarrow> (Inr (error_json 500 msg), t) | Inr x \<Rightarrow> (Inr x, t))"
  by (cases r) (auto simp: chain_run_def Let_def)

lemma score_chain_sent [simp]: "score_chain (s\<lparr>sv_sent := q\<rparr>) a body r p d = score_chain s a body r p d"
  by (simp add: score_chain_def lookup_request_def stats_request_def)

definition takes_solution :: "server_request \<Rightarrow> bool" where
  "takes_solution req \<longleftrightarrow> sr_authenticated req \<and> truthy (sr_user req) \<and> \<not> is_nullish (sr_body req) \<and>
     opt_get (sr_body req) ''status'' = JStr ''Accepted''"

text \<open>
  C4: a solution is scored in order and at most once: the route sends a prefix of four requests to the
  central service (active room, problem, score, statistics), none unless the user is signed in and the
  verdict is Accepted. The solution is handed to the background push exactly when the central service has
  accepted the score, and success is reported exactly when the statistics were answered after that,
  whatever they answered.
\<close>

theorem solution_scored_in_order:
  "\<exists>r p d n. (0 < n) = takes_solution req \<and>
     chain_run s (auth_id req) (sr_body req)
       (active_request s (auth_id req) # score_chain s (auth_id req) (sr_body req) r p d) n (submit_solution req s)"
proof (cases "takes_solution req")
  case False
  have "\<exists>x. submit_solution req s = (x, s) \<and> x \<noteq> Inr scored"
    using False by (auto simp: submit_solution_def takes_solution_def)
  then show ?thesis using False
    by (intro exI [of _ JUndef] exI [of _ 0]) (auto simp: chain_run_def score_chain_def)
next
  case True
  let ?a = "auth_id req" and ?b = "sr_body req"
  let ?q = "active_request s ?a"
  let ?s = "s\<lparr>sv_sent := sv_sent s @ [?q]\<rparr>"
  let ?h = "\<lambda>(r, t). case r of Inl e \<Rightarrow> (Inr (error_json 500 ''Internal server error''), t) | Inr x \<Rightarrow> (Inr x, t)"
  let ?body = "\<lambda>activeRoomRes. if \<not> out_ok activeRoomRes then ret (error_json 500 ''Failed to check active room'')
     else bnd (out_json activeRoomRes) (\<lambda>activeRoomData. bnd (lift (get activeRoomData ''roomID'')) (\<lambda>roomID.
       if \<not> truthy roomID then ret (send_json (JObj [(''message'', JStr ''No active room for user'')]))
       else score_solution ?a ?b roomID))"
  have run: "submit_solution req s = ?h (bnd (fetch_out ?q) ?body s)"
    using True by (auto simp: submit_solution_def takes_solution_def Let_def catch_def bnd_def split: prod.split sum.split)
  have stop: ?thesis if "bnd (fetch_out ?q) ?body s = (x, ?s)" "x \<noteq> Inr scored" for x
  proof -
    have "chain_run s ?a ?b (?q # score_chain s ?a ?b JUndef JUndef JUndef) 1 (x, ?s)"
      using that(2) by (simp add: chain_run_def score_chain_def)
    from chain_run_caught [OF this] True show ?thesis
      unfolding run that(1) by (intro exI [of _ JUndef] exI [of _ 1]) simp
  qed
  show ?thesis
  proof (cases rule: fetch_out_cases [of s ?q])
    case (rejected e)
    then show ?thesis by (intro stop) (auto simp: bnd_def)
  next
    case (answered st b)
    then have step: "bnd (fetch_out ?q) ?body s = ?body (st, b) ?s" by (simp add: bnd_def)
    show ?thesis
    proof (cases "out_ok (st, b) \<and> (\<exists>v r. json_parse b = Some v \<and> get v ''roomID'' = Inr r \<and> truthy r)")
      case False
      then have "\<exists>x. ?body (st, b) ?s = (x, ?s) \<and> x \<noteq> Inr scored"
        by (cases "json_parse b"; cases "get (the (json_parse b)) ''roomID''") (auto simp: bnd_def)
      then show ?thesis using stop step by metis
    next
      case ok: True
      then obtain v r where v: "json_parse b = Some v" "get v ''roomID'' = Inr r" "truthy r" by blast
      then have go: "?body (st, b) ?s = score_solution ?a ?b r ?s" using ok by simp
      obtain p d n where c: "chain_run ?s ?a ?b (score_chain s ?a ?b r p d) n (score_solution ?a ?b r ?s)"
        using score_act [of ?s ?a ?b r] by auto
      obtain x t where xt: "score_solution ?a ?b r ?s = (x, t)" by fastforce
      have "chain_run s ?a ?b (?q # score_chain s ?a ?b r p d) (Suc n) (x, t)"
        using c unfolding xt score_chain_def by (rule chain_run_more)
      from chain_run_caught [OF this] True show ?thesis
        unfolding run step go xt by (intro exI [of _ r] exI [of _ p] exI [of _ d] exI [of _ "Suc n"]) simp
    qed
  qed
qed

section \<open>What reaches GitHub\<close>

text \<open>The decoder of the base64 alphabet, as the reference for the encoding.\<close>

definition b64_val :: "char \<Rightarrow> nat" where
  "b64_val c = (let n = of_char c in
     if 65 \<le> n \<and> n \<le> 90 then n - 65 else if 97 \<le> n \<and> n \<le> 122 then n - 71
     else if 48 \<le> n \<and> n \<le> 57 then n + 4 else if n = 43 then 62 else 63)"

fun base64_decode :: "string \<Rightarrow> nat list" where
  "base64_decode (w # x # y # z # r) =
     (if y = CHR ''='' then [b64_val w * 4 + b64_val x div 16]
      else if z = CHR ''='' then [b64_val w * 4 + b64_val x div 16, b64_val x mod 16 * 16 + b64_val y div 4]
      else [b64_val w * 4 + b64_val x div 16, b64_val x mod 16 * 16 + b64_val y div 4, b64_val y mod 4 * 64 + b64_val z] @
        base64_decode r)"
| "base64_decode _ = []"

lemma b64_char: "d < 64 \<Longrightarrow> b64_val (b64_char d) = d" "d < 64 \<Longrightarrow> b64_char d \<noteq> CHR ''=''"
  by (auto simp: b64_val_def b64_char_def Let_def char_eq_code)

lemma split_byte:
  fixes a :: nat
  shows "a < 256 \<Longrightarrow> a div 4 < 64" "a mod 4 * 16 < 64" "a < 256 \<Longrightarrow> b < 256 \<Longrightarrow> a mod 4 * 16 + b div 16 < 64"
    "b mod 16 * 4 < 64" "b < 256 \<Longrightarrow> c < 256 \<Longrightarrow> b mod 16 * 4 + c div 64 < 64" "c mod 64 < (64 :: nat)"
proof -
  show "a < 256 \<Longrightarrow> a div 4 < 64" by linarith
  have a: "a mod 4 < 4" and b: "b mod 16 < 16" by simp_all
  from a show "a mod 4 * 16 < 64" by linarith
  from b show "b mod 16 * 4 < 64" by linarith
  show "c mod 64 < 64" by simp
  show "a < 256 \<Longrightarrow> b < 256 \<Longrightarrow> a mod 4 * 16 + b div 16 < 64" using a by linarith
  show "b < 256 \<Longrightarrow> c < 256 \<Longrightarrow> b mod 16 * 4 + c div 64 < 64" using b by linarith
qed

lemma split_digit:
  fixes d :: nat
  shows "d < k \<Longrightarrow> (m * k + d) div k = m" "d < k \<Longrightarrow> (m * k + d) mod k = d"
  by simp_all

lemma base64_round_trip: "list_all (\<lambda>b. b < 256) bs \<Longrightarrow> base64_decode (base64 bs) = bs"
proof (induction bs rule: base64.induct)
  case 1
  then show ?case by simp
next
  case (2 a)
  then show ?case using split_byte(1) [of a] split_byte(2) [of a] by (simp add: b64_char)
next
  case (3 a b)
  then have "a div 4 < 64" "a mod 4 * 16 + b div 16 < 64" "b mod 16 * 4 < 64" by (simp_all add: split_byte)
  moreover have "(a mod 4 * 16 + b div 16) div 16 = a mod 4" "(a mod 4 * 16 + b div 16) mod 16 = b div 16"
    using 3 split_digit [of "b div 16" 16 "a mod 4"] less_mult_imp_div_less [of b 16 16] by simp_all
  ultimately show ?case using 3 by (simp add: b64_char)
next
  case (4 a b c r)
  then have "a div 4 < 64" "a mod 4 * 16 + b div 16 < 64" "b mod 16 * 4 + c div 64 < 64" "c mod 64 < 64"
    by (simp_all add: split_byte)
  moreover have "(a mod 4 * 16 + b div 16) div 16 = a mod 4" "(a mod 4 * 16 + b div 16) mod 16 = b div 16"
    "(b mod 16 * 4 + c div 64) div 4 = b mod 16" "(b mod 16 * 4 + c div 64) mod 4 = c div 64"
    using 4 split_digit [of "b div 16" 16 "a mod 4"] split_digit [of "c div 64" 4 "b mod 16"]
      less_mult_imp_div_less [of b 16 16] less_mult_imp_div_less [of c 4 64] by simp_all
  ultimately show ?case using 4 by (simp add: b64_char)
qed

lemma utf8_bytes_small: "list_all (\<lambda>b. b < 256) (utf8_bytes t)"
proof -
  have "192 + (of_char c :: nat) div 64 < 256" "128 + (of_char c :: nat) mod 64 < 256" for c
    using nat_of_char_less_256 [of c] by linarith+
  then show ?thesis by (auto simp: utf8_bytes_def utf8_def list_all_iff Let_def split: if_splits)
qed

definition read_content :: "string \<Rightarrow> string" where
  "read_content t = utf8_decode (base64_decode t)"

lemma read_content_buffer: "buffer_base64 (JStr t) = Inr c \<Longrightarrow> read_content c = t"
  using base64_round_trip [OF utf8_bytes_small, of t]
  by (auto simp: buffer_base64_def read_content_def utf8_bytes_def utf8_decode_encode)

text \<open>What the lookup of the file says about its version.\<close>

definition file_sha :: "answer \<Rightarrow> jv + jv" where
  "file_sha ans =
     (case ans of
        Rejected e \<Rightarrow> Inl e
      | Answer st b \<Rightarrow>
          if \<not> out_ok (st, b) then Inr JUndef
          else (case json_parse b of None \<Rightarrow> Inl syntax_error | Some f \<Rightarrow> get f ''sha''))"

definition get_file :: "jv \<Rightarrow> string \<Rightarrow> outgoing" where
  "get_file token url = \<lparr>og_method = ''GET'', og_url = url, og_headers = githubHeaders token, og_body = None\<rparr>"

lemma lookup_sha:
  "bnd (fetch_out q) (\<lambda>existing. bnd (if out_ok existing then bnd (out_json existing) (\<lambda>f. lift (get f ''sha'')) else ret JUndef) k) s =
   (case file_sha (sv_fetch s (sv_sent s) q) of
      Inl e \<Rightarrow> (Inl e, s\<lparr>sv_sent := sv_sent s @ [q]\<rparr>)
    | Inr sha \<Rightarrow> k sha (s\<lparr>sv_sent := sv_sent s @ [q]\<rparr>))"
  by (rule fetch_out_cases [of s q])
     (auto simp: file_sha_def bnd_def out_json_def lift_def split: option.split sum.split)

text \<open>
  C24: the push keeps the user's file up to date: with a linked repository and a readable answer about the
  file it sends one update to the file of the problem and language, with the version that GitHub reported
  (none for a new file), the user's own token, and a content that decodes to the submitted code.
\<close>

theorem push_updates_file:
  assumes "rc_get (sv_client s) (repo_key a) (sv_redis s) = (Inr (Some t), sv_redis s)" "json_parse t = Some (JObj link)"
    and "file_sha (sv_fetch s (sv_sent s) (get_file (obj_lookup link ''token'')
       (file_url (obj_lookup link ''username'') (solutionPath slug language)))) = Inr sha"
  shows "\<exists>content. read_content content = code \<and>
    sv_sent (snd (pushToGithub a slug language (JStr code) s)) = sv_sent s @
      [get_file (obj_lookup link ''token'') (file_url (obj_lookup link ''username'') (solutionPath slug language)),
       put_file (obj_lookup link ''token'') (file_url (obj_lookup link ''username'') (solutionPath slug language))
         (''Solved '' @ to_str slug) content sha]"
proof -
  let ?token = "obj_lookup link ''token''" and ?url = "file_url (obj_lookup link ''username'') (solutionPath slug language)"
  let ?s = "s\<lparr>sv_sent := sv_sent s @ [get_file ?token ?url]\<rparr>"
  obtain c where c: "buffer_base64 (JStr code) = Inr c" by (simp add: buffer_base64_def)
  have "t \<noteq> []" using assms(2) by (auto simp: json_parse_def json_fuel_def)
  then have link: "pushToGithub a slug language (JStr code) s =
      commitSolution ?token (obj_lookup link ''username'') (solutionPath slug language) (JStr code) (''Solved '' @ to_str slug) s"
    using assms(1,2) by (simp add: pushToGithub_def getGithubRepoLink_def bnd_def redis_def)
  have put: "sv_sent (snd (bnd (fetch_out q) (\<lambda>response. if \<not> out_ok response then throw (e response) else ret ()) u)) = sv_sent u @ [q]"
    for q u and e :: "nat \<times> string \<Rightarrow> jv"
    by (rule fetch_out_cases [of u q]) (simp_all add: bnd_def)
  have "sv_sent (snd (pushToGithub a slug language (JStr code) s)) =
      sv_sent ?s @ [put_file ?token ?url (''Solved '' @ to_str slug) c sha]"
    unfolding link commitSolution_def get_file_def [symmetric] lookup_sha assms(3) sum.case c bnd_simps by (rule put)
  then show ?thesis using read_content_buffer [OF c] by auto
qed

definition linked_demo :: "demo_redis server" where
  "linked_demo = (demo_server (\<lambda>h q. if og_method q = ''GET'' then Answer 404 [] else Answer 201 []))\<lparr>sv_redis :=
     \<lparr>dr_counts = (\<lambda>_. 0), dr_texts = [''gh_repo:7'' \<mapsto> json_stringify [(''token'', JStr ''tok''), (''username'', JStr ''ann'')]]\<rparr>\<rparr>"

theorem push_updates_file_witness:
  "\<exists>content. read_content content = ''x = 1'' \<and>
    map og_url (sv_sent (snd (pushToGithub (JStr ''7'') (JStr ''two-sum'') (JStr ''python3'') (JStr ''x = 1'') linked_demo))) =
      replicate 2 ''https://api.github.com/repos/ann/BSG-Submissions/contents/submission/two-sum/solution.py'' \<and>
    og_body (last (sv_sent (snd (pushToGithub (JStr ''7'') (JStr ''two-sum'') (JStr ''python3'') (JStr ''x = 1'') linked_demo)))) =
      Some (json_stringify [(''message'', JStr ''Solved two-sum''), (''content'', JStr content), (''sha'', JUndef)])"
proof -
  let ?link = "[(''token'', JStr ''tok''), (''username'', JStr ''ann'')]"
  have get: "rc_get (sv_client linked_demo) (repo_key (JStr ''7'')) (sv_redis linked_demo) =
      (Inr (Some (json_stringify ?link)), sv_redis linked_demo)"
    by (simp add: linked_demo_def demo_server_def demo_client_def repo_key_def)
  have url: "file_url (obj_lookup ?link ''username'') (solutionPath (JStr ''two-sum'') (JStr ''python3'')) =
      ''https://api.github.com/repos/ann/BSG-Submissions/contents/submission/two-sum/solution.py''"
    by (simp add: file_url_def solutionPath_def extensions_def SUBMISSION_REPO_def)
  have sha: "file_sha (sv_fetch linked_demo (sv_sent linked_demo) (get_file (obj_lookup ?link ''token'')
      (file_url (obj_lookup ?link ''username'') (solutionPath (JStr ''two-sum'') (JStr ''python3''))))) = Inr JUndef"
    by (simp add: linked_demo_def demo_server_def get_file_def file_sha_def out_ok_def)
  have none: "sv_sent linked_demo = []" by (simp add: linked_demo_def demo_server_def)
  from push_updates_file [OF get json_parse_stringify sha, of "''x = 1''"] show ?thesis
    unfolding url none by (auto simp: get_file_def put_file_def numeral_2_eq_2)
qed

end
