(* ===== verification/Accounts.thy ===== *)
theory Accounts
  imports Submission Machine
begin

text \<open>
  The accounts of the gateway: the routes of \<open>src/server/src/routes/auth.js\<close> that are its own code, the
  strategies of \<open>config/passport.js\<close>, and the tokens in \<open>config/redis.js\<close>. Passport and the session
  store are parameters: whether a request is authenticated, the user and account they found, the errors
  they report. The last part follows the GitHub tokens of a user through logins and logouts.
\<close>

section \<open>Tokens\<close>

text \<open>The base64 text of the client credentials, as bytes of code units below 128.\<close>

definition credentials :: "'r server \<Rightarrow> string" where
  "credentials s = base64 (utf8_bytes (to_str (sv_githubId s) @ '':'' @ to_str (sv_githubSecret s)))"

definition revoke_request :: "'r server \<Rightarrow> jv \<Rightarrow> outgoing" where
  "revoke_request s accessToken =
     \<lparr>og_method = ''DELETE'', og_url = ''https://api.github.com/applications/'' @ to_str (sv_githubId s) @ ''/token'',
      og_headers = [(''Authorization'', ''Basic '' @ credentials s), (''Accept'', ''application/vnd.github+json''),
        (''Content-Type'', ''application/json'')],
      og_body = Some (json_stringify [(''access_token'', accessToken)])\<rparr>"

definition revokeGithubToken :: "jv \<Rightarrow> ('r server, nat \<times> string) js" where
  "revokeGithubToken accessToken = bnd (asks (\<lambda>s. revoke_request s accessToken)) fetch_out"

definition token_key :: "jv \<Rightarrow> string" where
  "token_key uid = ''gh_token:'' @ to_str uid"

definition getStoredGithubToken :: "jv \<Rightarrow> ('r server, string option) js" where
  "getStoredGithubToken uid = redis (\<lambda>c. rc_get c (token_key uid))"

definition saveGithubToken :: "jv \<Rightarrow> string \<Rightarrow> ('r server, unit) js" where
  "saveGithubToken uid token = redis (\<lambda>c. rc_set c (token_key uid) token)"

definition deleteStoredGithubToken :: "jv \<Rightarrow> ('r server, unit) js" where
  "deleteStoredGithubToken uid = redis (\<lambda>c. rc_del c (token_key uid))"

section \<open>Signing in\<close>

text \<open>\<open>displayName.split(' ')[0]\<close> and \<open>displayName.split(' ').slice(1).join(' ')\<close>\<close>

definition first_name :: "string \<Rightarrow> string" where
  "first_name t = hd (split_on CHR '' '' t)"

definition last_name :: "string \<Rightarrow> string" where
  "last_name t = join '' '' (tl (split_on CHR '' '' t))"

text \<open>\<open>xs?.[0]?.value\<close>\<close>

definition first_value :: "jv \<Rightarrow> jv" where
  "first_value v = (case v of JArr (x # xs) \<Rightarrow> opt_get x ''value'' | _ \<Rightarrow> JUndef)"

definition github_user :: "jv \<Rightarrow> jv \<Rightarrow> (string \<times> jv) list" where
  "github_user accessToken profile =
     [(''id'', opt_get profile ''id''), (''name'', js_or (opt_get profile ''displayName'') (opt_get profile ''username'')),
      (''email'', first_value (opt_get profile ''emails'')), (''photo'', first_value (opt_get profile ''photos'')),
      (''accessToken'', accessToken), (''provider'', JStr ''github'')]"

text \<open>The record sent to the central service; \<open>split\<close> exists on strings only.\<close>

definition user_data :: "(string \<times> jv) list \<Rightarrow> jv + (string \<times> jv) list" where
  "user_data user =
     (case obj_lookup user ''name'' of
        JStr t \<Rightarrow> Inr [(''firstName'', JStr (first_name t)), (''lastName'', JStr (last_name t)), (''handle'', JStr t),
                     (''email'', obj_lookup user ''email''), (''photoURL'', obj_lookup user ''photo'')]
      | _ \<Rightarrow> Inl type_error)"

text \<open>The tokens: revoke the one stored before when it differs, then store the new one.\<close>

definition rotate_token :: "jv \<Rightarrow> string \<Rightarrow> ('r server, unit) js" where
  "rotate_token uid accessToken = catch
     (bnd (getStoredGithubToken uid) (\<lambda>previous.
      seqm (case previous of
              None \<Rightarrow> ret ()
            | Some t \<Rightarrow> when_do (t \<noteq> [] \<and> t \<noteq> accessToken) (bnd (revokeGithubToken (JStr t)) (\<lambda>_. ret ())))
        (saveGithubToken uid accessToken)))
     (\<lambda>error. ret ())"

text \<open>The verify callback of the GitHub strategy; the result is what it passes to \<open>done\<close>.\<close>

definition github_verify :: "string \<Rightarrow> jv \<Rightarrow> ('r server, jv + jv) js" where
  "github_verify accessToken profile = catch
     (let user = github_user (JStr accessToken) profile in
      bnd (lift (user_data user)) (\<lambda>userData.
      seqm (spawn (SyncUser (obj_lookup user ''id'') (json_stringify userData)))
      (seqm (rotate_token (obj_lookup user ''id'') accessToken)
        (ret (Inr (JObj user))))))
     (\<lambda>error. ret (Inl error))"

text \<open>The Google strategy: a profile without an e-mail address throws out of the callback.\<close>

definition google_user :: "jv \<Rightarrow> jv \<Rightarrow> jv + (string \<times> jv) list" where
  "google_user accessToken profile =
     (case opt_get profile ''emails'' of
        JArr (x # xs) \<Rightarrow>
          (case opt_get profile ''photos'' of
             JArr ps \<Rightarrow> (case get x ''value'' of Inl e \<Rightarrow> Inl e | Inr mail \<Rightarrow>
               Inr [(''id'', opt_get profile ''id''), (''name'', opt_get profile ''displayName''), (''email'', mail),
                    (''photo'', first_value (JArr ps)), (''accessToken'', accessToken), (''provider'', JStr ''google'')])
           | _ \<Rightarrow> Inl type_error)
      | _ \<Rightarrow> Inl type_error)"

definition google_names :: "jv \<Rightarrow> jv + jv \<times> jv" where
  "google_names profile =
     (let given = opt_get (opt_get profile ''name'') ''givenName''; family = opt_get (opt_get profile ''name'') ''familyName'' in
      case opt_get profile ''displayName'' of
        JStr t \<Rightarrow> Inr (js_or given (JStr (first_name t)), js_or family (JStr (last_name t)))
      | _ \<Rightarrow> if truthy given \<and> truthy family then Inr (given, family) else Inl type_error)"

definition google_verify :: "jv \<Rightarrow> jv \<Rightarrow> ('r server, jv) js" where
  "google_verify accessToken profile =
     bnd (lift (google_user accessToken profile)) (\<lambda>user. bnd (lift (google_names profile)) (\<lambda>(firstName, lastName).
      seqm (spawn (SyncUser (obj_lookup user ''id'')
        (json_stringify [(''firstName'', firstName), (''lastName'', lastName), (''handle'', opt_get profile ''displayName''),
           (''email'', obj_lookup user ''email''), (''photoURL'', obj_lookup user ''photo'')])))
        (ret (JObj user))))"

text \<open>The connect strategy.\<close>

definition connect_verify :: "jv \<Rightarrow> jv \<Rightarrow> ('r server, jv + jv) js" where
  "connect_verify accessToken profile = catch
     (seqm (createSubmissionRepo accessToken)
        (bnd (lift (get profile ''username'')) (\<lambda>username.
          ret (Inr (JObj [(''token'', accessToken), (''username'', username)])))))
     (\<lambda>error. ret (Inl error))"

text \<open>What the gateway starts without waiting for it: errors are logged only.\<close>

definition sync_request :: "'r server \<Rightarrow> string \<Rightarrow> jv \<Rightarrow> string \<Rightarrow> outgoing" where
  "sync_request s verb uid body = central_request s verb ''/api/users/'' json_type (Some body) uid"

definition sync_user :: "jv \<Rightarrow> string \<Rightarrow> ('r server, unit) js" where
  "sync_user uid body = catch
     (bnd (asks (\<lambda>s. sync_request s ''POST'' uid body)) (\<lambda>q. bnd (fetch_out q) (\<lambda>res.
        if \<not> out_ok res then bnd (asks (\<lambda>s. sync_request s ''PUT'' uid body)) (\<lambda>q2. bnd (fetch_out q2) (\<lambda>_. ret ()))
        else ret ())))
     (\<lambda>err. ret ())"

definition run_job :: "job \<Rightarrow> ('r server, unit) js" where
  "run_job j =
     (case j of
        PushSolution a slug language code \<Rightarrow> catch (pushToGithub a slug language code) (\<lambda>err. ret ())
      | SyncUser uid body \<Rightarrow> sync_user uid body
      | RevokeOrphan token \<Rightarrow> catch (bnd (revokeGithubToken token) (\<lambda>_. ret ())) (\<lambda>err. ret ()))"

section \<open>The routes\<close>

definition get_user :: "server_request \<Rightarrow> response" where
  "get_user req =
     (if sr_authenticated req \<and> truthy (sr_user req) then
        send_json (JObj [(''id'', opt_get (sr_user req) ''id''), (''name'', opt_get (sr_user req) ''name''),
          (''email'', opt_get (sr_user req) ''email''), (''photo'', opt_get (sr_user req) ''photo'')])
      else error_json 401 ''Not authenticated'')"

definition revoke_login :: "server_request \<Rightarrow> ('r server, unit) js" where
  "revoke_login req =
     (let accessToken = opt_get (sr_user req) ''accessToken''; provider = opt_get (sr_user req) ''provider'' in
      when_do (truthy accessToken \<and> truthy provider) (catch
        (if provider = JStr ''github'' then
           bnd (revokeGithubToken accessToken) (\<lambda>response.
             when_do (out_ok response) (deleteStoredGithubToken (opt_get (sr_user req) ''id'')))
         else if provider = JStr ''google'' then
           bnd (fetch_out \<lparr>og_method = ''POST'', og_url = ''https://oauth2.googleapis.com/revoke?token='' @ to_str accessToken,
              og_headers = [], og_body = None\<rparr>) (\<lambda>response. ret ())
         else ret ())
        (\<lambda>error. ret ())))"

definition logout_reply :: "bool \<Rightarrow> string \<Rightarrow> jv" where
  "logout_reply ok msg = JObj [(''success'', JBool ok), (''message'', JStr msg)]"

definition post_logout :: "server_request \<Rightarrow> ('r server, response) js" where
  "post_logout req = seqm (revoke_login req)
     (bnd (asks sv_logoutError) (\<lambda>err.
        if truthy err then ret (status_json 500 (logout_reply False ''Error logging out''))
        else seqm (session_do LoggedOut) (bnd (asks sv_destroyError) (\<lambda>err.
          if truthy err then ret (status_json 500 (logout_reply False ''Error destroying session''))
          else seqm (session_do SessionDestroyed) (seqm (session_do (CookieCleared ''connect.sid''))
            (ret (send_json (logout_reply True ''Logged out successfully''))))))))"

definition connect_done :: string where
  "connect_done = ''/auth/done''"

definition connect_failed :: string where
  "connect_failed = ''/auth/done?error=github_connect''"

definition get_connect_status :: "server_request \<Rightarrow> ('r server, response) js" where
  "get_connect_status = ensureAuth (\<lambda>req. catch
     (bnd (getGithubRepoLink (auth_id req)) (\<lambda>link.
        ret (send_json (JObj [(''connected'', JBool (truthy link)), (''username'', js_coalesce (opt_get link ''username'') JNull)]))))
     (\<lambda>error. ret (error_json 500 ''Failed to check GitHub connection'')))"

definition connect_callback :: "server_request \<Rightarrow> ('r server, response) js" where
  "connect_callback req =
     (let account = sr_account req; token = opt_get account ''token'' in
      if \<not> sr_authenticated req \<or> \<not> truthy (sr_user req) \<or> \<not> truthy account then
        seqm (when_do (truthy token) (spawn (RevokeOrphan token))) (ret (redirect connect_failed))
      else catch
        (seqm (case account of JObj fs \<Rightarrow> saveGithubRepoLink (auth_id req) fs | _ \<Rightarrow> throw type_error)
          (ret (redirect connect_done)))
        (\<lambda>error. seqm (spawn (RevokeOrphan token)) (ret (redirect connect_failed))))"

text \<open>The route that starts the connection hands authenticated requests to Passport.\<close>

definition get_connect :: "(server_request \<Rightarrow> ('r server, response) js) \<Rightarrow> server_request \<Rightarrow> ('r server, response) js" where
  "get_connect passport_authorize req =
     (if \<not> sr_authenticated req \<or> \<not> truthy (sr_user req) then ret (status_send 401 ''Log in to BSG before connecting GitHub'')
      else passport_authorize req)"

section \<open>What the routes guarantee\<close>

lemma revoke_login_total: "fst (revoke_login req s) = Inr ()"
proof -
  have c: "fst (catch m (\<lambda>e. ret ()) s) = Inr ()" for m :: "('r server, unit) js" and s
    by (cases "m s") (auto simp: catch_def split: sum.split)
  show ?thesis by (simp add: revoke_login_def Let_def when_do_def c)
qed

lemma preserves_revoke_login:
  assumes "preserves g (redis (\<lambda>c. rc_del c (token_key (opt_get (sr_user req) ''id''))))" "\<And>q. preserves g (fetch_out q)"
  shows "preserves g (revoke_login req)"
  unfolding revoke_login_def Let_def revokeGithubToken_def deleteStoredGithubToken_def
  by (intro frame_intro assms)

lemma revoke_login_frame:
  "sv_session (snd (revoke_login req s)) = sv_session s"
  "sv_logoutError (snd (revoke_login req s)) = sv_logoutError s"
  "sv_destroyError (snd (revoke_login req s)) = sv_destroyError s"
  by (rule preservesD, rule preserves_revoke_login;
      simp add: preserves_def redis_def fetch_out_def Let_def split: prod.split answer.split)+


text \<open>
  C23: the token of a connected repository never dangles: the callback either stores the account for the
  signed-in user and reports success, or it reports a failure and hands the token to its revocation
  (when there is a token at all).
\<close>

theorem connect_token_kept_or_revoked:
  "(fst (connect_callback req s) = Inr (redirect connect_done) \<and> sv_jobs (snd (connect_callback req s)) = sv_jobs s \<and>
      sr_authenticated req \<and> truthy (sr_user req) \<and>
      (\<exists>fs. sr_account req = JObj fs \<and>
         rc_set (sv_client s) (repo_key (auth_id req)) (json_stringify fs) (sv_redis s) =
           (Inr (), sv_redis (snd (connect_callback req s))))) \<or>
   (fst (connect_callback req s) = Inr (redirect connect_failed) \<and>
      sv_jobs (snd (connect_callback req s)) = sv_jobs s @
        (if truthy (opt_get (sr_account req) ''token'') \<or> (sr_authenticated req \<and> truthy (sr_user req) \<and> truthy (sr_account req))
         then [RevokeOrphan (opt_get (sr_account req) ''token'')] else []))"
proof (cases "sr_authenticated req \<and> truthy (sr_user req) \<and> truthy (sr_account req)")
  case False
  then show ?thesis
    by (cases "truthy (opt_get (sr_account req) ''token'')") (auto simp: connect_callback_def Let_def)
next
  case True
  show ?thesis
  proof (cases "\<exists>fs. sr_account req = JObj fs")
    case False
    with True show ?thesis
      by (cases "sr_account req") (auto simp: connect_callback_def Let_def seqm_def bnd_def)
  next
    case fs: True
    then obtain fs where a: "sr_account req = JObj fs" by blast
    obtain r d where d: "rc_set (sv_client s) (repo_key (auth_id req)) (json_stringify fs) (sv_redis s) = (r, d)" by fastforce
    show ?thesis using True a d
      by (cases r) (auto simp: connect_callback_def Let_def seqm_def saveGithubRepoLink_def redis_def catch_def bnd_def)
  qed
qed

section \<open>The GitHub tokens of a user\<close>

text \<open>
  What the gateway relies on: Redis keeps texts (\<open>v\<close> reads the text of a key), and GitHub revokes a
  token once, answering 204, and answers 404 for a token that it has revoked before.
\<close>

definition keeps_texts :: "'r redis_client \<Rightarrow> ('r \<Rightarrow> string \<Rightarrow> string option) \<Rightarrow> bool" where
  "keeps_texts c v \<longleftrightarrow>
     (\<forall>k d. rc_get c k d = (Inr (v d k), d)) \<and>
     (\<forall>k t d. fst (rc_set c k t d) = Inr () \<and> v (snd (rc_set c k t d)) = (v d)(k \<mapsto> t)) \<and>
     (\<forall>k d. fst (rc_del c k d) = Inr () \<and> v (snd (rc_del c k d)) = (v d)(k := None))"

definition github_revokes :: "'r server \<Rightarrow> bool" where
  "github_revokes s \<longleftrightarrow>
     (\<forall>h t. sv_fetch s h (revoke_request s t) = (if revoke_request s t \<in> set h then Answer 404 [] else Answer 204 []))"

text \<open>GitHub still honours a token that it has not been asked to revoke.\<close>

definition honoured :: "'r server \<Rightarrow> string \<Rightarrow> bool" where
  "honoured s t \<longleftrightarrow> revoke_request s (JStr t) \<notin> set (sv_sent s)"

lemma revoke_request_inj: "revoke_request s (JStr a) = revoke_request s (JStr b) \<longleftrightarrow> a = b"
  using json.encode_inj [of "[(''access_token'', JStr a)]" "[(''access_token'', JStr b)]"]
  by (auto simp: revoke_request_def)

lemma revoke_request_state [simp]:
  "revoke_request (s\<lparr>sv_sent := q\<rparr>) t = revoke_request s t" "revoke_request (s\<lparr>sv_redis := d\<rparr>) t = revoke_request s t"
  "revoke_request (s\<lparr>sv_session := e\<rparr>) t = revoke_request s t"
  by (simp_all add: revoke_request_def credentials_def)

text \<open>
  The logins and logouts of one user with GitHub, in any number of sessions: GitHub issues a new token for
  every login, a session signs out with the token it holds, and sessions expire. The second component
  holds all tokens issued, the third those of the sessions.
\<close>

definition session_request :: "jv \<Rightarrow> string \<Rightarrow> server_request" where
  "session_request uid t = \<lparr>sr_method = ''POST'', sr_path = ''/auth/logout'', sr_headers = [], sr_ip = JUndef,
     sr_authenticated = True, sr_user = JObj [(''id'', uid), (''accessToken'', JStr t), (''provider'', JStr ''github'')],
     sr_account = JUndef, sr_id = [], sr_query = [], sr_body = JUndef\<rparr>"

inductive token_run :: "jv \<Rightarrow> 'r server \<Rightarrow> 'r server \<Rightarrow> string list \<Rightarrow> string list \<Rightarrow> bool" for uid s where
  token_start: "token_run uid s s [] []"
| token_login: "token_run uid s t issued held \<Longrightarrow> tok \<noteq> [] \<Longrightarrow> tok \<notin> set issued \<Longrightarrow>
    token_run uid s (snd (rotate_token uid tok t)) (tok # issued) (tok # held)"
| token_logout: "token_run uid s t issued held \<Longrightarrow> tok \<in> set held \<Longrightarrow>
    token_run uid s (snd (post_logout (session_request uid tok) t)) issued (remove1 tok held)"
| token_expire: "token_run uid s t issued held \<Longrightarrow> token_run uid s t issued (remove1 tok held)"

text \<open>A token that is still honoured is the stored one; only issued tokens were ever revoked.\<close>

definition token_inv :: "('r \<Rightarrow> string \<Rightarrow> string option) \<Rightarrow> jv \<Rightarrow> 'r server \<Rightarrow> string list \<Rightarrow> string list \<Rightarrow> bool" where
  "token_inv v uid s issued held \<longleftrightarrow>
     keeps_texts (sv_client s) v \<and> github_revokes s \<and> set held \<subseteq> set issued \<and> [] \<notin> set issued \<and>
     set_option (v (sv_redis s) (token_key uid)) \<subseteq> set issued \<and>
     {t. t \<in> set issued \<and> honoured s t} \<subseteq> set_option (v (sv_redis s) (token_key uid)) \<and>
     {t. \<not> honoured s t} \<subseteq> set issued"

lemma revoke_act:
  assumes "github_revokes s"
  shows "revokeGithubToken (JStr t) s =
    (Inr (if honoured s t then 204 else 404, []), s\<lparr>sv_sent := sv_sent s @ [revoke_request s (JStr t)]\<rparr>)"
  using assms by (simp add: revokeGithubToken_def github_revokes_def fetch_out_def honoured_def)

lemma github_revokes_state [simp]:
  "github_revokes (s\<lparr>sv_sent := q\<rparr>) = github_revokes s" "github_revokes (s\<lparr>sv_redis := d\<rparr>) = github_revokes s"
  "github_revokes (s\<lparr>sv_session := e\<rparr>) = github_revokes s"
  by (simp_all add: github_revokes_def)

lemma honoured_state [simp]:
  "honoured (s\<lparr>sv_redis := d\<rparr>) t = honoured s t" "honoured (s\<lparr>sv_session := e\<rparr>) t = honoured s t"
  "honoured (s\<lparr>sv_sent := sv_sent s @ [revoke_request s (JStr x)]\<rparr>) t = (honoured s t \<and> t \<noteq> x)"
  by (auto simp: honoured_def revoke_request_inj)

lemma redis_get: "keeps_texts (sv_client s) v \<Longrightarrow> redis (\<lambda>c. rc_get c k) s = (Inr (v (sv_redis s) k), s)"
  by (simp add: keeps_texts_def redis_def)

lemma redis_set:
  assumes "keeps_texts (sv_client s) v"
  obtains d where "redis (\<lambda>c. rc_set c k t) s = (Inr (), s\<lparr>sv_redis := d\<rparr>)" "v d = (v (sv_redis s))(k \<mapsto> t)"
  using assms by (intro that [of "snd (rc_set (sv_client s) k t (sv_redis s))"]) (auto simp: keeps_texts_def redis_def prod.case_eq_if)

lemma redis_del:
  assumes "keeps_texts (sv_client s) v"
  obtains d where "redis (\<lambda>c. rc_del c k) s = (Inr (), s\<lparr>sv_redis := d\<rparr>)" "v d = (v (sv_redis s))(k := None)"
  using assms by (intro that [of "snd (rc_del (sv_client s) k (sv_redis s))"]) (auto simp: keeps_texts_def redis_def prod.case_eq_if)

lemma token_inv_login:
  assumes inv: "token_inv v uid s issued held" and tok: "tok \<noteq> []" "tok \<notin> set issued"
  shows "token_inv v uid (snd (rotate_token uid tok s)) (tok # issued) (tok # held)"
proof -
  have k: "keeps_texts (sv_client s) v" and g: "github_revokes s" using inv by (auto simp: token_inv_def)
  have fresh: "honoured s tok" using inv tok by (auto simp: token_inv_def)
  show ?thesis
  proof (cases "v (sv_redis s) (token_key uid)")
    case None
    obtain d where d: "redis (\<lambda>c. rc_set c (token_key uid) tok) s = (Inr (), s\<lparr>sv_redis := d\<rparr>)"
      "v d = (v (sv_redis s))(token_key uid \<mapsto> tok)" by (rule redis_set [OF k])
    have "snd (rotate_token uid tok s) = s\<lparr>sv_redis := d\<rparr>"
      using None d(1) by (simp add: rotate_token_def getStoredGithubToken_def saveGithubToken_def bnd_def redis_get [OF k] seqm_def catch_def)
    then show ?thesis using inv tok None d(2) by (auto simp: token_inv_def)
  next
    case (Some p)
    let ?t = "s\<lparr>sv_sent := sv_sent s @ [revoke_request s (JStr p)]\<rparr>"
    have p: "p \<in> set issued" "p \<noteq> []" "p \<noteq> tok" using inv Some tok by (auto simp: token_inv_def)
    have k': "keeps_texts (sv_client ?t) v" using k by simp
    obtain d where d: "redis (\<lambda>c. rc_set c (token_key uid) tok) ?t = (Inr (), ?t\<lparr>sv_redis := d\<rparr>)"
      "v d = (v (sv_redis s))(token_key uid \<mapsto> tok)" by (rule redis_set [OF k', of "token_key uid" tok]) simp
    have "snd (rotate_token uid tok s) = ?t\<lparr>sv_redis := d\<rparr>"
      using Some d(1) p by (simp add: rotate_token_def getStoredGithubToken_def saveGithubToken_def bnd_def redis_get [OF k]
          seqm_def catch_def revoke_act [OF g])
    then show ?thesis using inv tok p Some d(2) fresh by (auto simp: token_inv_def)
  qed
qed

lemma token_inv_stored:
  assumes "token_inv v uid s issued held" "tok \<in> set issued" "honoured s tok"
  shows "v (sv_redis s) (token_key uid) = Some tok"
proof -
  have "tok \<in> set_option (v (sv_redis s) (token_key uid))" using assms by (auto simp: token_inv_def)
  then show ?thesis by simp
qed

lemma token_inv_session: "token_inv v uid (s\<lparr>sv_session := e\<rparr>) issued held = token_inv v uid s issued held"
  by (simp add: token_inv_def)

lemma token_inv_held: "token_inv v uid s issued held \<Longrightarrow> set held' \<subseteq> set held \<Longrightarrow> token_inv v uid s issued held'"
  by (auto simp: token_inv_def)

lemma token_inv_revoke:
  assumes inv: "token_inv v uid s issued held" and tok: "tok \<in> set held"
  shows "token_inv v uid (snd (revoke_login (session_request uid tok) s)) issued held"
proof -
  have k: "keeps_texts (sv_client s) v" and g: "github_revokes s" using inv by (auto simp: token_inv_def)
  have i: "tok \<in> set issued" "tok \<noteq> []" using inv tok by (auto simp: token_inv_def)
  let ?t = "s\<lparr>sv_sent := sv_sent s @ [revoke_request s (JStr tok)]\<rparr>"
  have k': "keeps_texts (sv_client ?t) v" using k by simp
  show ?thesis
  proof (cases "honoured s tok")
    case True
    obtain d where d: "redis (\<lambda>c. rc_del c (token_key uid)) ?t = (Inr (), ?t\<lparr>sv_redis := d\<rparr>)"
      "v d = (v (sv_redis s))(token_key uid := None)" by (rule redis_del [OF k', of "token_key uid"]) simp
    have "snd (revoke_login (session_request uid tok) s) = ?t\<lparr>sv_redis := d\<rparr>"
      using True d(1) i by (simp add: revoke_login_def session_request_def Let_def obj_lookup_def deleteStoredGithubToken_def bnd_def
          catch_def revoke_act [OF g] out_ok_def)
    moreover have "v (sv_redis s) (token_key uid) = Some tok" by (rule token_inv_stored [OF inv i(1) True])
    ultimately show ?thesis using inv i d(2) by (auto simp: token_inv_def)
  next
    case False
    have "snd (revoke_login (session_request uid tok) s) = ?t"
      using False i by (simp add: revoke_login_def session_request_def Let_def obj_lookup_def bnd_def catch_def
          revoke_act [OF g] out_ok_def)
    then show ?thesis using inv i by (auto simp: token_inv_def)
  qed
qed

lemma post_logout_state:
  "\<exists>e. snd (post_logout req s) = (snd (revoke_login req s))\<lparr>sv_session := e\<rparr>"
proof -
  have same: "\<exists>e. t = t\<lparr>sv_session := e\<rparr>" for t :: "'r server" by (intro exI [of _ "sv_session t"]) simp
  show ?thesis
    by (auto simp: post_logout_def seqm_total [OF revoke_login_total] intro: same)
qed

lemma token_inv_run:
  assumes "token_run uid s t issued held" "keeps_texts (sv_client s) v" "github_revokes s"
    "v (sv_redis s) (token_key uid) = None" "sv_sent s = []"
  shows "token_inv v uid t issued held"
  using assms
proof induction
  case token_start
  then show ?case by (simp add: token_inv_def honoured_def)
next
  case (token_login t issued held tok)
  then show ?case by (simp add: token_inv_login)
next
  case (token_logout t issued held tok)
  then have "token_inv v uid (snd (revoke_login (session_request uid tok) t)) issued held" by (simp add: token_inv_revoke)
  then have "token_inv v uid (snd (post_logout (session_request uid tok) t)) issued held"
    using post_logout_state [of "session_request uid tok" t] token_inv_session by metis
  then show ?case by (rule token_inv_held) (rule set_remove1_subset)
next
  case (token_expire t issued held tok)
  then show ?case by (intro token_inv_held [OF token_expire.IH] set_remove1_subset)
qed


definition github_demo :: "demo_redis server" where
  "github_demo = demo_server (\<lambda>h q. if q \<in> set h then Answer 404 [] else Answer 204 [])"

lemma github_demo: "keeps_texts (sv_client github_demo) dr_texts" "github_revokes github_demo"
  "dr_texts (sv_redis github_demo) (token_key uid) = None" "sv_sent github_demo = []" "sv_client github_demo = demo_client"
  by (simp_all add: github_demo_def demo_server_def demo_client_def keeps_texts_def github_revokes_def)

lemma demo_texts: "keeps_texts demo_client dr_texts"
  using github_demo(1,5) by simp


text \<open>
  Without the answers of GitHub this fails: a login does not look at the answer to its revocation, so a
  refused one leaves the earlier token honoured and forgotten.
\<close>

lemma refused_revocation_forgets:
  assumes "keeps_texts (sv_client s) v" "v (sv_redis s) (token_key uid) = Some old" "old \<noteq> []" "old \<noteq> new"
    and "sv_fetch s (sv_sent s) (revoke_request s (JStr old)) = Answer 503 []"
  shows "v (sv_redis (snd (rotate_token uid new s))) (token_key uid) = Some new \<and>
    sv_sent (snd (rotate_token uid new s)) = sv_sent s @ [revoke_request s (JStr old)]"
proof -
  let ?t = "s\<lparr>sv_sent := sv_sent s @ [revoke_request s (JStr old)]\<rparr>"
  have k': "keeps_texts (sv_client ?t) v" using assms(1) by simp
  obtain d where d: "redis (\<lambda>c. rc_set c (token_key uid) new) ?t = (Inr (), ?t\<lparr>sv_redis := d\<rparr>)"
    "v d = (v (sv_redis s))(token_key uid \<mapsto> new)" by (rule redis_set [OF k', of "token_key uid" new]) simp
  have "snd (rotate_token uid new s) = ?t\<lparr>sv_redis := d\<rparr>"
    using d(1) assms(2-5) by (simp add: rotate_token_def getStoredGithubToken_def saveGithubToken_def bnd_def redis_get [OF assms(1)]
        seqm_def catch_def revokeGithubToken_def fetch_out_def)
  then show ?thesis using d(2) by simp
qed

end
