(* ===== verification/Panel_Widgets.thy ===== *)
theory Panel_Widgets
  imports Worker Session Room_Choice Accounts
begin

text \<open>
  Smaller parts of the panel with behaviour of their own: copying the room code (\<open>hooks/useCopyCode.ts\<close>), the
  footer (\<open>customComponents/Footer/Footer.tsx\<close>), the page that joins or creates a room
  (\<open>pages/room-choice-page.tsx\<close>), the labels of the create-room forms, and what the pages show. Each is a
  function of the state of the hooks that the other theories model.
\<close>

section \<open>Copying the room code\<close>

text \<open>
  \<open>cp_asked\<close> lists the codes whose answer from the worker is still out, \<open>cp_timers\<close> the timers of \<open>markCopied\<close>
  and \<open>cp_local\<close> the last code that \<open>document.execCommand\<close> really copied.
\<close>

record copier =
  cp_copied :: bool
  cp_timers :: nat
  cp_asked :: "string list"
  cp_local :: "string option"

definition copierInit :: copier where
  "copierInit = \<lparr>cp_copied = False, cp_timers = 0, cp_asked = [], cp_local = None\<rparr>"

definition markCopied :: "copier \<Rightarrow> copier" where
  "markCopied c = c\<lparr>cp_copied := True, cp_timers := Suc (cp_timers c)\<rparr>"

text \<open>\<open>exec\<close> is what \<open>execCommand\<close> does: it may also fail or throw, which is swallowed.\<close>

definition doLocalCopy :: "bool \<Rightarrow> string \<Rightarrow> copier \<Rightarrow> copier" where
  "doLocalCopy exec rcode c = markCopied (if exec then c\<lparr>cp_local := Some rcode\<rparr> else c)"

definition copy_message :: "string \<Rightarrow> jv" where
  "copy_message rcode = JObj [(''type'', JStr ''COPY_TO_CLIPBOARD''), (''text'', JStr rcode)]"

text \<open>\<open>reach\<close> says whether the extension's messaging exists and does not throw.\<close>

definition copyRoomCode :: "bool \<Rightarrow> bool \<Rightarrow> string option \<Rightarrow> copier \<Rightarrow> copier" where
  "copyRoomCode reach exec rcode c =
     (case rcode of
        None \<Rightarrow> c
      | Some code \<Rightarrow>
          if code = [] then c
          else if reach then c\<lparr>cp_asked := cp_asked c @ [code]\<rparr>
          else doLocalCopy exec code c)"

definition copy_answered :: "bool \<Rightarrow> nat \<Rightarrow> jv \<Rightarrow> copier \<Rightarrow> copier" where
  "copy_answered exec i resp c =
     (if i < length (cp_asked c) then
        (let code = cp_asked c ! i; c1 = c\<lparr>cp_asked := take i (cp_asked c) @ drop (Suc i) (cp_asked c)\<rparr> in
         if truthy (opt_get resp ''ok'') then markCopied c1 else doLocalCopy exec code c1)
      else c)"

definition copied_timeout :: "copier \<Rightarrow> copier" where
  "copied_timeout c = (if 0 < cp_timers c then c\<lparr>cp_copied := False, cp_timers := cp_timers c - 1\<rparr> else c)"

datatype copy_event = CopyClicked bool bool "string option" | CopyAnswered bool nat jv | CopyTimeout

fun copy_step :: "copy_event \<Rightarrow> copier \<Rightarrow> copier" where
  "copy_step (CopyClicked reach exec code) c = copyRoomCode reach exec code c"
| "copy_step (CopyAnswered exec i resp) c = copy_answered exec i resp c"
| "copy_step CopyTimeout c = copied_timeout c"

definition copy_inv :: "copier \<Rightarrow> bool" where
  "copy_inv c \<longleftrightarrow> (cp_copied c \<longrightarrow> 0 < cp_timers c) \<and> [] \<notin> set (cp_asked c)"

lemma copy_inv_step: "copy_inv c \<Longrightarrow> copy_inv (copy_step e c)"
  by (cases e) (auto simp: copy_inv_def copyRoomCode_def copy_answered_def doLocalCopy_def markCopied_def copied_timeout_def
      Let_def split: option.split dest: in_set_takeD in_set_dropD)

interpretation copying: machine copierInit copy_step copy_inv
  by unfold_locales (simp_all add: copy_inv_step, simp add: copy_inv_def copierInit_def)

text \<open>The label goes back by itself: when it says that the code was copied, a timer that resets it is pending.\<close>

lemma copied_label_resets:
  "cp_copied (run copy_step es copierInit) \<Longrightarrow>
     0 < cp_timers (run copy_step es copierInit) \<and> \<not> cp_copied (copy_step CopyTimeout (run copy_step es copierInit))"
  using copying.inv_run_init [of es] by (simp add: copy_inv_def copied_timeout_def)

text \<open>Copying again does not prolong the label: the timer of the first click ends it early.\<close>

lemma second_copy_cut_short:
  "\<not> cp_copied (run copy_step [CopyClicked False True (Some ''a''), CopyClicked False True (Some ''b''), CopyTimeout] copierInit) \<and>
   cp_timers (run copy_step [CopyClicked False True (Some ''a''), CopyClicked False True (Some ''b''), CopyTimeout] copierInit) = 1"
  by (simp add: copierInit_def copyRoomCode_def doLocalCopy_def markCopied_def copied_timeout_def)

text \<open>The fallback says that the code was copied even when the browser refused.\<close>

lemma fallback_claims_success:
  "code \<noteq> [] \<Longrightarrow> cp_copied (copyRoomCode False False (Some code) c) \<and> cp_local (copyRoomCode False False (Some code) c) = cp_local c"
  by (simp add: copyRoomCode_def doLocalCopy_def markCopied_def)

subsection \<open>With the worker\<close>

lemma write_clipboard_outcome:
  "\<exists>ok w'. write_clipboard text w = (Inr (JBool ok), w') \<and> wk_copy w' = wk_copy w \<and>
     wk_trace w' = wk_trace w @ (if ok then [Clipboard (to_str text)] else [])"
proof (cases "ce_clipboard (wk_copy w) \<and> ce_writeText (wk_copy w) (to_str text) = Inr ()")
  case True
  then show ?thesis by (intro exI [of _ True]) (simp add: write_clipboard_def bnd_def catch_def)
next
  case False
  then show ?thesis
    by (intro exI [of _ False]) (cases "ce_writeText (wk_copy w) (to_str text)"; auto simp: write_clipboard_def bnd_def catch_def)
qed

lemma ensureOffscreen_outcome:
  "\<exists>b w'. ensureOffscreen w = (Inr b, w') \<and> wk_copy w' = wk_copy w \<and> wk_trace w' = wk_trace w"
  by (auto simp: ensureOffscreen_def bnd_def catch_def split: prod.splits sum.splits)

text \<open>What the worker answers to a request to copy, and what it did by then.\<close>

definition offscreen_copied :: "copy_env \<Rightarrow> string \<Rightarrow> bool" where
  "offscreen_copied env code \<longleftrightarrow>
     (\<exists>res. ce_answer env (offscreen_message (JStr code)) = Inr res \<and> truthy (copy_ok res))"

lemma doCopy_outcome:
  "\<exists>ok w' tr. doCopy (JStr code) w = (Inr ok, w') \<and> wk_trace w' = wk_trace w @ tr \<and>
     (truthy ok \<longrightarrow> Clipboard code \<in> set tr \<or> offscreen_copied (wk_copy w) code)"
proof -
  obtain b w1 where e: "ensureOffscreen w = (Inr b, w1)" "wk_copy w1 = wk_copy w" "wk_trace w1 = wk_trace w"
    using ensureOffscreen_outcome by blast
  obtain ok w2 where c: "write_clipboard (JStr code) w1 = (Inr (JBool ok), w2)"
    "wk_trace w2 = wk_trace w1 @ (if ok then [Clipboard code] else [])"
    using write_clipboard_outcome [of "JStr code" w1] by auto
  show ?thesis
  proof (cases "b \<and> (\<exists>res. ce_answer (wk_copy w) (offscreen_message (JStr code)) = Inr res)")
    case True
    then obtain res where "b" "ce_answer (wk_copy w) (offscreen_message (JStr code)) = Inr res" by blast
    then show ?thesis using e by (intro exI [of _ "copy_ok res"] exI [of _ w1] exI [of _ "[]"])
      (auto simp: doCopy_def bnd_def offscreen_copied_def)
  next
    case False
    then have "doCopy (JStr code) w = (Inr (JBool ok), w2)"
      using e c by (cases "ce_answer (wk_copy w) (offscreen_message (JStr code))") (auto simp: doCopy_def bnd_def)
    then show ?thesis using e c by (intro exI [of _ "JBool ok"] exI [of _ w2]) auto
  qed
qed



section \<open>The footer\<close>

text \<open>The button of the GitHub connection: its tooltip and what a click does.\<close>

definition github_tooltip :: "bool \<Rightarrow> jv \<Rightarrow> string" where
  "github_tooltip loggedIn github =
     (if \<not> loggedIn then ''First log in to access the GitHub repo to store your submissions''
      else if truthy (opt_get github ''connected'')
      then ''Submissions saved to '' @ to_str (opt_get github ''username'') @ ''/BSG-Submissions''
      else ''Connect GitHub to store your submissions in a repo'')"

datatype footer_action = NoAction | OpenPage string | StartConnect

definition github_click :: "bool \<Rightarrow> jv \<Rightarrow> footer_action" where
  "github_click loggedIn github =
     (if \<not> loggedIn then NoAction
      else if truthy (opt_get github ''connected'')
      then OpenPage (''https://github.com/'' @ to_str (opt_get github ''username'') @ ''/BSG-Submissions'')
      else StartConnect)"

text \<open>The button of the room code: it is hidden outside a room.\<close>

definition copy_tooltip :: "copier \<Rightarrow> string" where
  "copy_tooltip c = (if cp_copied c then ''Copied'' else ''Copy room code'')"

text \<open>The answer of the gateway's status route for a stored link.\<close>

definition link_status :: "jv \<Rightarrow> jv" where
  "link_status link = JObj [(''connected'', JBool (truthy link)), (''username'', js_coalesce (opt_get link ''username'') JNull)]"

lemma get_connect_status_link:
  "getGithubRepoLink (auth_id req) s = (Inr link, s') \<Longrightarrow> sr_authenticated req \<Longrightarrow> truthy (sr_user req) \<Longrightarrow>
     get_connect_status req s = (Inr (send_json (link_status link)), s')"
  by (simp add: get_connect_status_def ensureAuth_def bnd_def catch_def link_status_def)

text \<open>
  The footer opens the repository that the gateway pushes to: with the status of a stored link, the page it
  opens and the files of the push belong to the same repository.
\<close>

lemma footer_opens_submissions:
  assumes "truthy (JObj link)" "\<not> is_nullish (obj_lookup link ''username'')"
  shows "\<exists>repo. github_click True (link_status (JObj link)) = OpenPage (''https://github.com/'' @ repo) \<and>
    github_tooltip True (link_status (JObj link)) = ''Submissions saved to '' @ repo \<and>
    (\<forall>path. file_url (obj_lookup link ''username'') path = ''https://api.github.com/repos/'' @ repo @ ''/contents/'' @ path)"
  using assms by (intro exI [of _ "to_str (obj_lookup link ''username'') @ ''/BSG-Submissions''"])
    (simp add: github_click_def github_tooltip_def link_status_def file_url_def SUBMISSION_REPO_def js_coalesce_def)

text \<open>Once signed out the button does nothing and the connection of the user before is forgotten.\<close>

lemma signed_out_footer: "github_click False g = NoAction \<and> connection_effect False g w = (Inr no_connection, w)"
  by (simp add: github_click_def connection_effect_def)

section \<open>Joining or creating\<close>

text \<open>
  The page \<open>room-choice-page.tsx\<close> over the hook \<open>useJoinRoom\<close>: \<open>ci_pending\<close> lists the codes whose joining has
  not answered yet, \<open>ci_routes\<close> the routes pushed.
\<close>

record choice_page =
  ci_form :: join_form
  ci_pending :: "string list"
  ci_routes :: "string list"

definition choicePageInit :: choice_page where
  "choicePageInit = \<lparr>ci_form = joinFormInit, ci_pending = [], ci_routes = []\<rparr>"

definition begin_join :: "choice_page \<Rightarrow> choice_page" where
  "begin_join c =
     (let f = (ci_form c)\<lparr>jf_formError := None\<rparr>; code = trim (jf_joinCode f) in
      if code = [] then c\<lparr>ci_form := f\<rparr>
      else c\<lparr>ci_form := f\<lparr>jf_isSubmitting := True\<rparr>, ci_pending := ci_pending c @ [code]\<rparr>)"

datatype choice_event =
    CodeTyped string | KeyPressed string | JoinClicked | JoinAnswered nat action_result | CreateRoomClicked | JoinErrorDismissed

fun choice_step :: "choice_event \<Rightarrow> choice_page \<Rightarrow> choice_page" where
  "choice_step (CodeTyped t) c = c\<lparr>ci_form := setJoinCode t (ci_form c)\<rparr>"
| "choice_step (KeyPressed k) c = (if k = ''Enter'' \<and> \<not> jf_isSubmitting (ci_form c) then begin_join c else c)"
| "choice_step JoinClicked c = (if jf_isSubmitting (ci_form c) then c else begin_join c)"
| "choice_step (JoinAnswered i r) c =
     (if i < length (ci_pending c)
      then c\<lparr>ci_form := finish_join r (ci_form c), ci_pending := take i (ci_pending c) @ drop (Suc i) (ci_pending c)\<rparr>
      else c)"
| "choice_step CreateRoomClicked c =
     c\<lparr>ci_form := (ci_form c)\<lparr>jf_formError := None\<rparr>, ci_routes := ci_routes c @ [''/create-room-page'']\<rparr>"
| "choice_step JoinErrorDismissed c = c\<lparr>ci_form := (ci_form c)\<lparr>jf_formError := None\<rparr>\<rparr>"

definition join_label :: "choice_page \<Rightarrow> string" where
  "join_label c = (if jf_isSubmitting (ci_form c) then ''Joining...'' else ''Join'')"

definition choice_inv :: "choice_page \<Rightarrow> bool" where
  "choice_inv c \<longleftrightarrow> length (ci_pending c) = (if jf_isSubmitting (ci_form c) then 1 else 0) \<and>
     (\<forall>code\<in>set (ci_pending c). code \<noteq> [] \<and> trim code = code)"

lemma choice_inv_begin: "choice_inv c \<Longrightarrow> \<not> jf_isSubmitting (ci_form c) \<Longrightarrow> choice_inv (begin_join c)"
  by (auto simp: choice_inv_def begin_join_def Let_def)

lemma choice_inv_step: "choice_inv c \<Longrightarrow> choice_inv (choice_step e c)"
proof (cases e)
  case (JoinAnswered i r)
  assume "choice_inv c"
  then show ?thesis
    by (cases "ci_pending c") (auto simp: JoinAnswered choice_inv_def finish_join_def split: if_splits)
qed (auto simp: choice_inv_begin, auto simp: choice_inv_def setJoinCode_def)

interpretation joining: machine choicePageInit choice_step choice_inv
  by unfold_locales (simp_all add: choice_inv_step, simp add: choice_inv_def choicePageInit_def joinFormInit_def)

text \<open>The hook's own operation is the page's with the answer that comes at once.\<close>

lemma handleJoinRoom_begin:
  "handleJoinRoom me f =
     (case ci_pending (begin_join \<lparr>ci_form = f, ci_pending = [], ci_routes = []\<rparr>) of
        [] \<Rightarrow> ret (ci_form (begin_join \<lparr>ci_form = f, ci_pending = [], ci_routes = []\<rparr>))
      | code # _ \<Rightarrow> bnd (joinRoom me code) (\<lambda>r. ret (finish_join r (ci_form (begin_join \<lparr>ci_form = f, ci_pending = [], ci_routes = []\<rparr>)))))"
  by (simp add: handleJoinRoom_def begin_join_def Let_def)

text \<open>
  One room is joined at a time: whatever is typed, pressed and clicked, at most one request to join is out,
  the button says so exactly while it is, and the code it carries is trimmed and not empty.
\<close>

theorem one_join_at_a_time:
  fixes es
  defines "c \<equiv> run choice_step es choicePageInit"
  shows "length (ci_pending c) \<le> 1 \<and> (join_label c = ''Joining...'') = (ci_pending c \<noteq> []) \<and>
    list_all (\<lambda>code. code \<noteq> [] \<and> trim code = code) (ci_pending c)"
proof -
  have "choice_inv c" unfolding c_def by (rule joining.inv_run_init)
  then show ?thesis by (auto simp: choice_inv_def join_label_def list_all_iff split: if_splits)
qed

section \<open>Labels and notices\<close>

text \<open>A topic in the list of the filter tab, with its count when there is one.\<close>

definition topic_label :: "(string \<times> jv) list \<Rightarrow> string \<Rightarrow> string" where
  "topic_label counts item =
     item @ (case map_of counts item of Some (JNum n) \<Rightarrow> '' ('' @ show_int n @ '')'' | _ \<Rightarrow> [])"

text \<open>The label beside the check box, which a click toggles only when a company is selected.\<close>

definition recently_label :: "wizard \<Rightarrow> wizard" where
  "recently_label s = (if rc_selectedCompanies s \<noteq> [] then s\<lparr>rc_recentlyAsked := \<not> rc_recentlyAsked s\<rparr> else s)"

text \<open>\<open>NotificationToggle\<close>: a click asks for the opposite, unless it is disabled.\<close>

definition toggle_click :: "bool \<Rightarrow> bool \<Rightarrow> bool option" where
  "toggle_click enabled disabled = (if disabled then None else Some (\<not> enabled))"

text \<open>The crown of the administrator, the display that is visible, the notice of the room.\<close>

definition has_crown :: "jv \<Rightarrow> app_user \<Rightarrow> bool" where
  "has_crown admin u = strict_eq (au_id u) admin"

definition visible_display :: "room_store \<Rightarrow> tab_name \<Rightarrow> bool" where
  "visible_display s tab = (activeTab s = tab)"

definition shown_notice :: "room_store \<Rightarrow> jv option" where
  "shown_notice s = (if truthy (roomNotice s) then Some (roomNotice s) else None)"

definition dismiss_notice :: "room_store \<Rightarrow> room_store" where
  "dismiss_notice s = setRoomNotice JNull s"

text \<open>The login page warns of Brave's shields; the popup outside a problem offers the way to LeetCode.\<close>

definition shields_notice :: "jv \<Rightarrow> bool" where
  "shields_notice browser = strict_eq browser (JStr ''Brave'')"

definition popup_button :: "bool option \<Rightarrow> string option" where
  "popup_button isOnLeetCode =
     (if isOnLeetCode = Some True then None else Some ''https://leetcode.com/problems/two-sum/'')"

lemma profanity_choice_sent: "obj_lookup (room_body (with_profanity b options) code) ''profanityFilter'' = JBool b"
  by (simp add: room_body_def with_profanity_def obj_lookup_put)

lemma one_display: "\<exists>!tab. visible_display s tab"
  by (simp add: visible_display_def)

lemma dismissed_notice: "shown_notice (dismiss_notice s) = None"
  by (simp add: shown_notice_def dismiss_notice_def setRoomNotice_def)

lemma recently_label_keeps:
  "rc_selectedCompanies s \<noteq> [] \<or> \<not> rc_recentlyAsked s \<Longrightarrow>
     rc_selectedCompanies (recently_label s) \<noteq> [] \<or> \<not> rc_recentlyAsked (recently_label s)"
  by (auto simp: recently_label_def)

text \<open>The label of a topic is the one of its count for the difficulties chosen.\<close>

lemma topic_label_unknown: "map_of counts item = None \<Longrightarrow> topic_label counts item = item"
  by (simp add: topic_label_def)

end
