(* ===== verification/Rate_Limit.thy ===== *)
theory Rate_Limit
  imports Server_World
begin

text \<open>
  The rate limiter of the gateway (\<open>src/server/src/middleware/rate-limit.js\<close>): a counter in Redis for
  every caller and window, the middleware that rejects with status 429 and may refund a request, the
  limiters per endpoint, and the two limits that \<open>index.js\<close> mounts. The theorems relate it to the
  budget it promises: for a Redis that counts, each caller gets exactly its budget in each window.
\<close>

section \<open>The limiter\<close>

record rate_limiter =
  rl_windowSeconds :: int
  rl_burstSize :: int
  rl_keyPrefix :: string
  rl_skipSuccessfulRequests :: bool
  rl_skipFailedRequests :: bool

text \<open>The options of a constructor; \<open>None\<close> for a missing one.\<close>

record limit_options =
  lo_windowSeconds :: "int option"
  lo_burstSize :: "int option"
  lo_keyPrefix :: "string option"
  lo_skipSuccessfulRequests :: "bool option"
  lo_skipFailedRequests :: "bool option"

definition no_options :: limit_options where
  "no_options = \<lparr>lo_windowSeconds = None, lo_burstSize = None, lo_keyPrefix = None,
     lo_skipSuccessfulRequests = None, lo_skipFailedRequests = None\<rparr>"

text \<open>\<open>o || d\<close> on a number, a string and a flag\<close>

definition num_or :: "int option \<Rightarrow> int \<Rightarrow> int" where
  "num_or v d = (case v of None \<Rightarrow> d | Some n \<Rightarrow> if n \<noteq> 0 then n else d)"

definition str_or :: "string option \<Rightarrow> string \<Rightarrow> string" where
  "str_or v d = (case v of None \<Rightarrow> d | Some t \<Rightarrow> if t \<noteq> [] then t else d)"

definition flag_or :: "bool option \<Rightarrow> bool \<Rightarrow> bool" where
  "flag_or v d = (case v of None \<Rightarrow> d | Some b \<Rightarrow> b \<or> d)"

definition RateLimiter :: "limit_options \<Rightarrow> rate_limiter" where
  "RateLimiter opts = \<lparr>
     rl_windowSeconds = num_or (lo_windowSeconds opts) 1,
     rl_burstSize = num_or (lo_burstSize opts) 20,
     rl_keyPrefix = str_or (lo_keyPrefix opts) ''ratelimit:'',
     rl_skipSuccessfulRequests = flag_or (lo_skipSuccessfulRequests opts) False,
     rl_skipFailedRequests = flag_or (lo_skipFailedRequests opts) False\<rparr>"

definition getIdentifier :: "server_request \<Rightarrow> bool \<Rightarrow> string" where
  "getIdentifier req useUser =
     (if useUser \<and> truthy (sr_user req) then ''user:'' @ to_str (opt_get (sr_user req) ''id'')
      else ''ip:'' @ to_str (sr_ip req))"

definition window_index :: "rate_limiter \<Rightarrow> int \<Rightarrow> int" where
  "window_index rl now = now div (rl_windowSeconds rl * 1000)"

definition window_key :: "rate_limiter \<Rightarrow> string \<Rightarrow> int \<Rightarrow> string" where
  "window_key rl ident idx = rl_keyPrefix rl @ ident @ '':'' @ show_int idx"

text \<open>The object that \<open>checkLimit\<close> returns; \<open>Unchecked\<close> is \<open>{ allowed: true, error: true }\<close>.\<close>

record limit_count =
  lc_allowed :: bool
  lc_current :: int
  lc_key :: string
  lc_limit :: int
  lc_remaining :: int
  lc_resetAt :: int

datatype limit_result = Counted limit_count | Unchecked

definition allowed :: "limit_result \<Rightarrow> bool" where
  "allowed r = (case r of Counted c \<Rightarrow> lc_allowed c | Unchecked \<Rightarrow> True)"

definition checkLimit :: "rate_limiter \<Rightarrow> string \<Rightarrow> ('r server, limit_result) js" where
  "checkLimit rl ident = bnd (asks (\<lambda>s. window_index rl (sv_now s))) (\<lambda>idx.
     let key = window_key rl ident idx in
     catch
       (bnd (redis (\<lambda>c. rc_incr c key)) (\<lambda>current.
        seqm (when_do (current = 1) (redis (\<lambda>c. rc_expire c key (rl_windowSeconds rl))))
          (ret (Counted \<lparr>lc_allowed = current \<le> rl_burstSize rl, lc_current = current, lc_key = key,
             lc_limit = rl_burstSize rl, lc_remaining = max 0 (rl_burstSize rl - current),
             lc_resetAt = (idx + 1) * (rl_windowSeconds rl * 1000)\<rparr>))))
       (\<lambda>err. ret Unchecked))"

definition currentKey :: "rate_limiter \<Rightarrow> string \<Rightarrow> int \<Rightarrow> string" where
  "currentKey rl ident now = window_key rl ident (window_index rl now)"

definition reset :: "rate_limiter \<Rightarrow> string \<Rightarrow> ('r server, unit) js" where
  "reset rl ident = bnd (asks sv_now) (\<lambda>now. redis (\<lambda>c. rc_del c (currentKey rl ident now)))"

text \<open>\<open>parseInt(t, 10)\<close>\<close>

definition parse_int :: "string \<Rightarrow> jv" where
  "parse_int t =
     (let s = dropWhile js_space t;
          neg = (s \<noteq> [] \<and> hd s = CHR ''-'');
          u = (if s \<noteq> [] \<and> hd s \<in> {CHR ''-'', CHR ''+''} then tl s else s);
          ds = takeWhile is_digit u; n = int (read_digits 0 ds) in
      if ds = [] then JNaN else JNum (if neg then - n else n))"

definition counter_value :: "string option \<Rightarrow> jv" where
  "counter_value stored = parse_int (case stored of None \<Rightarrow> ''0'' | Some t \<Rightarrow> if t = [] then ''0'' else t)"

text \<open>\<open>getCount\<close>\<close>

definition limiter_getCount :: "rate_limiter \<Rightarrow> string \<Rightarrow> ('r server, jv) js" where
  "limiter_getCount rl ident = bnd (asks sv_now) (\<lambda>now.
     bnd (redis (\<lambda>c. rc_get c (currentKey rl ident now))) (\<lambda>stored. ret (counter_value stored)))"

lemma parse_int_show: "0 \<le> n \<Longrightarrow> parse_int (show_int n) = JNum n"
proof -
  assume n: "0 \<le> n"
  let ?t = "show_nat (nat n)"
  have d: "list_all is_digit ?t" by (rule show_nat_digits)
  obtain c cs where c: "?t = c # cs" by (cases ?t) auto
  then have "is_digit c" using d by simp
  then have "\<not> js_space c" "c \<noteq> CHR ''-''" "c \<noteq> CHR ''+''" by (auto simp: js_space_def is_digit_def Let_def)
  moreover have "takeWhile is_digit ?t = ?t" using d by (simp add: takeWhile_eq_all_conv list_all_iff)
  moreover have "read_digits 0 ?t = nat n" by (rule read_show_nat)
  ultimately show ?thesis using n c by (simp add: parse_int_def show_int_def Let_def)
qed

text \<open>The count of a caller is the text of its counter, and zero before its first request in a window.\<close>

lemma limiter_getCount_counter:
  assumes "rc_get (sv_client s) (currentKey rl ident (sv_now s)) (sv_redis s) = (Inr (map_option show_int n), d)"
    and "\<And>m. n = Some m \<Longrightarrow> 0 \<le> m"
  shows "limiter_getCount rl ident s = (Inr (JNum (case n of None \<Rightarrow> 0 | Some m \<Rightarrow> m)), s\<lparr>sv_redis := d\<rparr>)"
proof -
  have "show_int 0 = ''0''" by code_simp
  then have z: "parse_int ''0'' = JNum 0" using parse_int_show [of 0] by simp
  have "counter_value (map_option show_int n) = JNum (case n of None \<Rightarrow> 0 | Some m \<Rightarrow> m)"
    using assms(2) z by (cases n) (simp_all add: counter_value_def parse_int_show)
  then show ?thesis using assms(1) by (simp add: limiter_getCount_def bnd_def asks_def redis_def ret_def)
qed

section \<open>The middleware\<close>

definition limit_headers :: "limit_result \<Rightarrow> (string \<times> jv) list" where
  "limit_headers r =
     (case r of
        Unchecked \<Rightarrow> []
      | Counted c \<Rightarrow>
          if lc_limit c = 0 then []
          else [(''X-RateLimit-Limit'', JNum (lc_limit c)), (''X-RateLimit-Remaining'', JNum (max 0 (lc_remaining c))),
                (''X-RateLimit-Reset'', JNum (lc_resetAt c))])"

definition with_headers :: "(string \<times> jv) list \<Rightarrow> response \<Rightarrow> response" where
  "with_headers hs rp = rp\<lparr>rp_headers := hs @ rp_headers rp\<rparr>"

definition too_many :: "string \<Rightarrow> int \<Rightarrow> response" where
  "too_many msg retry = status_json 429 (JObj [(''status'', JStr ''error''), (''message'', JStr msg), (''retryAfter'', JNum retry)])"

text \<open>
  The wrapped \<open>res.json\<close>: a response that need not count gives its slot back, whatever becomes of that.
\<close>

definition refund :: "rate_limiter \<Rightarrow> limit_result \<Rightarrow> response \<Rightarrow> ('r server, unit) js" where
  "refund rl r rp =
     (case (r, rp_reply rp) of
        (Counted c, JsonReply v) \<Rightarrow>
          (let isError = rp_status rp \<ge> 400 in
           when_do (lc_key c \<noteq> [] \<and> (rl_skipSuccessfulRequests rl \<and> \<not> isError \<or> rl_skipFailedRequests rl \<and> isError))
             (catch (seqm (redis (\<lambda>cl. rc_decr cl (lc_key c))) (ret ())) (\<lambda>_. ret ())))
      | _ \<Rightarrow> ret ())"

text \<open>The limiter in front of the handlers behind it (\<open>next()\<close>).\<close>

definition limit_middleware ::
  "rate_limiter \<Rightarrow> (server_request \<Rightarrow> ('r server, response) js) \<Rightarrow> server_request \<Rightarrow> ('r server, response) js" where
  "limit_middleware rl handler req =
     bnd (checkLimit rl (getIdentifier req (truthy (sr_user req)))) (\<lambda>result.
       if \<not> allowed result then
         ret (with_headers (limit_headers result) (too_many ''Rate limit exceeded'' (rl_windowSeconds rl)))
       else bnd (handler req) (\<lambda>rp. seqm (refund rl result rp) (ret (with_headers (limit_headers result) rp))))"

text \<open>\<open>createRateLimitMiddleware\<close>: its own defaults, then the constructor's.\<close>

definition createRateLimit :: "limit_options \<Rightarrow> rate_limiter" where
  "createRateLimit opts = RateLimiter \<lparr>
     lo_windowSeconds = Some (num_or (lo_windowSeconds opts) 1),
     lo_burstSize = Some (num_or (lo_burstSize opts) 100),
     lo_keyPrefix = Some (str_or (lo_keyPrefix opts) ''ratelimit:''),
     lo_skipSuccessfulRequests = Some (flag_or (lo_skipSuccessfulRequests opts) False),
     lo_skipFailedRequests = Some (case lo_skipFailedRequests opts of None \<Rightarrow> True | Some b \<Rightarrow> b)\<rparr>"

text \<open>The limits of \<open>index.js\<close>.\<close>

definition authRateLimit :: rate_limiter where
  "authRateLimit = createRateLimit (no_options\<lparr>lo_burstSize := Some 120, lo_windowSeconds := Some 60,
     lo_keyPrefix := Some ''ratelimit:auth:'', lo_skipFailedRequests := Some False\<rparr>)"

definition globalRateLimit :: rate_limiter where
  "globalRateLimit = createRateLimit (no_options\<lparr>lo_burstSize := Some 600, lo_windowSeconds := Some 60,
     lo_keyPrefix := Some ''ratelimit:global:'', lo_skipFailedRequests := Some False\<rparr>)"

section \<open>Limits per endpoint\<close>

text \<open>The configuration of each endpoint, and the limiters made so far.\<close>

record endpoint_limiter =
  el_config :: "(string \<times> limit_options) list"
  el_default :: limit_options
  el_limiters :: "(string \<times> rate_limiter) list"

definition createPerEndpoint :: "(string \<times> limit_options) list \<Rightarrow> endpoint_limiter" where
  "createPerEndpoint endpointConfig = \<lparr>el_config = endpointConfig,
     el_default = (case map_of endpointConfig ''default'' of Some o1 \<Rightarrow> o1
                   | None \<Rightarrow> no_options\<lparr>lo_windowSeconds := Some 1, lo_burstSize := Some 100\<rparr>),
     el_limiters = []\<rparr>"

definition getLimiter :: "string \<Rightarrow> endpoint_limiter \<Rightarrow> rate_limiter \<times> endpoint_limiter" where
  "getLimiter endpoint el =
     (case map_of (el_limiters el) endpoint of
        Some rl \<Rightarrow> (rl, el)
      | None \<Rightarrow>
          (let rl = RateLimiter (case map_of (el_config el) endpoint of Some o1 \<Rightarrow> o1 | None \<Rightarrow> el_default el) in
           (rl, el\<lparr>el_limiters := (endpoint, rl) # el_limiters el\<rparr>)))"

definition endpoint_middleware ::
  "endpoint_limiter \<Rightarrow> (server_request \<Rightarrow> ('r server, response) js) \<Rightarrow> server_request \<Rightarrow>
   ('r server, response \<times> endpoint_limiter) js" where
  "endpoint_middleware el handler req =
     (let (rl, el') = getLimiter (sr_method req @ '':'' @ sr_path req) el in
      bnd (checkLimit rl (getIdentifier req (truthy (sr_user req)))) (\<lambda>result.
        if \<not> allowed result then
          ret (with_headers (limit_headers result) (too_many ''Rate limit exceeded for this endpoint'' (rl_windowSeconds rl)), el')
        else bnd (handler req) (\<lambda>rp. ret (with_headers (limit_headers result) rp, el'))))"

section \<open>Keys\<close>

lemma window_key_inj:
  "window_key rl a i = window_key rl b j \<longleftrightarrow> a = b \<and> i = j"
proof -
  have no: "CHR '':'' \<notin> set (rev (show_int n))" for n
    using show_nat_notin [of "CHR '':''"] by (auto simp: show_int_def is_digit_def Let_def)
  have "a @ '':'' @ show_int i = b @ '':'' @ show_int j \<longleftrightarrow>
      rev (show_int i) @ CHR '':'' # rev a = rev (show_int j) @ CHR '':'' # rev b"
    by (metis append_Cons append_Nil append_assoc rev.simps(2) rev_append rev_rev_ident)
  then show ?thesis
    unfolding window_key_def by (auto simp: append_sep_cancel [OF no no])
qed

text \<open>The two mounted limiters never share a counter.\<close>

lemma mounted_limiters_apart: "window_key authRateLimit a i \<noteq> window_key globalRateLimit b j"
  by (simp add: window_key_def authRateLimit_def globalRateLimit_def createRateLimit_def RateLimiter_def
      no_options_def num_or_def str_or_def flag_or_def)

lemma window_index_mono: "0 < rl_windowSeconds rl \<Longrightarrow> t \<le> t' \<Longrightarrow> window_index rl t \<le> window_index rl t'"
  by (simp add: window_index_def zdiv_mono1)

section \<open>The budget\<close>

text \<open>
  What the gateway relies on of Redis: \<open>INCR\<close> and \<open>DECR\<close> count the key they are given, and setting an
  expiry (which may fail) changes no count. \<open>v\<close> reads the counter of a key.
\<close>

definition counts :: "'r redis_client \<Rightarrow> ('r \<Rightarrow> string \<Rightarrow> int) \<Rightarrow> bool" where
  "counts c v \<longleftrightarrow>
     (\<forall>k d. fst (rc_incr c k d) = Inr (v d k + 1) \<and> v (snd (rc_incr c k d)) = (v d)(k := v d k + 1)) \<and>
     (\<forall>k d. fst (rc_decr c k d) = Inr (v d k - 1) \<and> v (snd (rc_decr c k d)) = (v d)(k := v d k - 1)) \<and>
     (\<forall>k n d. v (snd (rc_expire c k n d)) = v d)"

lemma redis_incr:
  assumes "counts (sv_client s) v"
  obtains d where "redis (\<lambda>c. rc_incr c k) s = (Inr (v (sv_redis s) k + 1), s\<lparr>sv_redis := d\<rparr>)"
    "v d = (v (sv_redis s))(k := v (sv_redis s) k + 1)"
proof
  let ?r = "rc_incr (sv_client s) k (sv_redis s)"
  show "redis (\<lambda>c. rc_incr c k) s = (Inr (v (sv_redis s) k + 1), s\<lparr>sv_redis := snd ?r\<rparr>)"
    using assms by (simp add: counts_def redis_def prod.case_eq_if)
  show "v (snd ?r) = (v (sv_redis s))(k := v (sv_redis s) k + 1)" using assms by (simp add: counts_def)
qed

lemma checkLimit_counts:
  fixes s :: "'r server" and ident
  assumes c: "counts (sv_client s) v" and b: "0 < rl_burstSize rl"
  defines "k \<equiv> currentKey rl ident (sv_now s)"
  obtains r d where "checkLimit rl ident s = (Inr r, s\<lparr>sv_redis := d\<rparr>)"
    "v d = (v (sv_redis s))(k := v (sv_redis s) k + 1)" "allowed r \<longleftrightarrow> v (sv_redis s) k < rl_burstSize rl"
    "r = Unchecked \<or> (\<exists>x. r = Counted x \<and> lc_key x = k)"
proof -
  obtain d where d: "redis (\<lambda>c. rc_incr c k) s = (Inr (v (sv_redis s) k + 1), s\<lparr>sv_redis := d\<rparr>)"
    "v d = (v (sv_redis s))(k := v (sv_redis s) k + 1)" by (rule redis_incr [OF c])
  let ?s = "s\<lparr>sv_redis := d\<rparr>" and ?n = "v (sv_redis s) k + 1"
  let ?e = "rc_expire (sv_client s) k (rl_windowSeconds rl) d"
  have e: "redis (\<lambda>c. rc_expire c k (rl_windowSeconds rl)) ?s = (fst ?e, s\<lparr>sv_redis := snd ?e\<rparr>)"
    by (simp add: redis_def prod.case_eq_if)
  have ve: "v (snd ?e) = v d" using c by (simp add: counts_def)
  have key: "window_key rl ident (window_index rl (sv_now s)) = k" by (simp add: k_def currentKey_def)
  show ?thesis
  proof (cases "?n = 1")
    case False
    with d b show ?thesis
      by (intro that [where d = d]) (auto simp: checkLimit_def Let_def key catch_def bnd_def allowed_def)
  next
    case True
    show ?thesis
    proof (cases "fst ?e")
      case (Inl x)
      with True d e ve b show ?thesis
        by (intro that [where d = "snd ?e" and r = Unchecked])
           (auto simp: checkLimit_def Let_def key catch_def bnd_def seqm_def allowed_def)
    next
      case (Inr x)
      with True d e ve b show ?thesis
        by (intro that [where d = "snd ?e"])
           (auto simp: checkLimit_def Let_def key catch_def bnd_def seqm_def allowed_def)
    qed
  qed
qed

text \<open>
  Requests of any callers in any order, while time passes and Redis drops counters of windows that are
  over. The log records each request with its caller, its window and the verdict.
\<close>

inductive limited ::
  "rate_limiter \<Rightarrow> ('r \<Rightarrow> string \<Rightarrow> int) \<Rightarrow> 'r server \<Rightarrow> (string \<times> int \<times> bool) list \<Rightarrow> 'r server \<Rightarrow> bool" for rl v s where
  limited_start: "limited rl v s [] s"
| limited_request: "limited rl v s log t \<Longrightarrow> checkLimit rl ident t = (Inr r, t') \<Longrightarrow>
    limited rl v s (log @ [(ident, window_index rl (sv_now t), allowed r)]) t'"
| limited_time: "limited rl v s log t \<Longrightarrow> sv_now t \<le> now \<Longrightarrow>
    (\<forall>ident idx. window_index rl now \<le> idx \<longrightarrow> v d (window_key rl ident idx) = v (sv_redis t) (window_key rl ident idx)) \<Longrightarrow>
    limited rl v s log (t\<lparr>sv_now := now, sv_redis := d\<rparr>)"

text \<open>How often a caller has asked in a window, and the verdicts that the budget promises.\<close>

definition used :: "string \<Rightarrow> int \<Rightarrow> (string \<times> int \<times> bool) list \<Rightarrow> int" where
  "used ident idx log = int (length (filter (\<lambda>(i, w, a). i = ident \<and> w = idx) log))"

fun within_budget :: "int \<Rightarrow> (string \<times> int \<times> bool) list \<Rightarrow> (string \<times> int \<times> bool) list \<Rightarrow> bool" where
  "within_budget b past [] = True"
| "within_budget b past ((i, w, a) # log) = (a = (used i w past < b) \<and> within_budget b (past @ [(i, w, a)]) log)"

lemma within_budget_snoc:
  "within_budget b past (log @ [(i, w, a)]) \<longleftrightarrow> within_budget b past log \<and> a = (used i w (past @ log) < b)"
  by (induction b past log rule: within_budget.induct) auto

lemma used_snoc: "used i w (log @ [(i', w', a)]) = used i w log + (if i' = i \<and> w' = w then 1 else 0)"
  by (simp add: used_def)

lemma limited_inv:
  assumes "limited rl v s log t" "counts (sv_client s) v" "0 < rl_burstSize rl" "0 < rl_windowSeconds rl"
    "v (sv_redis s) = (\<lambda>k. 0)"
  shows "sv_client t = sv_client s \<and> within_budget (rl_burstSize rl) [] log \<and>
    (\<forall>i w. window_index rl (sv_now t) \<le> w \<longrightarrow> v (sv_redis t) (window_key rl i w) = used i w log)"
  using assms
proof induction
  case limited_start
  then show ?case by (simp add: used_def)
next
  case (limited_request log t ident r t')
  note ih = limited_request.IH [OF limited_request.prems]
  let ?w = "window_index rl (sv_now t)"
  from ih limited_request.prems have "counts (sv_client t) v" by simp
  from checkLimit_counts [OF this, of rl ident] limited_request.prems
  obtain r1 d where step: "checkLimit rl ident t = (Inr r1, t\<lparr>sv_redis := d\<rparr>)"
    and v: "v d = (v (sv_redis t))(currentKey rl ident (sv_now t) := v (sv_redis t) (currentKey rl ident (sv_now t)) + 1)"
    and a: "allowed r1 \<longleftrightarrow> v (sv_redis t) (currentKey rl ident (sv_now t)) < rl_burstSize rl" by metis
  from step limited_request.hyps have eq: "r1 = r" "t' = t\<lparr>sv_redis := d\<rparr>" by auto
  have k: "v (sv_redis t) (currentKey rl ident (sv_now t)) = used ident ?w log"
    using ih by (simp add: currentKey_def)
  show ?case
    using ih v a unfolding eq by (auto simp: within_budget_snoc used_snoc k currentKey_def window_key_inj)
next
  case (limited_time log t now d)
  note ih = limited_time.IH [OF limited_time.prems]
  have "window_index rl (sv_now t) \<le> window_index rl now"
    using limited_time by (simp add: window_index_mono)
  with ih limited_time.hyps show ?case by (auto dest: order_trans)
qed

text \<open>
  C11: a caller gets exactly its budget in each window: whatever the callers, their order and the times, and
  even when Redis fails to set the expiry of a counter, a request is let through exactly when its caller
  has made fewer requests than the budget in the same window.
\<close>

theorem budget_is_exact:
  assumes "limited rl v s log t" "counts (sv_client s) v" "0 < rl_burstSize rl" "0 < rl_windowSeconds rl"
    "v (sv_redis s) = (\<lambda>k. 0)"
  shows "within_budget (rl_burstSize rl) [] log"
  using limited_inv [OF assms] by blast

lemma demo_counts: "counts demo_client dr_counts"
  by (simp add: counts_def demo_client_def)

lemma demo_check:
  "sv_client s = demo_client \<Longrightarrow> \<exists>r d. checkLimit rl ident s = (Inr r, s\<lparr>sv_redis := d\<rparr>) \<and>
     allowed r = (dr_counts (sv_redis s) (currentKey rl ident (sv_now s)) < rl_burstSize rl) \<and>
     dr_counts d = (dr_counts (sv_redis s))(currentKey rl ident (sv_now s) :=
       dr_counts (sv_redis s) (currentKey rl ident (sv_now s)) + 1)"
  if "0 < rl_burstSize rl"
  using checkLimit_counts [OF _ that, of s dr_counts ident] demo_counts by metis

definition one_a_minute :: rate_limiter where
  "one_a_minute = RateLimiter (no_options\<lparr>lo_burstSize := Some 1, lo_windowSeconds := Some 60\<rparr>)"

theorem budget_is_exact_witness:
  "within_budget 1 [] [(''user:7'', 0, True), (''user:7'', 0, False), (''user:8'', 0, True)] \<and>
   (\<exists>t. limited one_a_minute dr_counts (demo_server (\<lambda>_ _. Answer 503 []))
      [(''user:7'', 0, True), (''user:7'', 0, False), (''user:8'', 0, True)] t)"
proof -
  let ?rl = one_a_minute and ?s = "demo_server (\<lambda>_ _. Answer 503 [])"
  have b: "0 < rl_burstSize ?rl" "rl_burstSize ?rl = 1" "0 < rl_windowSeconds ?rl"
    by (simp_all add: one_a_minute_def RateLimiter_def no_options_def num_or_def)
  have c0: "sv_client ?s = demo_client" "dr_counts (sv_redis ?s) = (\<lambda>k. 0)" "window_index ?rl (sv_now ?s) = 0" "sv_now ?s = 0"
    by (simp_all add: demo_server_def window_index_def)
  have i: "window_index ?rl 0 = 0" by (simp add: window_index_def)
  note check = demo_check [OF b(1)]
  obtain r1 d1 where 1: "checkLimit ?rl ''user:7'' ?s = (Inr r1, ?s\<lparr>sv_redis := d1\<rparr>)" "allowed r1"
    "dr_counts d1 = (\<lambda>k. 0)(currentKey ?rl ''user:7'' 0 := 1)"
    using check [of ?s "''user:7''"] c0 b by auto
  let ?s1 = "?s\<lparr>sv_redis := d1\<rparr>"
  obtain r2 d2 where 2: "checkLimit ?rl ''user:7'' ?s1 = (Inr r2, ?s\<lparr>sv_redis := d2\<rparr>)" "\<not> allowed r2"
    "dr_counts d2 = (\<lambda>k. 0)(currentKey ?rl ''user:7'' 0 := 2)"
    using check [of ?s1 "''user:7''"] c0 b 1(3) by auto
  let ?s2 = "?s\<lparr>sv_redis := d2\<rparr>"
  have other: "currentKey ?rl ''user:8'' 0 \<noteq> currentKey ?rl ''user:7'' 0" by (simp add: currentKey_def window_key_inj)
  obtain r3 d3 where 3: "checkLimit ?rl ''user:8'' ?s2 = (Inr r3, ?s\<lparr>sv_redis := d3\<rparr>)" "allowed r3"
    using check [of ?s2 "''user:8''"] c0 b 2(3) other by auto
  have "limited ?rl dr_counts ?s ((([] @ [(''user:7'', window_index ?rl (sv_now ?s), allowed r1)]) @
      [(''user:7'', window_index ?rl (sv_now ?s1), allowed r2)]) @ [(''user:8'', window_index ?rl (sv_now ?s2), allowed r3)])
      (?s\<lparr>sv_redis := d3\<rparr>)"
    by (intro limited_request limited_start 1(1) 2(1) 3(1))
  then have l: "limited ?rl dr_counts ?s [(''user:7'', 0, True), (''user:7'', 0, False), (''user:8'', 0, True)] (?s\<lparr>sv_redis := d3\<rparr>)"
    using 1(2) 2(2) 3(2) c0 by (simp add: i)
  from budget_is_exact [OF l _ b(1,3)] demo_counts c0 b(2) l show ?thesis by auto
qed

text \<open>
  The limiter fails open: when Redis cannot count, every request reaches its handler and gets the
  handler's own response or error, with no header added.
\<close>

theorem limiter_fails_open:
  assumes "\<And>k d. \<exists>e. rc_incr (sv_client s) k d = (Inl e, d)"
  shows "limit_middleware rl handler req s = handler req s"
proof -
  have "checkLimit rl ident s = (Inr Unchecked, s)" for ident
    using assms [of "window_key rl ident (window_index rl (sv_now s))" "sv_redis s"]
    by (auto simp: checkLimit_def Let_def catch_def bnd_def redis_def)
  then show ?thesis
    by (auto simp: limit_middleware_def bnd_def allowed_def refund_def limit_headers_def with_headers_def
        split: prod.split sum.split)
qed

theorem limiter_fails_open_witness:
  defines "s \<equiv> (demo_server (\<lambda>_ _. Answer 503 []))\<lparr>sv_client := demo_client\<lparr>rc_incr := (\<lambda>k d. (Inl syntax_error, d))\<rparr>\<rparr>"
  shows "limit_middleware authRateLimit (\<lambda>req. ret (send_json JNull)) (demo_request ''/user'' JUndef) s = (Inr (send_json JNull), s)"
  using limiter_fails_open [of s authRateLimit "\<lambda>req. ret (send_json JNull)" "demo_request ''/user'' JUndef"]
  by (simp add: s_def)

section \<open>Refunds, and limits per endpoint\<close>

text \<open>With \<open>skipFailedRequests\<close> a request that fails with a JSON response costs nothing.\<close>

lemma failed_requests_refunded:
  assumes c: "counts (sv_client s) v" and b: "0 < rl_burstSize rl" "rl_skipFailedRequests rl" "rl_keyPrefix rl \<noteq> []"
    and h: "handler req = (\<lambda>t. (Inr rp, t))" "rp_reply rp = JsonReply x" "400 \<le> rp_status rp"
    and e: "\<And>k n d. fst (rc_expire (sv_client s) k n d) = Inr ()"
  shows "v (sv_redis (snd (limit_middleware rl handler req s))) = v (sv_redis s) \<or>
    rp_status (projr (fst (limit_middleware rl handler req s))) = 429"
proof -
  let ?i = "getIdentifier req (truthy (sr_user req))"
  let ?k = "currentKey rl ?i (sv_now s)"
  from checkLimit_counts [OF c b(1), of ?i] obtain r d where
    s: "checkLimit rl ?i s = (Inr r, s\<lparr>sv_redis := d\<rparr>)" "v d = (v (sv_redis s))(?k := v (sv_redis s) ?k + 1)"
    and k: "r = Unchecked \<or> (\<exists>y. r = Counted y \<and> lc_key y = ?k)" by metis
  have "r \<noteq> Unchecked"
  proof
    assume "r = Unchecked"
    with s(1) c e show False
      by (auto simp: checkLimit_def Let_def catch_def bnd_def seqm_def redis_def counts_def when_do_def ret_def
          split: prod.splits sum.splits if_splits) (metis Inl_Inr_False fst_conv)+
  qed
  with k obtain y where y: "r = Counted y" "lc_key y = ?k" by blast
  have ne: "?k \<noteq> []" using b(3) by (simp add: currentKey_def window_key_def)
  obtain z where z: "rc_decr (sv_client s) ?k d = (Inr (v d ?k - 1), z)" "v z = (v d)(?k := v d ?k - 1)"
    using c by (metis counts_def prod.collapse)
  show ?thesis
  proof (cases "allowed r")
    case False
    with s show ?thesis by (simp add: limit_middleware_def bnd_def too_many_def with_headers_def status_json_def)
  next
    case True
    with s y ne z h b show ?thesis
      by (simp add: limit_middleware_def bnd_def refund_def redis_def seqm_def catch_def when_do_def)
  qed
qed

text \<open>
  The limiters of two endpoints count into the same key when their configurations name no prefix, so the
  requests to one endpoint use up the budget of the other.
\<close>

lemma endpoints_share_counters:
  assumes "lo_keyPrefix o1 = None" "lo_keyPrefix o2 = None" "lo_windowSeconds o1 = lo_windowSeconds o2"
  shows "currentKey (RateLimiter o1) ident now = currentKey (RateLimiter o2) ident now"
  using assms by (simp add: currentKey_def window_key_def window_index_def RateLimiter_def)

end
