(* ===== verification/Request_Checks.thy ===== *)
theory Request_Checks
  imports Server_World Machine
begin

text \<open>
  The checks of \<open>src/server/src/middleware/logging.js\<close> on requests: the validation of the content type
  and of the payload size, and the in-process limiter over a sliding window with its periodic sweep.
\<close>

section \<open>Validation\<close>

definition header :: "server_request \<Rightarrow> string \<Rightarrow> jv" where
  "header req k = obj_lookup (sr_headers req) k"

text \<open>\<open>contentType && contentType.includes('application/json')\<close>; header values are strings.\<close>

definition is_json_type :: "jv \<Rightarrow> bool" where
  "is_json_type v = (truthy v \<and> str_includes (to_str v) ''application/json'')"

definition has_content :: "server_request \<Rightarrow> bool" where
  "has_content req =
     (let contentLength = header req ''content-length'' in
      truthy contentLength \<and> js_gt contentLength (JNum 0) \<or> truthy (sr_body req))"

definition validation_middleware ::
  "(server_request \<Rightarrow> ('r server, response) js) \<Rightarrow> server_request \<Rightarrow> ('r server, response) js" where
  "validation_middleware handler req =
     (if sr_method req \<in> {''POST'', ''PUT''} \<and> has_content req \<and> \<not> is_json_type (header req ''content-type'')
      then ret (error_json 400 ''Invalid Content-Type. Expected application/json'')
      else handler req)"

definition maxSize :: nat where
  "maxSize = 1048576"

text \<open>The listener on \<open>data\<close>: the size received so far and the answer when it is too large.\<close>

definition on_data :: "nat \<Rightarrow> nat \<Rightarrow> nat \<times> response option" where
  "on_data chunk received =
     (let received' = received + chunk in
      (received', if received' > maxSize then Some (error_json 413 ''Payload too large'') else None))"

section \<open>The sliding window\<close>

text \<open>\<open>sw_accepted\<close> is a history variable: every request let through with its time, the newest last.\<close>

record sliding =
  sw_requests :: "string \<rightharpoonup> int list"
  sw_now :: int
  sw_accepted :: "(string \<times> int) list"

datatype sliding_event = Passes nat | Sweep | Asks string

definition slidingInit :: "int \<Rightarrow> sliding" where
  "slidingInit t = \<lparr>sw_requests = Map.empty, sw_now = t, sw_accepted = []\<rparr>"

definition active :: "int \<Rightarrow> int \<Rightarrow> int list \<Rightarrow> int list" where
  "active timeWindow now ts = filter (\<lambda>time. now - time < timeWindow) ts"

definition sweep :: "int \<Rightarrow> sliding \<Rightarrow> sliding" where
  "sweep timeWindow s = s\<lparr>sw_requests := (\<lambda>ip. case sw_requests s ip of
       None \<Rightarrow> None
     | Some ts \<Rightarrow> (let a = active timeWindow (sw_now s) ts in if a = [] then None else Some a))\<rparr>"

text \<open>The middleware: the state after the request and whether it was let through.\<close>

definition sliding_request :: "int \<Rightarrow> int \<Rightarrow> string \<Rightarrow> sliding \<Rightarrow> bool \<times> sliding" where
  "sliding_request timeWindow limit clientIP s =
     (let requests = (case sw_requests s clientIP of None \<Rightarrow> [] | Some ts \<Rightarrow> ts);
          validRequests = active timeWindow (sw_now s) requests in
      if int (length validRequests) \<ge> limit then
        (False, s\<lparr>sw_requests := (sw_requests s)(clientIP \<mapsto> validRequests)\<rparr>)
      else (True, s\<lparr>sw_requests := (sw_requests s)(clientIP \<mapsto> validRequests @ [sw_now s]),
                    sw_accepted := sw_accepted s @ [(clientIP, sw_now s)]\<rparr>))"

fun sliding_step :: "int \<Rightarrow> int \<Rightarrow> sliding_event \<Rightarrow> sliding \<Rightarrow> sliding" where
  "sliding_step W lim (Passes d) s = s\<lparr>sw_now := sw_now s + int d\<rparr>"
| "sliding_step W lim Sweep s = sweep W s"
| "sliding_step W lim (Asks ip) s = snd (sliding_request W lim ip s)"

text \<open>The times of the accepted requests of a caller, and those in the window that ends at \<open>t\<close>.\<close>

definition times_of :: "string \<Rightarrow> sliding \<Rightarrow> int list" where
  "times_of ip s = map snd (filter (\<lambda>p. fst p = ip) (sw_accepted s))"

definition in_window :: "int \<Rightarrow> int \<Rightarrow> int list \<Rightarrow> int list" where
  "in_window W t ts = filter (\<lambda>u. t - W < u \<and> u \<le> t) ts"

text \<open>
  The record of a caller agrees with the history on everything that is still in the window, nothing in
  the history is in the future, and no window holds more than the limit.
\<close>

definition sliding_inv :: "int \<Rightarrow> int \<Rightarrow> sliding \<Rightarrow> bool" where
  "sliding_inv W lim s \<longleftrightarrow>
     (\<forall>ip. active W (sw_now s) (case sw_requests s ip of None \<Rightarrow> [] | Some ts \<Rightarrow> ts) = active W (sw_now s) (times_of ip s)) \<and>
     (\<forall>ip. \<forall>u \<in> set (times_of ip s). u \<le> sw_now s) \<and>
     (\<forall>ip t. int (length (in_window W t (times_of ip s))) \<le> lim)"

lemma active_active: "now \<le> now' \<Longrightarrow> active W now' (active W now ts) = active W now' ts"
  unfolding active_def filter_filter by (rule filter_cong) auto

lemma in_window_le_active:
  assumes "\<forall>u \<in> set ts. u \<le> now" "now \<le> t"
  shows "length (in_window W t ts) \<le> length (active W now ts)"
proof -
  have "in_window W t ts = filter (\<lambda>u. t - W < u) (active W now ts)"
    unfolding in_window_def active_def filter_filter using assms by (intro filter_cong) auto
  then show ?thesis by simp
qed

lemma in_window_app: "in_window W t (xs @ ys) = in_window W t xs @ in_window W t ys"
  by (simp add: in_window_def)

lemma sliding_inv_init: "0 \<le> lim \<Longrightarrow> sliding_inv W lim (slidingInit t)"
  by (simp add: sliding_inv_def slidingInit_def times_of_def in_window_def)

lemma sliding_inv_passes:
  assumes "sliding_inv W lim s"
  shows "sliding_inv W lim (s\<lparr>sw_now := sw_now s + int d\<rparr>)"
proof -
  let ?n = "sw_now s + int d"
  have "active W ?n (case sw_requests s ip of None \<Rightarrow> [] | Some ts \<Rightarrow> ts) = active W ?n (times_of ip s)" for ip
    using assms active_active [of "sw_now s" ?n W] by (metis sliding_inv_def le_add_same_cancel1 of_nat_0_le_iff)
  moreover have "times_of ip (s\<lparr>sw_now := ?n\<rparr>) = times_of ip s" for ip by (simp add: times_of_def)
  ultimately show ?thesis using assms by (fastforce simp: sliding_inv_def)
qed

lemma sliding_inv_sweep: "sliding_inv W lim s \<Longrightarrow> sliding_inv W lim (sweep W s)"
proof -
  assume s: "sliding_inv W lim s"
  have t: "times_of ip (sweep W s) = times_of ip s" for ip by (simp add: times_of_def sweep_def)
  have "active W (sw_now s) (case sw_requests (sweep W s) ip of None \<Rightarrow> [] | Some ts \<Rightarrow> ts) =
      active W (sw_now s) (case sw_requests s ip of None \<Rightarrow> [] | Some ts \<Rightarrow> ts)" for ip
    using active_active [of "sw_now s" "sw_now s" W]
    by (auto simp: sweep_def Let_def split: option.split) (simp add: active_def)
  with s t show ?thesis by (simp add: sliding_inv_def) (simp add: sweep_def)
qed

lemma sliding_inv_asks: "0 < W \<Longrightarrow> sliding_inv W lim s \<Longrightarrow> sliding_inv W lim (snd (sliding_request W lim ip s))"
proof -
  assume W: "0 < W" and s: "sliding_inv W lim s"
  let ?now = "sw_now s"
  let ?rec = "\<lambda>s i. case sw_requests s i of None \<Rightarrow> [] | Some ts \<Rightarrow> ts"
  let ?valid = "active W ?now (?rec s ip)"
  have agree: "active W ?now (?rec s i) = active W ?now (times_of i s)" for i
    using s by (simp add: sliding_inv_def)
  have past: "\<forall>u \<in> set (times_of i s). u \<le> ?now" for i
    using s by (simp add: sliding_inv_def)
  have bound: "int (length (in_window W t (times_of i s))) \<le> lim" for i t
    using s by (simp add: sliding_inv_def)
  have idem: "active W ?now ?valid = ?valid" by (simp add: active_def)
  show ?thesis
  proof (cases "int (length ?valid) \<ge> lim")
    case True
    let ?s = "s\<lparr>sw_requests := (sw_requests s)(ip \<mapsto> ?valid)\<rparr>"
    have "times_of i ?s = times_of i s" for i by (simp add: times_of_def)
    moreover have "active W ?now (?rec ?s i) = active W ?now (times_of i s)" for i
      using agree [of i] idem by (cases "i = ip") simp_all
    ultimately have "sliding_inv W lim ?s" using past bound by (simp add: sliding_inv_def)
    then show ?thesis using True by (simp add: sliding_request_def Let_def)
  next
    case False
    let ?s = "s\<lparr>sw_requests := (sw_requests s)(ip \<mapsto> ?valid @ [?now]), sw_accepted := sw_accepted s @ [(ip, ?now)]\<rparr>"
    have t: "times_of i ?s = times_of i s @ (if i = ip then [?now] else [])" for i by (simp add: times_of_def)
    have here: "active W ?now [?now] = [?now]" using W by (simp add: active_def)
    have app: "active W ?now (xs @ ys) = active W ?now xs @ active W ?now ys" for xs ys by (simp add: active_def)
    have "active W ?now (?rec ?s i) = active W ?now (times_of i ?s)" for i
      unfolding t using agree [of i] idem here by (cases "i = ip") (simp_all add: app)
    moreover have "\<forall>u \<in> set (times_of i ?s). u \<le> ?now" for i
      unfolding t using past by auto
    moreover have "int (length (in_window W u (times_of i ?s))) \<le> lim" for i u
    proof (cases "i = ip \<and> ?now \<le> u")
      case True
      have "length (in_window W u (times_of ip s)) \<le> length ?valid"
        using in_window_le_active [OF past, of u W ip] agree [of ip] True by simp
      moreover have "length (in_window W u [?now]) \<le> 1" by (simp add: in_window_def)
      ultimately have "length (in_window W u (times_of ip ?s)) \<le> length ?valid + 1"
        using True by (simp only: t in_window_app length_append) simp
      then show ?thesis using False True by simp
    next
      case no: False
      then have "in_window W u (times_of i ?s) = in_window W u (times_of i s)"
        unfolding t by (auto simp: in_window_app) (simp_all add: in_window_def)
      then show ?thesis using bound by simp
    qed
    ultimately have "sliding_inv W lim ?s" by (simp add: sliding_inv_def)
    then show ?thesis using False by (simp add: sliding_request_def Let_def)
  qed
qed

interpretation sliding: guarded_machine "\<lambda>e. 0 < W" "sliding_step W lim" "sliding_inv W lim" for W lim
proof
  fix e s
  assume "0 < W" "sliding_inv W lim s"
  then show "sliding_inv W lim (sliding_step W lim e s)"
    by (cases e) (simp_all add: sliding_inv_passes sliding_inv_sweep sliding_inv_asks)
qed

text \<open>
  C17: the sliding window holds: however requests, sweeps and the passing of time interleave, no stretch of
  the length of the window contains more requests of one caller that were let through than the limit.
\<close>

theorem sliding_window_holds:
  assumes "0 < W" "0 \<le> lim"
  shows "int (length (in_window W t (times_of ip (run (sliding_step W lim) es (slidingInit start))))) \<le> lim"
  using sliding.inv_run_guarded [of es W lim "slidingInit start"] sliding_inv_init [OF assms(2), of W start] assms(1)
  by (simp add: sliding_inv_def)

theorem sliding_window_holds_witness:
  "times_of ''a'' (run (sliding_step 60 1) [Asks ''a'', Passes 10, Asks ''a'', Sweep, Passes 60, Asks ''a''] (slidingInit 0)) = [0, 70] \<and>
   length (in_window 60 70 (times_of ''a'' (run (sliding_step 60 1) [Asks ''a'', Passes 10, Asks ''a'', Sweep, Passes 60, Asks ''a''] (slidingInit 0)))) \<le> 1"
proof
  show "times_of ''a'' (run (sliding_step 60 1) [Asks ''a'', Passes 10, Asks ''a'', Sweep, Passes 60, Asks ''a''] (slidingInit 0)) = [0, 70]"
    by (simp add: slidingInit_def sliding_request_def sweep_def active_def times_of_def Let_def)
  show "length (in_window 60 70 (times_of ''a'' (run (sliding_step 60 1) [Asks ''a'', Passes 10, Asks ''a'', Sweep, Passes 60, Asks ''a''] (slidingInit 0)))) \<le> 1"
    using sliding_window_holds [of 60 1 70 "''a''" "[Asks ''a'', Passes 10, Asks ''a'', Sweep, Passes 60, Asks ''a'']" 0] by simp
qed

end
