(* ===== verification/Gateway_App.thy ===== *)
theory Gateway_App
  imports Rate_Limit Request_Checks Submission Accounts Room_Init
begin

text \<open>
  The gateway as a whole (\<open>src/server/src/index.js\<close>): its routes with their paths and order, the middlewares in
  front of them, the start, and the structured logger of \<open>middleware/logging.js\<close>. Of Express the model uses what
  it documents: a mounted router gets the paths below its mount, a segment \<open>:id\<close> matches one segment, and the
  first route registered for the method and the path answers. Paths are compared exactly, up to one trailing
  slash. The routes that Passport serves are a parameter, and so is the answer to an unknown path.
\<close>

section \<open>Routes and paths\<close>

datatype path_segment = Lit string | Param

datatype app_route = Forward route | Submit | AuthUser | Logout | Connect | ConnectStatus | ConnectCallback
  | Done | Passport string | Health

text \<open>The segments of a path.\<close>

definition path_segments :: "string \<Rightarrow> string list" where
  "path_segments p =
     (let s = split_on CHR ''/'' p; t = (if s \<noteq> [] \<and> hd s = [] then tl s else s) in
      if t \<noteq> [] \<and> last t = [] then butlast t else t)"

fun match_segments :: "path_segment list \<Rightarrow> string list \<Rightarrow> string list option" where
  "match_segments [] [] = Some []"
| "match_segments (Lit l # ps) (s # ss) = (if l = s then match_segments ps ss else None)"
| "match_segments (Param # ps) (s # ss) =
     (if s = [] then None else map_option (\<lambda>ids. s # ids) (match_segments ps ss))"
| "match_segments _ _ = None"

definition auth_table :: "(string \<times> path_segment list \<times> app_route) list" where
  "auth_table =
     [(''GET'', [Lit ''auth'', Lit ''google''], Passport ''google''),
      (''GET'', [Lit ''auth'', Lit ''google'', Lit ''callback''], Passport ''google/callback''),
      (''GET'', [Lit ''auth'', Lit ''done''], Done),
      (''GET'', [Lit ''auth'', Lit ''user''], AuthUser),
      (''POST'', [Lit ''auth'', Lit ''logout''], Logout),
      (''GET'', [Lit ''auth'', Lit ''github''], Passport ''github''),
      (''GET'', [Lit ''auth'', Lit ''github'', Lit ''connect''], Connect),
      (''GET'', [Lit ''auth'', Lit ''github'', Lit ''connect'', Lit ''status''], ConnectStatus),
      (''GET'', [Lit ''auth'', Lit ''github'', Lit ''callback'', Lit ''connect''], ConnectCallback),
      (''GET'', [Lit ''auth'', Lit ''github'', Lit ''callback''], Passport ''github/callback'')]"

definition rooms_table :: "(string \<times> path_segment list \<times> app_route) list" where
  "rooms_table =
     [(''POST'', [Lit ''rooms''], Forward PostRoom),
      (''GET'', [Lit ''rooms'', Param, Lit ''participants''], Forward GetParticipants),
      (''POST'', [Lit ''rooms'', Param, Lit ''rounds'', Lit ''create''], Forward PostRoundCreate),
      (''POST'', [Lit ''rooms'', Param, Lit ''rounds'', Lit ''time''], Forward PostRoundTime),
      (''POST'', [Lit ''rooms'', Param, Lit ''start''], Forward PostStart),
      (''POST'', [Lit ''rooms'', Param, Lit ''join''], Forward PostJoin),
      (''GET'', [Lit ''rooms'', Lit ''active''], Forward GetActive),
      (''GET'', [Lit ''rooms'', Param], Forward GetRoom),
      (''POST'', [Lit ''rooms'', Param, Lit ''leave''], Forward PostLeave),
      (''POST'', [Lit ''rooms'', Param, Lit ''end''], Forward PostEnd),
      (''GET'', [Lit ''rooms'', Param, Lit ''leaderboard''], Forward GetLeaderboard),
      (''GET'', [Lit ''rooms'', Param, Lit ''round-details''], Forward GetRoundDetails)]"

definition problems_table :: "(string \<times> path_segment list \<times> app_route) list" where
  "problems_table =
     [(''GET'', [Lit ''problems'', Lit ''tags''], Forward GetTags),
      (''GET'', [Lit ''problems'', Lit ''companies''], Forward GetCompanies),
      (''GET'', [Lit ''problems'', Lit ''list''], Forward GetList),
      (''GET'', [Lit ''problems'', Lit ''count''], Forward GetCount)]"

definition other_table :: "(string \<times> path_segment list \<times> app_route) list" where
  "other_table =
     [(''POST'', [Lit ''submission''], Submit),
      (''GET'', [Lit ''statistics'', Param], Forward GetStatistics),
      (''GET'', [Lit ''health''], Health)]"

text \<open>The routes behind the global limiter, in the order of \<open>index.js\<close>.\<close>

definition global_table :: "(string \<times> path_segment list \<times> app_route) list" where
  "global_table = rooms_table @ problems_table @ other_table"

fun find_route :: "(string \<times> path_segment list \<times> app_route) list \<Rightarrow> string \<Rightarrow> string list \<Rightarrow> (app_route \<times> string list) option" where
  "find_route [] verb segs = None"
| "find_route ((v, p, r) # rest) verb segs =
     (if v = verb then (case match_segments p segs of Some ids \<Rightarrow> Some (r, ids) | None \<Rightarrow> find_route rest verb segs)
      else find_route rest verb segs)"

section \<open>The application\<close>

text \<open>The health check, given whether the Redis client is ready and the time as a text.\<close>

definition health :: "bool \<Rightarrow> string \<Rightarrow> response" where
  "health isReady now = status_json 200 (JObj [(''status'', JStr ''ok''),
     (''redis'', JStr (if isReady then ''ok'' else ''not ready'')), (''timestamp'', JStr now)])"

text \<open>What is not modelled: Passport's routes, Express's 404, the texts of the two result pages, and the clock's text.\<close>

record 'r outside =
  os_passport :: "string \<Rightarrow> server_request \<Rightarrow> ('r server, response) js"
  os_authorize :: "server_request \<Rightarrow> ('r server, response) js"
  os_linkedPage :: string
  os_failedPage :: string
  os_missing :: "server_request \<Rightarrow> response"
  os_ready :: bool
  os_time :: "int \<Rightarrow> string"

definition done_page :: "'r outside \<Rightarrow> server_request \<Rightarrow> response" where
  "done_page os req = status_send 200
     (if truthy (obj_lookup (sr_query req) ''error'') then os_failedPage os else os_linkedPage os)"

fun answer_route :: "'r outside \<Rightarrow> app_route \<Rightarrow> server_request \<Rightarrow> ('r server, response) js" where
  "answer_route os (Forward r) req = serve r req"
| "answer_route os Submit req = submit_solution req"
| "answer_route os AuthUser req = ret (get_user req)"
| "answer_route os Logout req = post_logout req"
| "answer_route os Connect req = get_connect (os_authorize os) req"
| "answer_route os ConnectStatus req = get_connect_status req"
| "answer_route os ConnectCallback req = connect_callback req"
| "answer_route os Done req = ret (done_page os req)"
| "answer_route os (Passport p) req = os_passport os p req"
| "answer_route os Health req = bnd (asks (\<lambda>s. health (os_ready os) (os_time os (sv_now s)))) ret"

text \<open>A table of routes in front of what comes after it (\<open>next()\<close>); the first parameter of the path is \<open>:id\<close>.\<close>

definition routed :: "'r outside \<Rightarrow> (string \<times> path_segment list \<times> app_route) list \<Rightarrow>
    (server_request \<Rightarrow> ('r server, response) js) \<Rightarrow> server_request \<Rightarrow> ('r server, response) js" where
  "routed os table after req =
     (case find_route table (sr_method req) (path_segments (sr_path req)) of
        Some (r, ids) \<Rightarrow> answer_route os r (req\<lparr>sr_id := (case ids of [] \<Rightarrow> [] | i # _ \<Rightarrow> i)\<rparr>)
      | None \<Rightarrow> after req)"

definition global_app :: "'r outside \<Rightarrow> server_request \<Rightarrow> ('r server, response) js" where
  "global_app os = limit_middleware globalRateLimit (routed os global_table (\<lambda>req. ret (os_missing os req)))"

definition under_auth :: "server_request \<Rightarrow> bool" where
  "under_auth req \<longleftrightarrow> (case path_segments (sr_path req) of s # _ \<Rightarrow> s = ''auth'' | [] \<Rightarrow> False)"

definition app :: "'r outside \<Rightarrow> server_request \<Rightarrow> ('r server, response) js" where
  "app os = validation_middleware (\<lambda>req.
     if under_auth req then limit_middleware authRateLimit (routed os auth_table (global_app os)) req
     else global_app os req)"

section \<open>The start\<close>

text \<open>\<open>connectToRedis\<close>: the client connects or rejects; connected but not ready is a failure too.\<close>

definition connectToRedis :: "jv + unit \<Rightarrow> bool \<Rightarrow> jv + unit" where
  "connectToRedis connect isReady =
     (case connect of
        Inl e \<Rightarrow> Inl e
      | Inr _ \<Rightarrow> if isReady then Inr () else Inl (mk_error ''Error'' ''Redis client is not ready after connect''))"

record session_cookie =
  ck_maxAge :: int
  ck_httpOnly :: bool
  ck_secure :: bool
  ck_sameSite :: string

record server_options =
  so_trustProxy :: "int option"
  so_cookie :: session_cookie
  so_rolling :: bool
  so_port :: int

definition server_options :: "jv \<Rightarrow> server_options" where
  "server_options node_env =
     (let isProduction = strict_eq node_env (JStr ''production'') in
      \<lparr>so_trustProxy = (if isProduction then Some 1 else None),
       so_cookie = \<lparr>ck_maxAge = 3600000, ck_httpOnly = True, ck_secure = isProduction, ck_sameSite = ''lax''\<rparr>,
       so_rolling = True, so_port = 3000\<rparr>)"

text \<open>The server listens only when the store could be made.\<close>

definition startServer :: "jv \<Rightarrow> jv + unit \<Rightarrow> bool \<Rightarrow> jv + server_options" where
  "startServer node_env connect isReady =
     (case connectToRedis connect isReady of Inl e \<Rightarrow> Inl e | Inr _ \<Rightarrow> Inr (server_options node_env))"

definition allowedOrigins :: "jv \<Rightarrow> string list" where
  "allowedOrigins env =
     [''chrome-extension://'' @ to_str (js_or env (JStr ''mnllpknljobnjmbaognpclblmpfcllmc'')), ''https://leetcode.com'']"

section \<open>Logging\<close>

datatype log_level = DEBUG | INFO | WARN | ERROR

fun level_str :: "log_level \<Rightarrow> string" where
  "level_str DEBUG = ''DEBUG''"
| "level_str INFO = ''INFO''"
| "level_str WARN = ''WARNING''"
| "level_str ERROR = ''ERROR''"

text \<open>\<open>{ timestamp, level, service, message, ...metadata }\<close>: the members of the metadata win.\<close>

definition put_all :: "(string \<times> jv) list \<Rightarrow> (string \<times> jv) list \<Rightarrow> (string \<times> jv) list" where
  "put_all kvs obj = fold (\<lambda>(k, v). obj_put k v) kvs obj"

definition log_entry :: "string \<Rightarrow> string \<Rightarrow> log_level \<Rightarrow> string \<Rightarrow> (string \<times> jv) list \<Rightarrow> (string \<times> jv) list" where
  "log_entry service now level msg metadata = put_all metadata
     [(''timestamp'', JStr now), (''level'', JStr (level_str level)), (''service'', JStr service), (''message'', JStr msg)]"

definition error_metadata :: "jv \<Rightarrow> (string \<times> jv) list \<Rightarrow> (string \<times> jv) list" where
  "error_metadata err metadata = put_all
     [(''error'', if truthy err then opt_get err ''message'' else JNull), (''stack'', if truthy err then opt_get err ''stack'' else JNull)]
     metadata"

record logger =
  lg_service :: string
  lg_requestCounter :: nat
  lg_lines :: "(string \<times> jv) list list"

definition log_line :: "string \<Rightarrow> log_level \<Rightarrow> string \<Rightarrow> (string \<times> jv) list \<Rightarrow> logger \<Rightarrow> logger" where
  "log_line now level msg metadata l = l\<lparr>lg_lines := lg_lines l @ [log_entry (lg_service l) now level msg metadata]\<rparr>"

text \<open>
  \<open>createStructuredLoggingMiddleware\<close>: the number a request gets, the line of \<open>res.status(code)\<close> and that of
  \<open>res.json(data)\<close>.
\<close>

definition next_request :: "logger \<Rightarrow> nat \<times> logger" where
  "next_request l = (lg_requestCounter l + 1, l\<lparr>lg_requestCounter := lg_requestCounter l + 1\<rparr>)"

definition request_line :: "server_request \<Rightarrow> string" where
  "request_line req = sr_method req @ '' '' @ sr_path req"

definition on_status :: "string \<Rightarrow> nat \<Rightarrow> server_request \<Rightarrow> nat \<Rightarrow> logger \<Rightarrow> logger" where
  "on_status now requestId req code l =
     (if code \<ge> 400 then log_line now WARN (request_line req)
        [(''request_id'', JNum (int requestId)), (''status_code'', JNum (int code)), (''path'', JStr (sr_path req))] l
      else l)"

definition user_of :: "server_request \<Rightarrow> jv" where
  "user_of req = (if truthy (sr_user req) then opt_get (sr_user req) ''id'' else JNull)"

definition on_json :: "string \<Rightarrow> nat \<Rightarrow> server_request \<Rightarrow> nat \<Rightarrow> int \<Rightarrow> logger \<Rightarrow> logger" where
  "on_json now requestId req code duration l = log_line now INFO (request_line req)
     [(''request_id'', JNum (int requestId)), (''method'', JStr (sr_method req)), (''path'', JStr (sr_path req)),
      (''status_code'', JNum (int code)), (''duration_ms'', JNum duration), (''user_id'', user_of req), (''ip'', sr_ip req)] l"

text \<open>\<open>createRequestLogger\<close>: the context of a request, which the metadata of a line may override.\<close>

definition request_context :: "jv \<Rightarrow> server_request \<Rightarrow> (string \<times> jv) list \<Rightarrow> (string \<times> jv) list" where
  "request_context reqId req metadata = put_all metadata
     [(''request_id'', reqId), (''user_id'', user_of req), (''path'', JStr (sr_path req))]"

section \<open>The panel and the gateway agree on the paths\<close>

definition segment_ok :: "string \<Rightarrow> bool" where
  "segment_ok s \<longleftrightarrow> s \<noteq> [] \<and> CHR ''/'' \<notin> set s"

lemma path_segments_join:
  assumes "xs \<noteq> []" "list_all segment_ok xs"
  shows "path_segments (CHR ''/'' # join ''/'' xs) = xs"
proof -
  have "list_all (\<lambda>s. CHR ''/'' \<notin> set s) xs" using assms(2) by (simp add: list_all_iff segment_ok_def)
  then have "split_on CHR ''/'' (CHR ''/'' # join ''/'' xs) = [] # xs"
    using split_on_join [OF assms(1)] by simp
  moreover have "last xs \<noteq> []" using assms last_in_set [OF assms(1)] by (auto simp: list_all_iff segment_ok_def)
  ultimately show ?thesis using assms(1) by (simp add: path_segments_def)
qed

text \<open>What the tables give for the segments of a path, once for each request that the panel and the worker make.\<close>

lemma routes_found:
  assumes "segment_ok rid"
  shows "find_route global_table ''POST'' [''rooms''] = Some (Forward PostRoom, [])"
    "find_route global_table ''GET'' [''rooms'', ''active''] = Some (Forward GetActive, [])"
    "find_route global_table ''GET'' [''rooms'', rid, ''participants''] = Some (Forward GetParticipants, [rid])"
    "find_route global_table ''GET'' [''rooms'', rid, ''leaderboard''] = Some (Forward GetLeaderboard, [rid])"
    "find_route global_table ''GET'' [''rooms'', rid, ''round-details''] = Some (Forward GetRoundDetails, [rid])"
    "find_route global_table ''POST'' [''rooms'', rid, ''join''] = Some (Forward PostJoin, [rid])"
    "find_route global_table ''POST'' [''rooms'', rid, ''leave''] = Some (Forward PostLeave, [rid])"
    "find_route global_table ''POST'' [''rooms'', rid, ''start''] = Some (Forward PostStart, [rid])"
    "find_route global_table ''POST'' [''rooms'', rid, ''end''] = Some (Forward PostEnd, [rid])"
    "find_route global_table ''POST'' [''rooms'', rid, ''rounds'', ''create''] = Some (Forward PostRoundCreate, [rid])"
    "find_route global_table ''POST'' [''rooms'', rid, ''rounds'', ''time''] = Some (Forward PostRoundTime, [rid])"
    "find_route global_table ''GET'' [''problems'', ''count''] = Some (Forward GetCount, [])"
    "find_route global_table ''GET'' [''statistics'', rid] = Some (Forward GetStatistics, [rid])"
    "find_route global_table ''POST'' [''submission''] = Some (Submit, [])"
    "find_route auth_table ''GET'' [''auth'', ''user''] = Some (AuthUser, [])"
    "find_route auth_table ''POST'' [''auth'', ''logout''] = Some (Logout, [])"
    "find_route auth_table ''GET'' [''auth'', ''github'', ''connect'', ''status''] = Some (ConnectStatus, [])"
  using assms by (simp_all add: global_table_def rooms_table_def problems_table_def other_table_def auth_table_def segment_ok_def)

text \<open>The requests of the panel about a room: method, rest of the path and route.\<close>

definition room_requests :: "(string \<times> string list \<times> route) list" where
  "room_requests =
     [(''GET'', [''participants''], GetParticipants), (''GET'', [''leaderboard''], GetLeaderboard),
      (''GET'', [''round-details''], GetRoundDetails), (''POST'', [''join''], PostJoin), (''POST'', [''leave''], PostLeave),
      (''POST'', [''start''], PostStart), (''POST'', [''end''], PostEnd), (''POST'', [''rounds'', ''create''], PostRoundCreate),
      (''POST'', [''rounds'', ''time''], PostRoundTime)]"

definition tail_of :: "string list \<Rightarrow> string" where
  "tail_of segs = concat (map (\<lambda>s. CHR ''/'' # s) segs)"

lemma join_tail: "join ''/'' (x # xs) = x @ tail_of xs"
  by (induction xs arbitrary: x) (simp_all add: tail_of_def)

lemma room_path_segments:
  "segment_ok rid \<Longrightarrow> list_all segment_ok segs \<Longrightarrow> path_segments (room_path rid (tail_of segs)) = ''rooms'' # rid # segs"
  using path_segments_join [of "''rooms'' # rid # segs"] join_tail [of "''rooms''" "rid # segs"]
  by (simp add: room_path_def tail_of_def segment_ok_def)

lemma room_request_routed:
  assumes "segment_ok rid" "(verb, segs, r) \<in> set room_requests"
    and "sr_method req = verb" "sr_path req = room_path rid (tail_of segs)"
  shows "routed os global_table after req = serve r (req\<lparr>sr_id := rid\<rparr>)"
proof -
  have "list_all segment_ok segs" using assms(2) by (auto simp: room_requests_def segment_ok_def)
  then have p: "path_segments (sr_path req) = ''rooms'' # rid # segs" by (simp add: assms(4) room_path_segments assms(1))
  have "find_route global_table verb (''rooms'' # rid # segs) = Some (Forward r, [rid])"
    using assms(2) routes_found [OF assms(1)] by (auto simp: room_requests_def)
  then show ?thesis by (simp add: routed_def p assms(3))
qed



section \<open>Nobody gets past the checks\<close>

lemma preserves_limiter:
  assumes "\<And>f :: 'r redis_client \<Rightarrow> ('r, int) js. preserves g (redis f)" "\<And>f :: 'r redis_client \<Rightarrow> ('r, unit) js. preserves g (redis f)"
    and "preserves g (handler req)"
  shows "preserves g (limit_middleware rl handler req :: ('r server, response) js)"
proof -
  have c: "preserves g (checkLimit rl ident :: ('r server, limit_result) js)" for ident
    unfolding checkLimit_def Let_def using assms(1,2) by (intro frame_intro) auto
  have f: "preserves g (refund rl result rp :: ('r server, unit) js)" for result rp
  proof (cases "result = Unchecked \<or> (\<forall>v. rp_reply rp \<noteq> JsonReply v)")
    case True
    then show ?thesis by (auto simp: refund_def preserves_pure split: limit_result.split reply.split)
  next
    case False
    then obtain x v where "result = Counted x" "rp_reply rp = JsonReply v" by (cases result) auto
    then show ?thesis using assms(1) by (auto simp: refund_def Let_def intro!: frame_intro)
  qed
  show ?thesis unfolding limit_middleware_def using c f assms(3) by (intro frame_intro) auto
qed

lemma serve_anonymous: "\<not> truthy (sr_user req) \<Longrightarrow> serve r req s = (Inr (error_json 401 ''Not authenticated''), s)"
  by (cases r) (auto simp: route_defs get_statistics_def ensureAuth_def)

lemma find_route_member: "find_route table verb segs = Some (r, ids) \<Longrightarrow> r \<in> (\<lambda>(v, p, r). r) ` set table"
  by (induction table verb segs rule: find_route.induct) (auto split: if_splits option.splits)

lemma anonymous_logout:
  assumes "\<not> truthy (sr_user req)"
  shows "preserves sv_sent (post_logout req)"
proof -
  have "\<not> truthy (opt_get (sr_user req) ''accessToken'')"
    using assms by (cases "sr_user req") (auto simp: opt_get_def)
  then have "preserves sv_sent (revoke_login req)" by (simp add: revoke_login_def when_do_def preserves_pure)
  moreover have "preserves sv_sent (session_do e)" for e by (simp add: preserves_def)
  ultimately show ?thesis unfolding post_logout_def by (auto intro!: frame_intro)
qed

lemma anonymous_answer:
  assumes "\<not> truthy (sr_user req)" "\<And>p. r \<noteq> Passport p"
  shows "sv_sent (snd (answer_route os r req s)) = sv_sent s"
proof (cases r)
  case (Forward x)
  then show ?thesis by (simp add: serve_anonymous [OF assms(1)])
next
  case ConnectCallback
  then show ?thesis using assms(1) by (simp add: connect_callback_def Let_def when_do_def)
next
  case Logout
  then show ?thesis using preservesD [OF anonymous_logout [OF assms(1)]] by simp
next
  case Health
  then show ?thesis by (simp add: bnd_def)
qed (use assms in \<open>simp_all add: submit_solution_def get_connect_def get_connect_status_def ensureAuth_def\<close>)

lemma anonymous_routed:
  assumes "\<not> truthy (sr_user req)" "preserves sv_sent (after req)"
    and "\<And>p ids. find_route table (sr_method req) (path_segments (sr_path req)) \<noteq> Some (Passport p, ids)"
  shows "preserves sv_sent (routed os table after req)"
  unfolding preserves_def
proof
  fix s
  show "sv_sent (snd (routed os table after req s)) = sv_sent s"
  proof (cases "find_route table (sr_method req) (path_segments (sr_path req))")
    case None
    then show ?thesis using preservesD [OF assms(2)] by (simp add: routed_def)
  next
    case (Some rids)
    obtain r ids where r: "rids = (r, ids)" by (cases rids)
    then have "r \<noteq> Passport p" for p using Some assms(3) by blast
    then show ?thesis using Some r anonymous_answer [of "req\<lparr>sr_id := i\<rparr>" r os s for i] assms(1) by (simp add: routed_def)
  qed
qed

lemma global_no_passport: "find_route global_table verb segs \<noteq> Some (Passport p, ids)"
  using find_route_member [of global_table verb segs "Passport p" ids]
  by (auto simp: global_table_def rooms_table_def problems_table_def other_table_def)

lemma limiter_keeps_sent: "preserves sv_sent (handler req) \<Longrightarrow> preserves sv_sent (limit_middleware rl handler req)"
  by (intro preserves_limiter frame_intro)



text \<open>
  The gateway asks the active room of the user for the path \<open>/rooms/active\<close>, since its route comes first; the
  room with the identifier \<open>active\<close> has no page of its own.
\<close>

lemma active_comes_first:
  "find_route global_table ''GET'' (path_segments ''/rooms/active'') = Some (Forward GetActive, [])"
  by (simp add: path_segments_def global_table_def rooms_table_def)

text \<open>Without Redis the server does not start, and its cookies are secure exactly in production.\<close>

lemma start_needs_redis:
  "startServer env connect isReady = Inr opts \<Longrightarrow>
     connect = Inr () \<and> isReady \<and> (ck_secure (so_cookie opts) = strict_eq env (JStr ''production'')) \<and> ck_httpOnly (so_cookie opts)"
  by (auto simp: startServer_def connectToRedis_def server_options_def Let_def split: sum.splits if_splits)

end
