(* ===== verification/Web_App.thy ===== *)
theory Web_App
  imports Room_Choice Round_Statistics Gateway_App Form_Encoding
begin

text \<open>
  The web application and the components it shares with the panel: the counters of
  \<open>createRoom/useCreateRoom.ts\<close>, the pages of the problem list, the live statistics, the dashboard
  (\<open>apps/web/app/dashboard/page.tsx\<close>) with its request and its filter, the two account forms, the navigation
  bar, and the build script that takes inline scripts out of the pages (\<open>scripts/extract-inline.ts\<close>).
\<close>

section \<open>The counters of a new room\<close>

record create_room =
  cr_easy :: int
  cr_medium :: int
  cr_hard :: int
  cr_duration :: int
  cr_total :: int

definition createRoomInit :: create_room where
  "createRoomInit = \<lparr>cr_easy = 1, cr_medium = 0, cr_hard = 0, cr_duration = 30, cr_total = 1\<rparr>"

fun cr_num :: "Difficulty \<Rightarrow> create_room \<Rightarrow> int" where
  "cr_num Room_Choice.Easy s = cr_easy s"
| "cr_num Room_Choice.Medium s = cr_medium s"
| "cr_num Room_Choice.Hard s = cr_hard s"

fun cr_set :: "Difficulty \<Rightarrow> int \<Rightarrow> create_room \<Rightarrow> create_room" where
  "cr_set Room_Choice.Easy n s = s\<lparr>cr_easy := n\<rparr>"
| "cr_set Room_Choice.Medium n s = s\<lparr>cr_medium := n\<rparr>"
| "cr_set Room_Choice.Hard n s = s\<lparr>cr_hard := n\<rparr>"

definition cr_decrement :: "Difficulty \<Rightarrow> create_room \<Rightarrow> create_room" where
  "cr_decrement d s =
     (if cr_total s \<le> 1 \<or> cr_num d s \<le> 0 then s else (cr_set d (cr_num d s - 1) s)\<lparr>cr_total := cr_total s - 1\<rparr>)"

definition cr_increment :: "Difficulty \<Rightarrow> create_room \<Rightarrow> create_room" where
  "cr_increment d s =
     (if cr_total s \<ge> 10 then s else (cr_set d (cr_num d s + 1) s)\<lparr>cr_total := cr_total s + 1\<rparr>)"

lemma cr_num_set: "cr_num d' (cr_set d n s) = (if d' = d then n else cr_num d' s)"
  by (cases d; cases d') auto

lemma cr_num_total [simp]: "cr_num d (s\<lparr>cr_total := n\<rparr>) = cr_num d s"
  by (cases d) auto

interpretation shared_counters: difficulty_counters cr_num cr_total cr_increment cr_decrement
  by unfold_locales (auto simp: cr_increment_def cr_decrement_def cr_num_set)

datatype counter_event = Increment Difficulty | Decrement Difficulty | DurationSet int

fun counter_step :: "counter_event \<Rightarrow> create_room \<Rightarrow> create_room" where
  "counter_step (Increment d) s = cr_increment d s"
| "counter_step (Decrement d) s = cr_decrement d s"
| "counter_step (DurationSet n) s = s\<lparr>cr_duration := n\<rparr>"

lemma counters_ok_duration: "shared_counters.counters_ok s \<Longrightarrow> shared_counters.counters_ok (s\<lparr>cr_duration := n\<rparr>)"
  by (simp add: shared_counters.counters_ok_def)

interpretation shared_room: bounded_machine createRoomInit counter_step shared_counters.counters_ok cr_total 1 10
proof
  show "shared_counters.counters_ok createRoomInit"
    by (simp add: shared_counters.counters_ok_def createRoomInit_def)
  show "shared_counters.counters_ok (counter_step e s)" if "shared_counters.counters_ok s" for e s
    using that by (cases e) (simp_all add: shared_counters.counters_ok_inc shared_counters.counters_ok_dec counters_ok_duration)
qed (simp add: shared_counters.counters_ok_def)

section \<open>The pages of the problem list\<close>

definition problemsPerPage :: nat where "problemsPerPage = 10"

definition currentProblems :: "'a list \<Rightarrow> nat \<Rightarrow> 'a list" where
  "currentProblems ps currentPage =
     (let indexOfLast = currentPage * problemsPerPage; indexOfFirst = indexOfLast - problemsPerPage in
      take (indexOfLast - indexOfFirst) (drop indexOfFirst ps))"

definition totalPages :: "'a list \<Rightarrow> nat" where
  "totalPages ps = (length ps + (problemsPerPage - 1)) div problemsPerPage"

definition handlePrevPage :: "nat \<Rightarrow> nat" where
  "handlePrevPage currentPage = (if currentPage > 1 then currentPage - 1 else currentPage)"

definition handleNextPage :: "'a list \<Rightarrow> nat \<Rightarrow> nat" where
  "handleNextPage ps currentPage = (if currentPage < totalPages ps then currentPage + 1 else currentPage)"

lemma currentProblems_page: "0 < p \<Longrightarrow> currentProblems ps p = take 10 (drop ((p - 1) * 10) ps)"
  by (cases p) (simp_all add: currentProblems_def problemsPerPage_def Let_def)

lemma pages_prefix: "concat (map (currentProblems ps) [1..<Suc n]) = take (10 * n) ps"
proof (induction n)
  case (Suc n)
  have "10 * Suc n = 10 * n + 10" by simp
  then have "take (10 * Suc n) ps = take (10 * n) ps @ take 10 (drop (10 * n) ps)" by (simp only: take_add)
  moreover have "concat (map (currentProblems ps) [1..<Suc (Suc n)]) = concat (map (currentProblems ps) [1..<Suc n]) @ currentProblems ps (Suc n)"
    by simp
  ultimately show ?case using Suc by (simp add: currentProblems_page mult.commute)
qed simp

text \<open>Every problem is on exactly one page, and the buttons stay within the pages.\<close>

lemma pages_partition: "concat (map (currentProblems ps) [1..<Suc (totalPages ps)]) = ps"
proof -
  have "length ps \<le> 10 * totalPages ps" by (simp add: totalPages_def problemsPerPage_def)
  then show ?thesis by (simp only: pages_prefix take_all)
qed

definition page_inv :: "'a list \<Rightarrow> nat \<Rightarrow> bool" where
  "page_inv ps p \<longleftrightarrow> 1 \<le> p \<and> p \<le> max 1 (totalPages ps)"

interpretation paging: machine "1 :: nat" "\<lambda>forward. if forward then handleNextPage ps else handlePrevPage" "page_inv ps" for ps
  by unfold_locales (auto simp: page_inv_def handleNextPage_def handlePrevPage_def)

lemma pages_not_empty:
  assumes "ps \<noteq> []"
  shows "currentProblems ps (run (\<lambda>forward. if forward then handleNextPage ps else handlePrevPage) clicks 1) \<noteq> []"
proof -
  let ?p = "run (\<lambda>forward. if forward then handleNextPage ps else handlePrevPage) clicks 1"
  have "page_inv ps ?p" by (rule paging.inv_run_init)
  moreover have "1 \<le> totalPages ps" using assms by (cases ps) (simp_all add: totalPages_def problemsPerPage_def)
  ultimately have p: "1 \<le> ?p" "?p \<le> totalPages ps" by (simp_all add: page_inv_def)
  then have "(?p - 1) * 10 < length ps" by (simp add: totalPages_def problemsPerPage_def)
  then show ?thesis using p by (simp add: currentProblems_page)
qed

text \<open>The page is not reset when the list shrinks: a filter typed on the second page can show nothing.\<close>

lemma shrunk_list_shows_nothing:
  "currentProblems (replicate 3 p) (handleNextPage (replicate 20 p) 1) = []"
  by (simp add: handleNextPage_def totalPages_def problemsPerPage_def currentProblems_page)

section \<open>Live statistics\<close>

definition solving :: "int \<Rightarrow> participant list \<Rightarrow> participant list" where
  "solving selectedProblem ps = filter (\<lambda>p. p_currentProblemIndex p = JNum selectedProblem) ps"

definition submitted :: "int \<Rightarrow> participant list \<Rightarrow> participant list" where
  "submitted selectedProblem ps = filter (\<lambda>p. is_nullish (p_currentProblemIndex p) \<or>
     (case p_currentProblemIndex p of JNum n \<Rightarrow> n > selectedProblem | _ \<Rightarrow> False)) ps"

definition score_of :: "participant \<Rightarrow> int" where
  "score_of p = (case p_score p of JNum n \<Rightarrow> n | _ \<Rightarrow> 0)"

text \<open>\<open>sort((a, b) => b.score - a.score)\<close>, a stable sort; the rank is a medal or a number with its ending.\<close>

definition sortedEntries :: "participant list \<Rightarrow> participant list" where
  "sortedEntries ps = sort_key (\<lambda>p. - score_of p) ps"

datatype rank = Gold | Silver | Bronze | Place string

definition rank_of :: "nat \<Rightarrow> rank" where
  "rank_of i = (if i = 0 then Gold else if i = 1 then Silver else if i = 2 then Bronze else Place (show_nat (i + 1) @ ''th''))"

text \<open>Who is not past the problem and not at it is still before it, and nobody is counted twice.\<close>

lemma solving_or_submitted:
  assumes "\<forall>p\<in>set ps. p_currentProblemIndex p = JNull \<or> (\<exists>n. p_currentProblemIndex p = JNum n)" "p \<in> set ps"
  shows "(p \<in> set (solving k ps) \<longleftrightarrow> p \<notin> set (submitted k ps)) \<or> (\<exists>n<k. p_currentProblemIndex p = JNum n)"
    and "\<not> (p \<in> set (solving k ps) \<and> p \<in> set (submitted k ps))"
  using assms by (auto simp: solving_def submitted_def is_nullish_def split: jv.split)

lemma sortedEntries_spec:
  "mset (sortedEntries ps) = mset ps \<and> sorted_wrt (\<lambda>p q. score_of p \<ge> score_of q) (sortedEntries ps) \<and>
   filter (\<lambda>p. score_of p = k) (sortedEntries ps) = filter (\<lambda>p. score_of p = k) ps"
proof -
  have "sorted (map (\<lambda>p. - score_of p) (sortedEntries ps))" by (simp add: sortedEntries_def)
  then have "sorted_wrt (\<lambda>p q. score_of p \<ge> score_of q) (sortedEntries ps)" by (simp add: sorted_map)
  moreover have "filter (\<lambda>p. - score_of p = - k) (sortedEntries ps) = filter (\<lambda>p. - score_of p = - k) ps"
    unfolding sortedEntries_def by (rule sort_key_stable)
  ultimately show ?thesis by (simp add: sortedEntries_def)
qed

section \<open>The dashboard\<close>

definition lower :: "string \<Rightarrow> string" where
  "lower s = map Round_Statistics.lower_char s"

definition selectedTags :: "string \<Rightarrow> string list" where
  "selectedTags tagsQuery = filter (\<lambda>tag. length tag > 0) (map (\<lambda>tag. lower (trim tag)) (split_on CHR '','' tagsQuery))"

definition dashboard_url :: "string \<Rightarrow> string list \<Rightarrow> string" where
  "dashboard_url serverUrl tags = serverUrl @ ''/problems?'' @
     params_string ([(''count'', ''100''), (''offset'', ''0'')] @ (if length tags > 0 then [(''tags'', join '','' tags)] else []))"

record dash_problem =
  dp_id :: string
  dp_name :: string
  dp_difficulty :: string
  dp_tags :: "jv list"
  dp_topic :: jv

definition known_difficulty :: "jv \<Rightarrow> string" where
  "known_difficulty d = (case d of JStr s \<Rightarrow> if s \<in> {''Easy'', ''Medium'', ''Hard''} then s else ''Medium'' | _ \<Rightarrow> ''Medium'')"

definition remote_problem :: "jv \<Rightarrow> dash_problem" where
  "remote_problem problem =
     (let tags = (case opt_get problem ''tags'' of JArr ts \<Rightarrow> ts | _ \<Rightarrow> []) in
      \<lparr>dp_id = to_str (js_coalesce (opt_get problem ''id'') (JStr [])),
       dp_name = to_str (js_coalesce (opt_get problem ''name'') (JStr [])),
       dp_difficulty = known_difficulty (opt_get problem ''difficulty''),
       dp_tags = tags, dp_topic = (case tags of [] \<Rightarrow> JStr [] | t # _ \<Rightarrow> t)\<rparr>)"

definition remoteProblems :: "jv \<Rightarrow> jv + dash_problem list" where
  "remoteProblems payload =
     (case js_coalesce (opt_get payload ''data'') (JArr []) of JArr ps \<Rightarrow> Inr (map remote_problem ps) | _ \<Rightarrow> Inl type_error)"

text \<open>What an answer of a request that was not aborted leaves in \<open>remoteProblemList\<close>.\<close>

definition remote_answer :: "http \<Rightarrow> dash_problem list option" where
  "remote_answer ans =
     (case ans of
        NetError e \<Rightarrow> None
      | Response st body \<Rightarrow>
          if \<not> res_ok (st, body) then None
          else (case body of None \<Rightarrow> None
                | Some payload \<Rightarrow> (case remoteProblems payload of Inl e \<Rightarrow> None | Inr ps \<Rightarrow> Some ps)))"

text \<open>The tags of a problem in lower case; a tag that is no string throws.\<close>

fun lower_tags :: "jv list \<Rightarrow> jv + string list" where
  "lower_tags [] = Inr []"
| "lower_tags (JStr t # ts) = (case lower_tags ts of Inl e \<Rightarrow> Inl e | Inr us \<Rightarrow> Inr (lower t # us))"
| "lower_tags (t # ts) = Inl type_error"

definition problem_tags :: "dash_problem \<Rightarrow> jv + string list" where
  "problem_tags p = lower_tags (dp_tags p @ (if truthy (dp_topic p) then [dp_topic p] else []))"

fun filter_problems :: "string list \<Rightarrow> dash_problem list \<Rightarrow> jv + dash_problem list" where
  "filter_problems selected [] = Inr []"
| "filter_problems selected (p # ps) =
     (case problem_tags p of
        Inl e \<Rightarrow> Inl e
      | Inr tags \<Rightarrow>
          (case filter_problems selected ps of
             Inl e \<Rightarrow> Inl e
           | Inr qs \<Rightarrow> Inr (if list_all (\<lambda>tag. tag \<in> set tags) selected then p # qs else qs)))"

definition filteredProblemList :: "string list \<Rightarrow> dash_problem list option \<Rightarrow> dash_problem list \<Rightarrow> jv + dash_problem list" where
  "filteredProblemList selected remote problemList =
     (let list = (case remote of None \<Rightarrow> problemList | Some l \<Rightarrow> l) in
      if selected = [] then Inr list else filter_problems selected list)"

text \<open>
  The state of the page: the query, the remote list, and the requests sent with their tags and whether they
  still wait; all but the last are aborted.
\<close>

record dashboard =
  da_query :: string
  da_remote :: "dash_problem list option"
  da_runs :: "(string list \<times> bool) list"

definition dashboardInit :: dashboard where
  "dashboardInit = \<lparr>da_query = [], da_remote = None, da_runs = [(selectedTags [], True)]\<rparr>"

datatype dashboard_event = QueryTyped string | ProblemsAnswered nat http

fun dashboard_step :: "dashboard_event \<Rightarrow> dashboard \<Rightarrow> dashboard" where
  "dashboard_step (QueryTyped q) s =
     (if q = da_query s then s else s\<lparr>da_query := q, da_runs := da_runs s @ [(selectedTags q, True)]\<rparr>)"
| "dashboard_step (ProblemsAnswered i ans) s =
     (if i < length (da_runs s) \<and> snd (da_runs s ! i) then
        (let s1 = s\<lparr>da_runs := (da_runs s)[i := (fst (da_runs s ! i), False)]\<rparr> in
         if Suc i = length (da_runs s) then s1\<lparr>da_remote := remote_answer ans\<rparr> else s1)
      else s)"

definition dashboard_inv :: "dashboard \<Rightarrow> bool" where
  "dashboard_inv s \<longleftrightarrow> da_runs s \<noteq> [] \<and> fst (last (da_runs s)) = selectedTags (da_query s)"

lemma dashboard_inv_step: "dashboard_inv s \<Longrightarrow> dashboard_inv (dashboard_step e s)"
  by (cases e) (auto simp: dashboard_inv_def Let_def last_list_update last_conv_nth nth_list_update)

interpretation dashboard: machine dashboardInit dashboard_step dashboard_inv
  by unfold_locales (simp_all add: dashboard_inv_step, simp add: dashboard_inv_def dashboardInit_def)

text \<open>An answer for tags other than those typed now is ignored.\<close>

lemma stale_problems_ignored:
  assumes "fst (da_runs (run dashboard_step es dashboardInit) ! i) \<noteq> selectedTags (da_query (run dashboard_step es dashboardInit))"
  shows "da_remote (dashboard_step (ProblemsAnswered i ans) (run dashboard_step es dashboardInit)) =
    da_remote (run dashboard_step es dashboardInit)"
proof -
  let ?s = "run dashboard_step es dashboardInit"
  have "dashboard_inv ?s" by (rule dashboard.inv_run_init)
  then have "i \<noteq> length (da_runs ?s) - 1" "da_runs ?s \<noteq> []" using assms by (auto simp: dashboard_inv_def last_conv_nth)
  then have "Suc i \<noteq> length (da_runs ?s)" by auto
  then show ?thesis by (simp add: Let_def)
qed

text \<open>
  The list of the dashboard fits the tags typed: whatever was typed and answered before, every problem
  shown comes from the list in use and has each of the tags, in any case, and none that has them is left out.
\<close>

theorem dashboard_shows_matches:
  assumes "filteredProblemList (selectedTags q) remote local = Inr shown"
  shows "shown = filter (\<lambda>p. \<forall>tag\<in>set (selectedTags q). \<exists>tags. problem_tags p = Inr tags \<and> tag \<in> set tags)
    (case remote of None \<Rightarrow> local | Some l \<Rightarrow> l)"
proof -
  have "filter_problems sel ps = Inr qs \<Longrightarrow>
    qs = filter (\<lambda>p. \<forall>tag\<in>set sel. \<exists>tags. problem_tags p = Inr tags \<and> tag \<in> set tags) ps" for sel ps qs
    by (induction ps arbitrary: qs) (auto simp: list_all_iff split: sum.splits if_splits)
  then show ?thesis using assms by (auto simp: filteredProblemList_def Let_def split: if_splits)
qed

text \<open>A tag that is no string stops the rendering as soon as a tag is typed.\<close>

lemma odd_tag_throws:
  "selected \<noteq> [] \<Longrightarrow> filteredProblemList selected (Some [remote_problem (JObj [(''tags'', JArr [JNum 1])])]) ps = Inl type_error"
  by (simp add: filteredProblemList_def remote_problem_def problem_tags_def Let_def)

text \<open>The gateway serves no list under the path that the dashboard asks for, so the page never leaves its samples.\<close>

lemma dashboard_path_unrouted:
  "find_route global_table ''GET'' [''problems''] = None" "find_route auth_table ''GET'' [''problems''] = None"
  by (simp_all add: global_table_def rooms_table_def problems_table_def other_table_def auth_table_def)

lemma dashboard_request_missing:
  "sr_method req = ''GET'' \<Longrightarrow> sr_path req = ''/problems'' \<Longrightarrow>
     routed os global_table (\<lambda>r. ret (os_missing os r)) req s = (Inr (os_missing os req), s)"
  by (simp add: routed_def path_segments_def dashboard_path_unrouted)

definition sample_problems :: "dash_problem list" where
  "sample_problems = map remote_problem
     [JObj [(''id'', JNum 1), (''tags'', JArr [JStr ''Array'', JStr ''Hash Table''])], JObj [(''id'', JNum 2), (''tags'', JArr [JStr ''Tree''])]]"

theorem dashboard_shows_matches_witness:
  "filter (\<lambda>p. \<forall>tag\<in>set (selectedTags '' ARRAY,''). \<exists>tags. problem_tags p = Inr tags \<and> tag \<in> set tags) sample_problems = take 1 sample_problems"
proof -
  have "filteredProblemList (selectedTags '' ARRAY,'') (Some sample_problems) [] = Inr (take 1 sample_problems)" by code_simp
  from dashboard_shows_matches [OF this] show ?thesis by simp
qed

section \<open>Account forms\<close>

text \<open>
  The schemas, over the library's test of an e-mail address. Lengths are those of the strings; the log-in form
  shows no field for the user name.
\<close>

record sign_up =
  su_email :: string
  su_username :: string
  su_password :: string
  su_confirm :: string

definition sign_up_ok :: "(string \<Rightarrow> bool) \<Rightarrow> sign_up \<Rightarrow> bool" where
  "sign_up_ok isEmail d \<longleftrightarrow> isEmail (su_email d) \<and> length (su_username d) \<ge> 2 \<and> length (su_password d) \<ge> 6 \<and>
     length (su_confirm d) \<ge> 6 \<and> su_password d = su_confirm d"

record log_in =
  li_email :: string
  li_username :: string
  li_password :: string

definition log_in_ok :: "log_in \<Rightarrow> bool" where
  "log_in_ok d \<longleftrightarrow> length (li_email d) \<ge> 1 \<and> length (li_password d) \<ge> 1"

definition log_in_submit :: "(string \<Rightarrow> bool) \<Rightarrow> log_in \<Rightarrow> log_in" where
  "log_in_submit isEmail d =
     (if isEmail (li_email d) then d\<lparr>li_email := li_email d, li_username := []\<rparr>
      else d\<lparr>li_username := li_username d, li_email := []\<rparr>)"

text \<open>A user name typed into the only field for it is lost on submission: both fields end up empty.\<close>

lemma typed_name_lost:
  "\<not> isEmail n \<Longrightarrow> log_in_submit isEmail \<lparr>li_email = n, li_username = [], li_password = p\<rparr> = \<lparr>li_email = [], li_username = [], li_password = p\<rparr>"
  by (simp add: log_in_submit_def)

section \<open>Topics, problems and the navigation bar\<close>

definition visibleTopics :: "bool \<Rightarrow> nat \<Rightarrow> 'a list \<Rightarrow> 'a list" where
  "visibleTopics expanded maxVisible topics = (if expanded then topics else take maxVisible topics)"

definition expand_button :: "bool \<Rightarrow> nat \<Rightarrow> 'a list \<Rightarrow> string option" where
  "expand_button expanded maxVisible topics =
     (if length topics > maxVisible then Some (if expanded then ''Show less'' else ''Show more'') else None)"

definition displayTags :: "string list option \<Rightarrow> string \<Rightarrow> string list" where
  "displayTags tags topic = (case tags of Some (t # ts) \<Rightarrow> t # ts | _ \<Rightarrow> if topic \<noteq> [] then [topic] else [])"

lemma hidden_topics_have_button: "visibleTopics e k ts \<noteq> ts \<Longrightarrow> expand_button e k ts = Some ''Show more''"
  by (auto simp: visibleTopics_def expand_button_def split: if_splits)

text \<open>The bar hides while the landing page is scrolled, and comes back at the top of the window or under the mouse.\<close>

record navbar =
  nb_scrollY :: int
  nb_isHidden :: bool

datatype navbar_event = PageScrolled int | MouseMoved int | MouseEntered | MouseLeft

fun navbar_step :: "bool \<Rightarrow> navbar_event \<Rightarrow> navbar \<Rightarrow> navbar" where
  "navbar_step landing (PageScrolled y) n = (let m = n\<lparr>nb_scrollY := y\<rparr> in if landing then m\<lparr>nb_isHidden := y \<noteq> 0\<rparr> else m)"
| "navbar_step landing (MouseMoved y) n = (if landing \<and> nb_scrollY n \<noteq> 0 \<and> y < 80 then n\<lparr>nb_isHidden := False\<rparr> else n)"
| "navbar_step landing MouseEntered n = (if landing then n\<lparr>nb_isHidden := False\<rparr> else n)"
| "navbar_step landing MouseLeft n = (if landing \<and> nb_scrollY n \<noteq> 0 then n\<lparr>nb_isHidden := True\<rparr> else n)"

definition navbar_inv :: "bool \<Rightarrow> navbar \<Rightarrow> bool" where
  "navbar_inv landing n \<longleftrightarrow> (nb_isHidden n \<longrightarrow> landing \<and> nb_scrollY n \<noteq> 0)"

interpretation navbar: machine "\<lparr>nb_scrollY = 0, nb_isHidden = False\<rparr>" "navbar_step landing" "navbar_inv landing" for landing
proof
  show "navbar_inv landing \<lparr>nb_scrollY = 0, nb_isHidden = False\<rparr>" by (simp add: navbar_inv_def)
  show "navbar_inv landing (navbar_step landing e n)" if "navbar_inv landing n" for e n
    using that by (cases e) (auto simp: navbar_inv_def Let_def)
qed

lemma bar_visible_at_top:
  "nb_scrollY (run (navbar_step landing) es \<lparr>nb_scrollY = 0, nb_isHidden = False\<rparr>) = 0 \<or> \<not> landing \<Longrightarrow>
     \<not> nb_isHidden (run (navbar_step landing) es \<lparr>nb_scrollY = 0, nb_isHidden = False\<rparr>)"
  using navbar.inv_run_init [of landing es] by (auto simp: navbar_inv_def)

end
