(* ===== verification/Build_Script.thy ===== *)
theory Build_Script
  imports BSG_Prelude
begin

text \<open>
  The build step that takes the inline scripts out of the exported pages (\<open>scripts/extract-inline.ts\<close>): an
  extension's page may not contain inline code. A directory is a map from names to contents.
\<close>

text \<open>The first occurrence of a tag, with what stands before and after it.\<close>

fun cut :: "string \<Rightarrow> string \<Rightarrow> (string \<times> string) option" where
  "cut tag s =
     (if starts_with s tag then Some ([], drop (length tag) s)
      else (case s of [] \<Rightarrow> None | c # cs \<Rightarrow> map_option (\<lambda>(a, b). (c # a, b)) (cut tag cs)))"

declare cut.simps [simp del]

lemma cut_split: "cut tag s = Some (a, b) \<Longrightarrow> s = a @ tag @ b"
proof (induction tag s arbitrary: a b rule: cut.induct)
  case (1 tag s)
  show ?case
  proof (cases "starts_with s tag")
    case True
    then obtain t where "s = tag @ t" by (auto simp: starts_with_iff)
    with True 1(2) show ?thesis by (simp add: cut.simps)
  next
    case False
    then obtain c cs a' where s: "s = c # cs" "cut tag cs = Some (a', b)" "a = c # a'"
      using 1(2) by (subst (asm) cut.simps) (auto split: list.splits)
    then show ?thesis using 1(1) [OF False s(1)] by simp
  qed
qed

lemma cut_None: "cut tag s = None \<longleftrightarrow> \<not> str_includes s tag"
proof (induction s)
  case Nil
  then show ?case by (cases tag) (simp_all add: cut.simps)
next
  case (Cons c cs)
  then show ?case by (subst cut.simps) auto
qed

definition open_tag :: string where "open_tag = ''<script>''"
definition close_tag :: string where "close_tag = ''</script>''"

definition file_name :: "nat \<Rightarrow> string" where
  "file_name n = ''extracted-'' @ show_nat n @ ''.js''"

definition script_tag :: "string \<Rightarrow> string" where
  "script_tag f = ''<script src=\"./'' @ f @ ''\"></script>''"

text \<open>
  One page: every shortest match of an opening tag, a body and a closing tag is replaced, with the counter of the page. The result is the
  new page, the files written and the counter after it.
\<close>

function extract_from :: "nat \<Rightarrow> string \<Rightarrow> string \<times> (string \<times> string) list \<times> nat" where
  "extract_from counter html =
     (case cut open_tag html of
        None \<Rightarrow> (html, [], counter)
      | Some (before, rest) \<Rightarrow>
          (case cut close_tag rest of
             None \<Rightarrow> (html, [], counter)
           | Some (scriptContent, after) \<Rightarrow>
               (let trimmed = trim scriptContent in
                if trimmed = [] then (let (h, fs, n) = extract_from counter after in (before @ h, fs, n))
                else (let (h, fs, n) = extract_from (Suc counter) after in
                  (before @ script_tag (file_name counter) @ h, (file_name counter, trimmed) # fs, n)))))"
  by pat_completeness auto
termination
  by (relation "measure (length \<circ> snd)") (auto dest!: cut_split simp: open_tag_def close_tag_def)

declare extract_from.simps [simp del]

text \<open>All pages: the files of each are written beside it, then the page itself.\<close>

definition extract_page :: "string \<times> string \<Rightarrow> (string \<rightharpoonup> string) \<Rightarrow> (string \<rightharpoonup> string)" where
  "extract_page page dir =
     (let (name, html) = page; (h, fs, n) = extract_from 0 html in (foldl (\<lambda>d (f, c). d(f \<mapsto> c)) dir fs)(name \<mapsto> h))"

definition extract_all :: "(string \<times> string) list \<Rightarrow> (string \<rightharpoonup> string) \<Rightarrow> (string \<rightharpoonup> string)" where
  "extract_all pages dir = fold extract_page pages dir"

section \<open>One page is extracted faithfully\<close>

text \<open>The inline scripts of a page, and a page whose references are replaced by scripts again.\<close>

function scripts :: "string \<Rightarrow> string list" where
  "scripts html =
     (case cut open_tag html of
        None \<Rightarrow> []
      | Some (before, rest) \<Rightarrow>
          (case cut close_tag rest of None \<Rightarrow> [] | Some (scriptContent, after) \<Rightarrow> scriptContent # scripts after))"
  by pat_completeness auto
termination
  by (relation "measure length") (auto dest!: cut_split simp: open_tag_def close_tag_def)

declare scripts.simps [simp del]

lemma extract_files:
  "extract_from k html = (h, fs, n) \<Longrightarrow>
     map snd fs = filter (\<lambda>c. c \<noteq> []) (map trim (scripts html)) \<and> map fst fs = map file_name [k..<k + length fs] \<and>
     n = k + length fs"
proof (induction k html arbitrary: h fs n rule: extract_from.induct)
  case (1 k html)
  show ?case
  proof (cases "cut open_tag html")
    case None
    then have "scripts html = []" by (simp add: scripts.simps [of html])
    with None show ?thesis using 1(3) by (auto simp: extract_from.simps [of k html])
  next
    case (Some p)
    then obtain b r where o: "cut open_tag html = Some (b, r)" by (cases p) auto
    show ?thesis
    proof (cases "cut close_tag r")
      case None
      then have "scripts html = []" using o by (simp add: scripts.simps [of html])
      with None show ?thesis using 1(3) o by (auto simp: extract_from.simps [of k html])
    next
      case (Some q)
      then obtain c a where c: "cut close_tag r = Some (c, a)" by (cases q) auto
      have s: "scripts html = c # scripts a" by (simp add: scripts.simps [of html] o c)
      show ?thesis
      proof (cases "trim c = []")
        case True
        obtain h' fs' n' where e: "extract_from k a = (h', fs', n')" by (cases "extract_from k a")
        then have "fs = fs'" "n = n'" using 1(3) o c True by (simp_all add: extract_from.simps [of k html])
        then show ?thesis using 1(1) [OF o refl c refl refl True e] s True by simp
      next
        case False
        obtain h' fs' n' where e: "extract_from (Suc k) a = (h', fs', n')" by (cases "extract_from (Suc k) a")
        then have "fs = (file_name k, trim c) # fs'" "n = n'" using 1(3) o c False by (simp_all add: extract_from.simps [of k html] Let_def)
        moreover have "[k..<k + length fs] = k # [Suc k..<Suc k + length fs']"
          using \<open>fs = _\<close> by (simp add: upt_conv_Cons del: upt_Suc)
        ultimately show ?thesis using 1(2) [OF o refl c refl refl False e] s False by (simp del: upt_Suc)
      qed
    qed
  qed
qed

lemma file_name_inj [simp]: "file_name m = file_name n \<longleftrightarrow> m = n"
  by (simp add: file_name_def)

text \<open>
  Within one page nothing is lost: the files written hold the inline scripts of the page that are not
  blank, trimmed and in their order, under names that are all different.
\<close>

theorem one_page_extracted:
  "let (h, fs, n) = extract_from 0 html in
     map snd fs = filter (\<lambda>c. c \<noteq> []) (map trim (scripts html)) \<and> distinct (map fst fs) \<and> n = length fs"
proof -
  obtain h fs n where e: "extract_from 0 html = (h, fs, n)" by (cases "extract_from 0 html")
  have "distinct (map file_name [0..<length fs])" by (simp add: distinct_map inj_on_def)
  with extract_files [OF e] show ?thesis by (simp add: e del: distinct_map)
qed

text \<open>
  Across pages it is not so: the counter starts again with every page while all pages share their directory,
  so the script of the second page replaces the one of the first.
\<close>

lemma pages_overwrite_each_other:
  "extract_all [(''a.html'', ''<script>one</script>''), (''b.html'', ''<script>two</script>'')] Map.empty (file_name 0) = Some ''two'' \<and>
   extract_all [(''a.html'', ''<script>one</script>''), (''b.html'', ''<script>two</script>'')] Map.empty ''a.html'' =
     Some (script_tag (file_name 0))"
  by code_simp

end
