(* ===== verification/Submission_Path.thy ===== *)
theory Submission_Path
  imports Page_Script Submission Problem_Count
begin

text \<open>
  The extension and the gateway together: a solution that LeetCode accepts on the page is scored with the
  central service, and the filters of the wizard reach the central service as they were chosen. What lies
  between the two programs is a parameter: Express hands a handler the parsed body and the parsed query of
  the request that the extension sent.
\<close>

section \<open>From the page to the score\<close>

text \<open>The submission route when every service answers as it should.\<close>

lemma submit_scored:
  assumes "takes_solution req"
    and "sv_fetch s (sv_sent s) q1 = Answer st1 b1" "out_ok (st1, b1)" "json_parse b1 = Some (JObj [(''roomID'', r)])" "truthy r"
    and "sv_fetch s (sv_sent s @ [q1]) q2 = Answer st2 b2" "out_ok (st2, b2)"
      "json_parse b2 = Some (JObj [(''data'', d)])" "truthy (opt_get d ''id'')"
    and "sv_fetch s (sv_sent s @ [q1, q2]) q3 = Answer st3 b3" "out_ok (st3, b3)"
    and "sv_fetch s (sv_sent s @ [q1, q2, q3]) q4 = Answer st4 b4"
    and q: "q1 = active_request s (auth_id req)" "q2 = lookup_request s (auth_id req) (opt_get (sr_body req) ''slug'')"
      "q3 = score_request s (auth_id req) r (opt_get d ''id'') (sr_body req)"
      "q4 = stats_request s (auth_id req) r (opt_get (sr_body req) ''runtime'') (opt_get d ''difficulty'')"
  shows "submit_solution req s = (Inr scored, s\<lparr>sv_sent := sv_sent s @ [q1, q2, q3, q4],
     sv_jobs := sv_jobs s @ [push_job (auth_id req) (sr_body req)]\<rparr>)"
proof -
  let ?a = "auth_id req" and ?b = "sr_body req"
  let ?s1 = "s\<lparr>sv_sent := sv_sent s @ [q1]\<rparr>" and ?s2 = "s\<lparr>sv_sent := sv_sent s @ [q1, q2]\<rparr>"
    and ?s3 = "s\<lparr>sv_sent := sv_sent s @ [q1, q2, q3]\<rparr>"
  have f1: "fetch_out q1 s = (Inr (st1, b1), ?s1)" using assms(2) by (simp add: fetch_out_def)
  have f2: "fetch_out q2 ?s1 = (Inr (st2, b2), ?s2)" using assms(6) by (simp add: fetch_out_def)
  have f3: "fetch_out q3 ?s2 = (Inr (st3, b3), ?s3)" using assms(10) by (simp add: fetch_out_def)
  have q2: "lookup_request ?s1 ?a (opt_get ?b ''slug'') = q2" by (simp add: q lookup_request_def)
  have q3: "score_request ?s2 ?a r (opt_get d ''id'') ?b = q3" by (simp add: q)
  have q4: "stats_request ?s3 ?a r (opt_get ?b ''runtime'') (opt_get d ''difficulty'') = q4" by (simp add: q stats_request_def)
  have "score_solution ?a ?b r ?s1 = finish_submission ?a ?b r (opt_get d ''difficulty'') ?s3"
    using assms(7-9,11) by (simp add: score_solution_def q2 bnd_def f2 q(3) [symmetric] f3 obj_lookup_def)
  moreover have "finish_submission ?a ?b r (opt_get d ''difficulty'') ?s3 = (Inr scored, s\<lparr>sv_sent := sv_sent s @ [q1, q2, q3, q4],
     sv_jobs := sv_jobs s @ [push_job ?a ?b]\<rparr>)"
    using assms(12) by (simp add: finish_act q4)
  ultimately show ?thesis
    using assms(1,3-5) by (simp add: submit_solution_def takes_solution_def q(1) [symmetric] bnd_def f1 catch_def obj_lookup_def Let_def)
qed

text \<open>Express delivers a request: the handler gets the parsed body.\<close>

definition delivers :: "request \<Rightarrow> server_request \<Rightarrow> bool" where
  "delivers q req \<longleftrightarrow> (case rq_body q of None \<Rightarrow> False | Some t \<Rightarrow> json_parse t = Some (sr_body req))"

text \<open>
  The central service knows the room of the user and the problem, takes the score, and answers about the
  statistics, whatever it answers.
\<close>

definition central_scores :: "'r server \<Rightarrow> outgoing list \<Rightarrow> jv \<Rightarrow> jv \<Rightarrow> bool" where
  "central_scores s qs room d \<longleftrightarrow>
     (\<exists>st1 b1 st2 b2 st3 b3 st4 b4. length qs = 4 \<and>
        map (\<lambda>i. sv_fetch s (sv_sent s @ take i qs) (qs ! i)) [0, 1, 2, 3] = [Answer st1 b1, Answer st2 b2, Answer st3 b3, Answer st4 b4] \<and>
        out_ok (st1, b1) \<and> json_parse b1 = Some (JObj [(''roomID'', room)]) \<and> truthy room \<and>
        out_ok (st2, b2) \<and> json_parse b2 = Some (JObj [(''data'', d)]) \<and> truthy (opt_get d ''id'') \<and> out_ok (st3, b3))"

text \<open>The four requests for a report of the extension.\<close>

definition report_chain ::
  "'r server \<Rightarrow> jv \<Rightarrow> string \<Rightarrow> (string \<times> jv) list \<Rightarrow> (string \<times> jv) list \<Rightarrow> jv \<Rightarrow> jv \<Rightarrow> outgoing list" where
  "report_chain s user slug src res room d =
     [central_request s ''GET'' ''/api/rooms/active'' [] None user,
      central_request s ''GET'' (''/api/problems/lookup?slug='' @ slug) [] None user,
      \<lparr>og_method = ''POST'', og_url = sv_central s @ ''/api/rooms/'' @ to_str room @ ''/'' @ to_str (opt_get d ''id''),
       og_headers = secret_headers s user @ json_type,
       og_body = Some (json_stringify [(''code'', obj_lookup src ''typed_code''), (''language'', obj_lookup src ''lang''),
         (''runtime'', obj_lookup res ''elapsed_time''), (''memory'', obj_lookup res ''memory_percentile''),
         (''verdict'', JStr ''Accepted'')])\<rparr>,
      central_request s ''POST'' (''/api/statistics/'' @ to_str room @ ''/update'') json_type
        (Some (json_stringify [(''runtime'', obj_lookup res ''elapsed_time''), (''difficulty'', opt_get d ''difficulty'')])) user]"

lemma central_scoresD:
  "central_scores s [q1, q2, q3, q4] room d \<Longrightarrow>
   \<exists>st1 b1 st2 b2 st3 b3 st4 b4.
     sv_fetch s (sv_sent s) q1 = Answer st1 b1 \<and> sv_fetch s (sv_sent s @ [q1]) q2 = Answer st2 b2 \<and>
     sv_fetch s (sv_sent s @ [q1, q2]) q3 = Answer st3 b3 \<and> sv_fetch s (sv_sent s @ [q1, q2, q3]) q4 = Answer st4 b4 \<and>
     out_ok (st1, b1) \<and> json_parse b1 = Some (JObj [(''roomID'', room)]) \<and> truthy room \<and>
     out_ok (st2, b2) \<and> json_parse b2 = Some (JObj [(''data'', d)]) \<and> truthy (opt_get d ''id'') \<and> out_ok (st3, b3)"
  unfolding central_scores_def by (simp add: eval_nat_numeral)

lemma report_scored:
  assumes "sr_body req = JObj (report_body slug src res)" "sr_authenticated req" "truthy (sr_user req)"
    and "central_scores s (report_chain s (auth_id req) slug src res room d) room d"
  shows "submit_solution req s = (Inr scored, s\<lparr>sv_sent := sv_sent s @ report_chain s (auth_id req) slug src res room d,
     sv_jobs := sv_jobs s @ [PushSolution (auth_id req) (JStr slug) (obj_lookup src ''lang'') (obj_lookup src ''typed_code'')]\<rparr>)"
proof -
  have f: "opt_get (sr_body req) ''slug'' = JStr slug" "opt_get (sr_body req) ''status'' = JStr ''Accepted''"
    "opt_get (sr_body req) ''code'' = obj_lookup src ''typed_code''" "opt_get (sr_body req) ''language'' = obj_lookup src ''lang''"
    "opt_get (sr_body req) ''runtime'' = obj_lookup res ''elapsed_time''"
    "opt_get (sr_body req) ''memory'' = obj_lookup res ''memory_percentile''"
    by (simp_all add: assms(1) report_body_def)
  have t: "takes_solution req" using assms(1-3) f(2) by (simp add: takes_solution_def)
  let ?q1 = "active_request s (auth_id req)" and ?q2 = "lookup_request s (auth_id req) (JStr slug)"
    and ?q3 = "score_request s (auth_id req) room (opt_get d ''id'') (sr_body req)"
    and ?q4 = "stats_request s (auth_id req) room (obj_lookup res ''elapsed_time'') (opt_get d ''difficulty'')"
  have chain: "report_chain s (auth_id req) slug src res room d = [?q1, ?q2, ?q3, ?q4]"
    by (simp add: report_chain_def active_request_def lookup_request_def score_request_def stats_request_def f)
  obtain st1 b1 st2 b2 st3 b3 st4 b4 where
    "sv_fetch s (sv_sent s) ?q1 = Answer st1 b1" "sv_fetch s (sv_sent s @ [?q1]) ?q2 = Answer st2 b2"
    "sv_fetch s (sv_sent s @ [?q1, ?q2]) ?q3 = Answer st3 b3" "sv_fetch s (sv_sent s @ [?q1, ?q2, ?q3]) ?q4 = Answer st4 b4"
    "out_ok (st1, b1)" "json_parse b1 = Some (JObj [(''roomID'', room)])" "truthy room"
    "out_ok (st2, b2)" "json_parse b2 = Some (JObj [(''data'', d)])" "truthy (opt_get d ''id'')" "out_ok (st3, b3)"
    using central_scoresD [OF assms(4) [unfolded chain]] by blast
  then have "submit_solution req s = (Inr scored, s\<lparr>sv_sent := sv_sent s @ [?q1, ?q2, ?q3, ?q4],
     sv_jobs := sv_jobs s @ [push_job (auth_id req) (sr_body req)]\<rparr>)"
    by (intro submit_scored [OF t]) (assumption | simp only: f)+
  then show ?thesis by (simp add: chain push_job_def f)
qed

text \<open>
  C1: from the editor to the score: when the page submits a solution and later polls an accepted verdict,
  the page's hooks, the worker and the gateway together score exactly this solution: the central service
  is asked for the user's room and for the problem of the page, and gets one score with the submitted code
  and language and the measured runtime and memory, and the same code is handed to the push.
\<close>

theorem accepted_solution_scored:
  fixes w slug n jsn src res opts fs
  assumes "slug_ok slug" "0 < n" "json_parse jsn = Some (JObj src)"
    and "obj_lookup res ''state'' = JStr ''SUCCESS''" "obj_lookup res ''status_msg'' = JStr ''Accepted''"
    and "wk_configReady w" "pending_of w = JObj fs" "\<not> round_over w"
    and "json_clean (JObj (report_body slug src res))"
  defines "w1 \<equiv> page_request (submit_url slug) (JObj [(''body'', JStr jsn)]) (JObj [(''submission_id'', JNum (int n))]) w"
  defines "w2 \<equiv> page_request (check_url n) opts (JObj res) w1"
  assumes "delivers (last (requests w2)) req" "sr_authenticated req" "truthy (sr_user req)"
    and "central_scores s (report_chain s (auth_id req) slug src res room d) room d"
  shows "length (requests w2) = length (requests w) + 1 \<and>
    submit_solution req s = (Inr scored, s\<lparr>sv_sent := sv_sent s @ report_chain s (auth_id req) slug src res room d,
     sv_jobs := sv_jobs s @ [PushSolution (auth_id req) (JStr slug) (obj_lookup src ''lang'') (obj_lookup src ''typed_code'')]\<rparr>)"
proof -
  have r: "requests w2 = requests w @ [\<lparr>rq_method = ''POST'', rq_url = wk_serverUrl w @ ''/submission'',
      rq_body = Some (json_stringify (report_body slug src res)), rq_credentials = True\<rparr>]"
    unfolding w1_def w2_def by (rule accepted_report [OF assms(1-8)])
  then have "sr_body req = JObj (report_body slug src res)"
    using assms(12) json_parse_stringify [OF assms(9)] by (simp add: delivers_def)
  with report_scored [OF _ assms(13-15)] r show ?thesis by simp
qed

definition solved_src :: "(string \<times> jv) list" where
  "solved_src = [(''lang'', JStr ''cpp''), (''typed_code'', JStr ''int x;'')]"

definition solved_res :: "(string \<times> jv) list" where
  "solved_res = [(''state'', JStr ''SUCCESS''), (''status_msg'', JStr ''Accepted''), (''elapsed_time'', JNum 5),
     (''memory_percentile'', JNum 9)]"

definition problem_3 :: jv where
  "problem_3 = JObj [(''id'', JStr ''p3''), (''difficulty'', JStr ''Easy'')]"

definition scoring_demo :: "demo_redis server" where
  "scoring_demo = demo_server (\<lambda>h q.
     [Answer 200 (json_stringify [(''roomID'', JStr ''r1'')]), Answer 200 (json_stringify [(''data'', problem_3)]),
      Answer 200 [], Answer 503 []] ! length h)"

definition report_request :: server_request where
  "report_request = (demo_request ''/submission'' (JObj [(''id'', JStr ''u1'')]))\<lparr>
     sr_body := JObj (report_body ''two-sum'' solved_src solved_res)\<rparr>"

lemma scoring_demo:
  assumes "length qs = 4"
  shows "central_scores scoring_demo qs (JStr ''r1'') problem_3"
proof -
  have f: "sv_fetch scoring_demo (sv_sent scoring_demo @ h) q = [Answer 200 (json_stringify [(''roomID'', JStr ''r1'')]),
      Answer 200 (json_stringify [(''data'', problem_3)]), Answer 200 [], Answer 503 []] ! length h" for h q
    by (simp add: scoring_demo_def demo_server_def)
  have m: "map (\<lambda>i. sv_fetch scoring_demo (sv_sent scoring_demo @ take i qs) (qs ! i)) [0, 1, 2, 3] =
      [Answer 200 (json_stringify [(''roomID'', JStr ''r1'')]), Answer 200 (json_stringify [(''data'', problem_3)]),
       Answer 200 [], Answer 503 []]"
    unfolding f using assms by simp
  have p: "json_parse (json_stringify [(''roomID'', JStr ''r1'')]) = Some (JObj [(''roomID'', JStr ''r1'')])"
      "json_parse (json_stringify [(''data'', problem_3)]) = Some (JObj [(''data'', problem_3)])"
    by (rule json_parse_stringify, simp add: problem_3_def)+
  have t: "truthy (opt_get problem_3 ''id'')" by (simp add: problem_3_def)
  show ?thesis unfolding central_scores_def m using assms p t by (simp add: out_ok_def)
qed

theorem accepted_solution_scored_witness:
  "fst (submit_solution report_request scoring_demo) = Inr scored \<and>
   og_url (sv_sent (snd (submit_solution report_request scoring_demo)) ! 2) = ''http://central-service:5000/api/rooms/r1/p3''"
proof -
  let ?w = "page_request (check_url 77) JUndef (JObj solved_res)
    (page_request (submit_url ''two-sum'') (JObj [(''body'', JStr (json_stringify solved_src))]) (JObj [(''submission_id'', JNum (int 77))]) pending_demo)"
  have s: "slug_ok ''two-sum''" "0 < (77 :: nat)" by (simp_all add: slug_ok_def slug_char_def)
  have j: "json_parse (json_stringify solved_src) = Some (JObj solved_src)"
    by (rule json_parse_stringify) (simp add: solved_src_def)
  have w: "wk_configReady pending_demo" "pending_of pending_demo = JObj [(''77'', JObj [(''problemSlug'', JStr ''two-sum'')])]"
      "\<not> round_over pending_demo" "requests pending_demo = []"
    by (simp_all add: pending_demo_def pending_of_def worker_start_def session_get_def round_over_def Let_def requests_def map_filter_def)
  have v: "obj_lookup solved_res ''state'' = JStr ''SUCCESS''" "obj_lookup solved_res ''status_msg'' = JStr ''Accepted''"
    by (simp_all add: solved_res_def)
  have c: "json_clean (JObj (report_body ''two-sum'' solved_src solved_res))"
    by (simp add: report_body_def solved_src_def solved_res_def)
  have d: "delivers (last (requests ?w)) report_request"
    unfolding accepted_report [OF s j v w(1-3)] delivers_def
    by (simp add: json_parse_stringify [OF c] report_request_def del: json_clean.simps)
  have u: "sr_authenticated report_request" "truthy (sr_user report_request)"
    by (simp_all add: report_request_def demo_request_def)
  have q: "central_scores scoring_demo (report_chain scoring_demo (auth_id report_request) ''two-sum'' solved_src solved_res (JStr ''r1'') problem_3)
      (JStr ''r1'') problem_3"
    by (rule scoring_demo) (simp add: report_chain_def)
  have r: "sv_sent scoring_demo = []" "sv_central scoring_demo = ''http://central-service:5000''"
    by (simp_all add: scoring_demo_def demo_server_def centralServiceUrl_def)
  from accepted_solution_scored [OF s j v w(1-3) c d u q] show ?thesis
    by (simp add: r report_chain_def problem_3_def)
qed

section \<open>From the wizard to the central service\<close>

text \<open>The query of the request for a count as Express parses it.\<close>

definition received_query :: "(string \<Rightarrow> (string \<times> string) list) \<Rightarrow> problem_count_filters \<Rightarrow> (string \<times> jv) list" where
  "received_query parse f = map (\<lambda>(k, v). (k, JStr v)) (parse (params_string (count_params f)))"

lemma lookup_received:
  "obj_lookup (map (\<lambda>(k, v). (k, JStr v)) ps) k = (case map_of ps k of None \<Rightarrow> JUndef | Some v \<Rightarrow> JStr v)"
  by (induction ps) (auto simp: obj_lookup_def)

lemma count_params_keys: "map_of (count_params f) k \<noteq> None \<Longrightarrow> k \<in> set COUNT_FILTERS"
  by (auto simp: count_params_def COUNT_FILTERS_def split: if_splits)

text \<open>
  C25: the filters reach the central service as they were chosen: for a query parser that inverts the
  encoding, the gateway asks for the count with exactly the parameters that the wizard sent, whatever
  characters the topics and companies hold (a parameter with an empty value is dropped).
\<close>

theorem filters_reach_central:
  assumes "\<And>ps. parse (params_string ps) = ps"
  shows "map_of (parse (params_string (count_query (received_query parse f)))) k =
    (case map_of (count_params f) k of None \<Rightarrow> None | Some v \<Rightarrow> if v = [] then None else Some v)"
proof -
  have l: "obj_lookup (received_query parse f) k = (case map_of (count_params f) k of None \<Rightarrow> JUndef | Some v \<Rightarrow> JStr v)" for k
    by (simp add: received_query_def assms lookup_received)
  have m: "map_of (map (\<lambda>k. (k, g k)) (filter P ks)) k = (if k \<in> set ks \<and> P k then Some (g k) else None)"
    for P :: "string \<Rightarrow> bool" and g :: "string \<Rightarrow> string" and ks
    by (induction ks) auto
  show ?thesis
    unfolding assms count_query_def m l using count_params_keys [of f k]
    by (auto split: option.split)
qed

theorem filters_reach_central_witness:
  "map_of (params_parse (params_string (count_query (received_query params_parse
     \<lparr>f_difficulties = ''easy'', f_tags = [''C&A'', ''x=y''], f_companies = [], f_blind75 = True, f_neetcode150 = False,
      f_recentlyAsked = False, f_excludePaid = False\<rparr>)))) ''tags'' = Some ''C&A,x=y''"
  by (simp add: filters_reach_central [OF params_parse_string] count_params_def)

end
