(* ===== verification/Panel_Mount.thy ===== *)
theory Panel_Mount
  imports Page_Script Panel_Layout
begin

text \<open>
  How the content script brings the panel onto a LeetCode page (\<open>extension/contentScript.js\<close>): it waits for
  LeetCode's content, builds the panel and its handle beside it and connects the listeners; what the messages
  of the worker meet when the set-up stopped half way; and the bar of the resize handle, whose colour is
  restored by reads of the storage that may be answered late.
\<close>

section \<open>Waiting for the content\<close>

text \<open>The promise of \<open>waitForQDContent\<close> and its observer; \<open>'e\<close> are the elements of the page.\<close>

record 'e content_wait =
  cw_resolved :: "'e option"
  cw_observing :: bool

definition waitForQDContent :: "'e option \<Rightarrow> 'e content_wait" where
  "waitForQDContent existing =
     (case existing of
        Some el \<Rightarrow> \<lparr>cw_resolved = Some el, cw_observing = False\<rparr>
      | None \<Rightarrow> \<lparr>cw_resolved = None, cw_observing = True\<rparr>)"

text \<open>A batch of mutations; the argument is what \<open>querySelector\<close> finds then.\<close>

definition content_mutation :: "'e option \<Rightarrow> 'e content_wait \<Rightarrow> 'e content_wait" where
  "content_mutation found w =
     (if \<not> cw_observing w then w
      else (case found of None \<Rightarrow> w | Some el \<Rightarrow> \<lparr>cw_resolved = Some el, cw_observing = False\<rparr>))"

fun first_found :: "'e option list \<Rightarrow> 'e option" where
  "first_found [] = None"
| "first_found (Some el # _) = Some el"
| "first_found (None # qs) = first_found qs"

lemma content_settled: "\<not> cw_observing w \<Longrightarrow> run content_mutation qs w = w"
  by (induction qs) (simp_all add: content_mutation_def)

text \<open>The set-up gets the first content that is seen, and the observer is removed exactly then.\<close>

lemma waits_for_first_content:
  "run content_mutation qs (waitForQDContent q) =
     \<lparr>cw_resolved = first_found (q # qs), cw_observing = (first_found (q # qs) = None)\<rparr>"
proof (induction "q # qs" arbitrary: q qs rule: first_found.induct)
  case (2 el qs)
  show ?case by (simp add: waitForQDContent_def content_settled)
next
  case (3 qs)
  show ?case
  proof (cases qs)
    case (Cons q' qs')
    have "content_mutation q' (waitForQDContent None) = waitForQDContent q'"
      by (simp add: content_mutation_def waitForQDContent_def split: option.split)
    then show ?thesis using 3 [OF Cons] by (simp add: Cons)
  qed (simp add: waitForQDContent_def)
qed

section \<open>The set-up\<close>

text \<open>
  What the script meets: \<open>mf_storage\<close> when \<open>chrome.storage.local\<close> exists, the ids of the children of the
  content's parent, and LeetCode's tabset layout with the number of its tabs and its tabsets.
\<close>

record mount_facts =
  mf_userAgentData :: jv
  mf_storage :: bool
  mf_parent :: "string list option"
  mf_layout :: "(nat \<times> bool list) option"
  mf_stored :: stored_panel
  mf_viewport :: viewport

datatype mount_listener = ThemeEvents | PointerEvents | ResizeEvents | WorkerMessages | PageMessages | TabPresses | TabObserver

record mounted =
  mo_browser :: "jv option"
  mo_children :: "string list"
  mo_panel :: "panel option"
  mo_frame :: string
  mo_loads :: nat
  mo_listeners :: "mount_listener list"
  mo_injected :: bool
  mo_panelActive :: bool
  mo_tabs :: "tabs_state option"
  mo_clipped :: nat
  mo_log :: "string list"

definition unmounted :: "mount_facts \<Rightarrow> mounted" where
  "unmounted f = \<lparr>mo_browser = None, mo_children = (case mf_parent f of None \<Rightarrow> [] | Some ids \<Rightarrow> ids), mo_panel = None,
     mo_frame = [], mo_loads = 0, mo_listeners = [], mo_injected = False, mo_panelActive = False, mo_tabs = None,
     mo_clipped = 0, mo_log = []\<rparr>"

definition store_browser :: "mount_facts \<Rightarrow> jv \<Rightarrow> mounted \<Rightarrow> mounted" where
  "store_browser f browser m = (if mf_storage f then m\<lparr>mo_browser := Some browser\<rparr> else m)"

text \<open>The panel with its frame, the handle beside it and the listeners of the theme, the pointer and the sizes.\<close>

definition append_panel :: "mount_facts \<Rightarrow> mounted \<Rightarrow> mounted" where
  "append_panel f m = m\<lparr>mo_panel := Some (createPanel (mf_stored f) (mf_viewport f)),
     mo_frame := ''login-page.html'', mo_loads := 1,
     mo_children := mo_children m @ [''bsg-extension-resize-handle'', ''bsg-extension-wrapper''],
     mo_listeners := mo_listeners m @ [ThemeEvents, PointerEvents, ResizeEvents]\<rparr>"

definition connect_page :: "mounted \<Rightarrow> mounted" where
  "connect_page m = m\<lparr>mo_injected := True, mo_listeners := mo_listeners m @ [WorkerMessages, PageMessages]\<rparr>"

text \<open>\<open>tabsetLayout.querySelectorAll\<close> throws when the layout was not found.\<close>

definition watch_tabs :: "mount_facts \<Rightarrow> mounted \<Rightarrow> mounted \<times> jv option" where
  "watch_tabs f m =
     (case mf_layout f of
        None \<Rightarrow> (m\<lparr>mo_log := mo_log m @ [''tabset layout not found'']\<rparr>, Some type_error)
      | Some (tabs, actives) \<Rightarrow>
          (m\<lparr>mo_clipped := tabs, mo_tabs := Some (tabs_start actives),
             mo_listeners := mo_listeners m @ [TabPresses, TabObserver]\<rparr>, None))"

text \<open>The whole set-up with what it throws.\<close>

definition mount_panel :: "mount_facts \<Rightarrow> mounted \<times> jv option" where
  "mount_panel f =
     (case DetectBrowser (mf_userAgentData f) of
        Inl e \<Rightarrow> (unmounted f, Some e)
      | Inr browser \<Rightarrow>
          (let m = store_browser f browser (unmounted f) in
           case mf_parent f of
             None \<Rightarrow> (m\<lparr>mo_log := mo_log m @ [''where parent'']\<rparr>, None)
           | Some _ \<Rightarrow>
               if \<not> mf_storage f then (m, Some type_error)
               else watch_tabs f (connect_page (append_panel f m))))"

lemmas mount_defs = mount_panel_def watch_tabs_def connect_page_def append_panel_def store_browser_def unmounted_def Let_def

lemma panel_mounted_iff:
  "mo_panel (fst (mount_panel f)) \<noteq> None \<longleftrightarrow>
     (\<exists>b. DetectBrowser (mf_userAgentData f) = Inr b) \<and> mf_storage f \<and> mf_parent f \<noteq> None"
  by (auto simp: mount_defs split: sum.split option.split)

lemma nothing_without_user_agent:
  "DetectBrowser (mf_userAgentData f) = Inl e \<Longrightarrow> mount_panel f = (unmounted f, Some e)"
  by (simp add: mount_panel_def)

text \<open>The panel stands behind the content and its handle, and its geometry is the one of its invariant.\<close>

lemma mounted_panel:
  assumes "mo_panel (fst (mount_panel f)) = Some p" "0 < vp_width (mf_viewport f)" "stored_ok (mf_stored f)"
  shows "layout_inv (mf_viewport f, p) \<and>
    mo_children (fst (mount_panel f)) = the (mf_parent f) @ [''bsg-extension-resize-handle'', ''bsg-extension-wrapper'']"
  using assms layout_inv_create
  by (auto simp: mount_defs split: sum.splits option.splits if_splits)

text \<open>A set-up that ends without an exception and with a panel has connected every listener.\<close>

lemma mounted_completely:
  assumes "snd (mount_panel f) = None" "mo_panel (fst (mount_panel f)) \<noteq> None"
  shows "mo_listeners (fst (mount_panel f)) =
      [ThemeEvents, PointerEvents, ResizeEvents, WorkerMessages, PageMessages, TabPresses, TabObserver] \<and>
    mo_injected (fst (mount_panel f)) \<and> mo_tabs (fst (mount_panel f)) \<noteq> None"
  using assms by (auto simp: mount_defs split: sum.splits option.splits if_splits)

section \<open>Messages of the worker\<close>

text \<open>The parts of the listener that do not touch the size of the panel: the answer and the exception.\<close>

record message_outcome =
  mr_state :: mounted
  mr_answer :: "jv option"
  mr_thrown :: "jv option"

text \<open>\<open>ACTIVE\<close>: the flag is set before the layout is looked at.\<close>

definition on_active :: "mounted \<Rightarrow> mounted \<times> jv option" where
  "on_active m =
     (case mo_tabs m of
        Some t \<Rightarrow> (m\<lparr>mo_tabs := Some (activate_panel t), mo_panelActive := True\<rparr>, None)
      | None \<Rightarrow> if mo_panelActive m then (m, None) else (m\<lparr>mo_panelActive := True\<rparr>, Some type_error))"

definition on_worker_message :: "jv \<Rightarrow> mounted \<Rightarrow> message_outcome" where
  "on_worker_message message m =
     (case get message ''type'' of
        Inl e \<Rightarrow> \<lparr>mr_state = m, mr_answer = None, mr_thrown = Some e\<rparr>
      | Inr t \<Rightarrow>
          if strict_eq t (JStr ''AUTH_STATE_CHANGED'')
          then \<lparr>mr_state = m\<lparr>mo_loads := mo_loads m + 1\<rparr>, mr_answer = Some (JObj [(''success'', JBool True)]), mr_thrown = None\<rparr>
          else if strict_eq t (JStr ''ACTIVE'')
          then (let (m', thrown) = on_active m in \<lparr>mr_state = m', mr_answer = None, mr_thrown = thrown\<rparr>)
          else \<lparr>mr_state = m, mr_answer = None, mr_thrown = None\<rparr>)"

lemma active_tabs_inv:
  "mo_tabs m = Some t \<Longrightarrow> tabs_inv t \<Longrightarrow> \<exists>t'. mo_tabs (fst (on_active m)) = Some t' \<and> tabs_inv t' \<and> snd (on_active m) = None"
  using tabs_inv_step [of t PanelActive] by (simp add: on_active_def)

text \<open>
  On a page whose tabset layout is not there yet the panel appears, but the first activation throws, every
  later one is ignored, and neither the presses on LeetCode's tabs nor its new tabs are watched.
\<close>

lemma mounted_without_layout:
  assumes "mo_panel (fst (mount_panel f)) \<noteq> None" "mf_layout f = None"
  defines "m \<equiv> fst (mount_panel f)"
  defines "m' \<equiv> fst (on_active m)"
  shows "snd (mount_panel f) = Some type_error" "TabPresses \<notin> set (mo_listeners m)" "TabObserver \<notin> set (mo_listeners m)"
    "snd (on_active m) = Some type_error" "on_active m' = (m', None)" "mo_panelActive m'"
  using assms by (auto simp: mount_defs on_active_def split: sum.splits option.splits if_splits)

section \<open>The bar of the resize handle\<close>

record bar =
  br_color :: string
  br_height :: string
  br_dragging :: bool
  br_reads :: nat

text \<open>\<open>br_reads\<close>: the reads of the preference that the storage has not answered yet.\<close>

definition BAR_BLUE :: string where "BAR_BLUE = ''#3b82f6''"

definition barInit :: bar where
  "barInit = \<lparr>br_color = DARK_HANDLE, br_height = ''1.25rem'', br_dragging = False, br_reads = 0\<rparr>"

definition bar_lit :: "bar \<Rightarrow> bar" where
  "bar_lit b = b\<lparr>br_color := BAR_BLUE, br_height := ''100%''\<rparr>"

definition bar_released :: "bar \<Rightarrow> bar" where
  "bar_released b = b\<lparr>br_height := ''20px'', br_reads := br_reads b + 1\<rparr>"

datatype bar_event = PointerEnters | PointerLeaves | DragBegins | DragEnds | PreferenceRead jv bool

fun bar_step :: "bar_event \<Rightarrow> bar \<Rightarrow> bar" where
  "bar_step PointerEnters b = (if br_dragging b then b else bar_lit b)"
| "bar_step PointerLeaves b = (if br_dragging b then b else bar_released b)"
| "bar_step DragBegins b = bar_lit (b\<lparr>br_dragging := True\<rparr>)"
| "bar_step DragEnds b = (if br_dragging b then bar_released (b\<lparr>br_dragging := False\<rparr>) else b)"
| "bar_step (PreferenceRead pref systemDark) b =
     (if br_reads b = 0 then b else b\<lparr>br_color := handle_color pref systemDark, br_reads := br_reads b - 1\<rparr>)"

lemma handle_not_blue: "handle_color pref d \<noteq> BAR_BLUE"
  by (simp add: handle_color_def LIGHT_HANDLE_def DARK_HANDLE_def BAR_BLUE_def)

text \<open>A dragged bar is drawn at full height; a bar that is blue is, or a read is still to restore its colour.\<close>

definition handle_inv :: "bar \<Rightarrow> bool" where
  "handle_inv b \<longleftrightarrow> (br_dragging b \<longrightarrow> br_height b = ''100%'') \<and>
     (br_color b = BAR_BLUE \<longrightarrow> br_height b = ''100%'' \<or> 0 < br_reads b) \<and>
     br_color b \<in> {BAR_BLUE, LIGHT_HANDLE, DARK_HANDLE}"

lemma handle_inv_init: "handle_inv barInit"
  by (simp add: handle_inv_def barInit_def BAR_BLUE_def DARK_HANDLE_def)

lemma handle_inv_step: "handle_inv b \<Longrightarrow> handle_inv (bar_step e b)"
  by (cases e) (auto simp: handle_inv_def bar_lit_def bar_released_def handle_not_blue, auto simp: handle_color_def)

interpretation handle_bar: machine barInit bar_step handle_inv
  by unfold_locales (rule handle_inv_init, rule handle_inv_step)

text \<open>A bar that is not in use loses its colour once the reads are answered.\<close>

lemma idle_bar_not_blue:
  "br_height (run bar_step es barInit) \<noteq> ''100%'' \<Longrightarrow> br_reads (run bar_step es barInit) = 0 \<Longrightarrow>
   br_color (run bar_step es barInit) \<noteq> BAR_BLUE"
  using handle_bar.inv_run_init [of es] by (auto simp: handle_inv_def)

text \<open>With a storage that answers before the next event, the bar is blue exactly while it is drawn at full height.\<close>

definition prompt_step :: "jv \<Rightarrow> bool \<Rightarrow> bar_event \<Rightarrow> bar \<Rightarrow> bar" where
  "prompt_step pref systemDark e b =
     (let b' = bar_step e b in if 0 < br_reads b' then bar_step (PreferenceRead pref systemDark) b' else b')"

definition prompt_inv :: "bar \<Rightarrow> bool" where
  "prompt_inv b \<longleftrightarrow> handle_inv b \<and> br_reads b = 0 \<and> (br_color b = BAR_BLUE \<longleftrightarrow> br_height b = ''100%'')"

lemma prompt_inv_step: "prompt_inv b \<Longrightarrow> prompt_inv (prompt_step pref d e b)"
  using handle_inv_step [of b e] handle_inv_step [of "bar_step e b" "PreferenceRead pref d"]
  by (cases e) (auto simp: prompt_inv_def prompt_step_def Let_def bar_lit_def bar_released_def handle_not_blue)

interpretation prompt_bar: machine barInit "prompt_step pref systemDark" prompt_inv for pref systemDark
  by unfold_locales (simp add: prompt_inv_def handle_inv_init, simp add: barInit_def BAR_BLUE_def DARK_HANDLE_def,
      rule prompt_inv_step)

lemma bar_blue_iff_full:
  "br_color (run (prompt_step pref d) es barInit) = BAR_BLUE \<longleftrightarrow> br_height (run (prompt_step pref d) es barInit) = ''100%''"
  using prompt_bar.inv_run_init [of pref d es] by (simp add: prompt_inv_def)

text \<open>A read that is answered late dims the bar while the pointer is over it again, or drags it.\<close>

lemma late_read_dims_bar:
  "br_color (run bar_step [PointerEnters, PointerLeaves, DragBegins, PreferenceRead (JStr ''dark'') True] barInit) = DARK_HANDLE"
  "br_dragging (run bar_step [PointerEnters, PointerLeaves, DragBegins, PreferenceRead (JStr ''dark'') True] barInit)"
  by (simp_all add: barInit_def bar_lit_def bar_released_def handle_color_def)

end
