(* ===== verification/Login_Flow.thy ===== *)
theory Login_Flow
  imports Gateway_App
begin

text \<open>
  Signing in at the gateway (\<open>src/server/src/config/passport.js\<close>, \<open>src/server/src/routes/auth.js\<close>): the options of
  the three strategies, what the session keeps of a user, and the routes that Passport serves. Passport itself is
  a parameter: how it starts a flow and how it finishes one. The theorems follow a user from the callback of a
  login to the requests of the session.
\<close>

section \<open>The session\<close>

definition serializeUser :: "jv \<Rightarrow> jv" where
  "serializeUser user = user"

definition deserializeUser :: "jv \<Rightarrow> jv" where
  "deserializeUser user = user"

text \<open>The request of a session, as Passport restores it.\<close>

definition with_user :: "jv \<Rightarrow> server_request \<Rightarrow> server_request" where
  "with_user user req = req\<lparr>sr_authenticated := True, sr_user := deserializeUser (serializeUser user)\<rparr>"

section \<open>The strategies\<close>

text \<open>\<open>oo_sessionKey\<close> is \<open>None\<close> where the strategy keeps the default of its library.\<close>

record oauth_options =
  oo_clientID :: jv
  oo_clientSecret :: jv
  oo_callbackURL :: string
  oo_state :: bool
  oo_sessionKey :: "string option"

text \<open>The variables of the process that the strategies read.\<close>

record oauth_env =
  en_SERVER_URL :: jv
  en_GOOGLE_CLIENT_ID :: jv
  en_GOOGLE_CLIENT_SECRET :: jv
  en_GITHUB_CLIENT_ID :: jv
  en_GITHUB_CLIENT_SECRET :: jv

definition callback_base :: "oauth_env \<Rightarrow> string" where
  "callback_base env = to_str (js_or (en_SERVER_URL env) (JStr ''https://api.binarysearchgang.com''))"

definition google_strategy :: "oauth_env \<Rightarrow> oauth_options" where
  "google_strategy env = \<lparr>oo_clientID = en_GOOGLE_CLIENT_ID env, oo_clientSecret = en_GOOGLE_CLIENT_SECRET env,
     oo_callbackURL = callback_base env @ ''/auth/google/callback'', oo_state = True, oo_sessionKey = None\<rparr>"

definition github_strategy :: "oauth_env \<Rightarrow> oauth_options" where
  "github_strategy env = \<lparr>oo_clientID = en_GITHUB_CLIENT_ID env, oo_clientSecret = en_GITHUB_CLIENT_SECRET env,
     oo_callbackURL = callback_base env @ ''/auth/github/callback'', oo_state = True, oo_sessionKey = None\<rparr>"

definition connect_strategy :: "oauth_env \<Rightarrow> oauth_options" where
  "connect_strategy env = \<lparr>oo_clientID = en_GITHUB_CLIENT_ID env, oo_clientSecret = en_GITHUB_CLIENT_SECRET env,
     oo_callbackURL = to_str (en_SERVER_URL env) @ ''/auth/github/callback/connect'', oo_state = True,
     oo_sessionKey = Some ''oauth2:github.com:connect''\<rparr>"

definition session_key :: "string \<Rightarrow> oauth_options \<Rightarrow> string" where
  "session_key dflt o1 = (case oo_sessionKey o1 of None \<Rightarrow> dflt | Some k \<Rightarrow> k)"

text \<open>The two flows with GitHub keep their states apart, for the default key that the code names.\<close>

lemma github_flows_apart:
  "session_key ''oauth2:github.com'' (github_strategy env) \<noteq> session_key ''oauth2:github.com'' (connect_strategy env)"
  by (simp add: session_key_def github_strategy_def connect_strategy_def)

text \<open>Without \<open>SERVER_URL\<close> the logins fall back to the production host, and the connection to no host at all.\<close>

lemma connect_needs_server_url:
  assumes "en_SERVER_URL env = JUndef"
  shows "oo_callbackURL (github_strategy env) = ''https://api.binarysearchgang.com/auth/github/callback''"
    "oo_callbackURL (connect_strategy env) = ''undefined/auth/github/callback/connect''"
  using assms by (simp_all add: github_strategy_def connect_strategy_def callback_base_def js_or_def)

section \<open>The routes that Passport serves\<close>

text \<open>
  \<open>ps_start strategy scope\<close> redirects to the provider; \<open>ps_finish strategy failureRedirect next\<close> ends a flow and
  passes the request on.
\<close>

record 'r passport =
  ps_start :: "string \<Rightarrow> string list \<Rightarrow> server_request \<Rightarrow> ('r server, response) js"
  ps_finish :: "string \<Rightarrow> string \<Rightarrow> (server_request \<Rightarrow> ('r server, response) js) \<Rightarrow> server_request \<Rightarrow> ('r server, response) js"

definition google_signed_in :: "server_request \<Rightarrow> ('r server, response) js" where
  "google_signed_in req = ret (redirect ''/auth/done'')"

definition github_signed_in :: "server_request \<Rightarrow> ('r server, response) js" where
  "github_signed_in req = ret (redirect ''/auth/done'')"

definition passport_route :: "'r passport \<Rightarrow> string \<Rightarrow> server_request \<Rightarrow> ('r server, response) js" where
  "passport_route ps p =
     (if p = ''google'' then ps_start ps ''google'' [''profile'', ''email'']
      else if p = ''google/callback'' then ps_finish ps ''google'' ''/auth/google'' google_signed_in
      else if p = ''github'' then ps_start ps ''github'' [''user:email'']
      else ps_finish ps ''github'' ''/'' github_signed_in)"

definition with_passport :: "'r passport \<Rightarrow> 'r outside \<Rightarrow> 'r outside" where
  "with_passport ps os = os\<lparr>os_passport := passport_route ps, os_authorize := ps_start ps ''github-connect'' [''public_repo'']\<rparr>"

text \<open>Every callback URL of a strategy is a path that the gateway serves for it.\<close>

lemma callback_urls_served:
  "find_route auth_table ''GET'' (path_segments ''/auth/google/callback'') = Some (Passport ''google/callback'', [])"
  "find_route auth_table ''GET'' (path_segments ''/auth/github/callback'') = Some (Passport ''github/callback'', [])"
  "find_route auth_table ''GET'' (path_segments ''/auth/github/callback/connect'') = Some (ConnectCallback, [])"
  "find_route auth_table ''GET'' (path_segments connect_done) = Some (Done, [])"
  by (simp_all add: path_segments_def auth_table_def connect_done_def)

text \<open>
  What Passport documents of a login with GitHub: \<open>grant\<close> is what the exchange of the code gives, a token and a
  profile. Without one the user is redirected; with one the verify callback decides, its user is kept in the
  session and \<open>next\<close> runs, and its error goes to Express.
\<close>

definition finishes_github :: "(server_request \<Rightarrow> (string \<times> jv) option) \<Rightarrow> 'r passport \<Rightarrow> bool" where
  "finishes_github grant ps \<longleftrightarrow> (\<forall>failed after req s. ps_finish ps ''github'' failed after req s =
     (case grant req of
        None \<Rightarrow> (Inr (redirect failed), s)
      | Some (accessToken, profile) \<Rightarrow>
          (case github_verify accessToken profile s of
             (Inr (Inr user), s') \<Rightarrow> after (with_user user req) s'
           | (Inr (Inl e), s') \<Rightarrow> (Inl e, s')
           | (Inl e, s') \<Rightarrow> (Inl e, s'))))"

section \<open>What a login establishes\<close>

lemma rotate_jobs: "preserves sv_jobs (rotate_token uid tok)"
  unfolding rotate_token_def getStoredGithubToken_def saveGithubToken_def revokeGithubToken_def when_do_def
  by (intro frame_intro)
     (auto simp: preserves_def bnd_def asks_def ret_def fetch_out_def redis_def Let_def split: answer.split prod.split sum.split option.split)

lemma rotate_total: "\<exists>t. rotate_token uid tok s = (Inr (), t) \<and> sv_jobs t = sv_jobs s"
proof (cases "rotate_token uid tok s")
  case (Pair r t)
  have "r = Inr ()" using Pair unfolding rotate_token_def
    by (auto simp: catch_def ret_def split: prod.splits sum.splits)
  moreover have "sv_jobs t = sv_jobs s" using preservesD [OF rotate_jobs, of uid tok s] Pair by simp
  ultimately show ?thesis using Pair by simp
qed

text \<open>The verify callback never throws; it fails exactly for a profile without a name, and then touches nothing.\<close>

lemma github_verify_outcome:
  "case user_data (github_user (JStr tok) profile) of
     Inl e \<Rightarrow> github_verify tok profile s = (Inr (Inl e), s)
   | Inr userData \<Rightarrow> \<exists>t. github_verify tok profile s = (Inr (Inr (JObj (github_user (JStr tok) profile))), t) \<and>
       sv_jobs t = sv_jobs s @ [SyncUser (opt_get profile ''id'') (json_stringify userData)]"
proof (cases "user_data (github_user (JStr tok) profile)")
  case (Inl e)
  then show ?thesis by (simp add: github_verify_def Let_def catch_def bnd_def lift_def throw_def ret_def)
next
  case (Inr ud)
  let ?s = "s\<lparr>sv_jobs := sv_jobs s @ [SyncUser (opt_get profile ''id'') (json_stringify ud)]\<rparr>"
  obtain t where "rotate_token (opt_get profile ''id'') tok ?s = (Inr (), t)" "sv_jobs t = sv_jobs ?s"
    using rotate_total by blast
  then show ?thesis using Inr
    by (simp add: github_verify_def Let_def catch_def lift_def seqm_run github_user_def obj_lookup_def ret_def)
qed

lemma github_verify_user:
  assumes "github_verify tok profile s = (Inr (Inr user), t)"
  shows "user = JObj (github_user (JStr tok) profile) \<and>
    (\<exists>body. sv_jobs t = sv_jobs s @ [SyncUser (opt_get profile ''id'') body])"
  using assms github_verify_outcome [of tok profile s] by (auto split: sum.splits)

text \<open>
  C6: whom a login with GitHub signs in: the central service is told of the user under the id of the GitHub
  profile, every request that the session then makes to the central service, on any route, carries that id and
  the server's secret, and what the gateway tells the panel about the user never contains the token.
\<close>

theorem signed_in_identity:
  assumes "github_verify tok profile s = (Inr (Inr user), t)"
  shows "(\<exists>body. sv_jobs t = sv_jobs s @ [SyncUser (opt_get profile ''id'') body]) \<and>
    (\<exists>q. snd (serve r (with_user user req) t') = t'\<lparr>sv_sent := sv_sent t' @ [q]\<rparr> \<and>
       map_of (og_headers q) ''X-User-Auth-ID'' = Some (to_str (opt_get profile ''id'')) \<and>
       map_of (og_headers q) ''X-Server-Secret'' = Some (to_str (sv_secret t'))) \<and>
    get_user (with_user user req) = send_json (JObj [(''id'', opt_get profile ''id''),
       (''name'', js_or (opt_get profile ''displayName'') (opt_get profile ''username'')),
       (''email'', first_value (opt_get profile ''emails'')), (''photo'', first_value (opt_get profile ''photos''))])"
proof -
  let ?req = "with_user user req"
  have u: "user = JObj (github_user (JStr tok) profile)" using github_verify_user [OF assms] by blast
  have ok: "sr_authenticated ?req" "truthy (sr_user ?req)"
    by (simp_all add: with_user_def deserializeUser_def serializeUser_def u)
  have i: "auth_id ?req = opt_get profile ''id''"
    by (simp add: auth_id_def with_user_def deserializeUser_def serializeUser_def u opt_get_def [of "JObj _"]
        github_user_def obj_lookup_def)
  from serve_sends [OF ok, of r t'] obtain verb p extra body where e: "extra = [] \<or> extra = json_type" and
    q: "serve r ?req t' = (let q = central_request t' verb (''/api/'' @ p) extra body (auth_id ?req) in
      (Inr (relays r (sv_fetch t' (sv_sent t') q)), t'\<lparr>sv_sent := sv_sent t' @ [q]\<rparr>))" by (elim exE conjE)
  have "get_user ?req = send_json (JObj [(''id'', opt_get profile ''id''),
       (''name'', js_or (opt_get profile ''displayName'') (opt_get profile ''username'')),
       (''email'', first_value (opt_get profile ''emails'')), (''photo'', first_value (opt_get profile ''photos''))])"
    by (simp add: get_user_def with_user_def deserializeUser_def serializeUser_def u opt_get_def [of "JObj _"]
        github_user_def obj_lookup_def)
  moreover have "\<exists>q. snd (serve r ?req t') = t'\<lparr>sv_sent := sv_sent t' @ [q]\<rparr> \<and> speaks_for t' ?req q"
    using q central_request_speaks [OF e, of t' ?req verb p body]
    by (intro exI [of _ "central_request t' verb (''/api/'' @ p) extra body (auth_id ?req)"]) (simp add: Let_def)
  ultimately show ?thesis
    using github_verify_user [OF assms] unfolding speaks_for_def i by blast
qed

definition demo_profile :: jv where
  "demo_profile = JObj [(''id'', JStr ''42''), (''username'', JStr ''ada'')]"

theorem signed_in_identity_witness:
  "\<exists>user t q. github_verify ''gho_1'' demo_profile github_demo = (Inr (Inr user), t) \<and>
     snd (serve GetActive (with_user user (session_request JUndef [])) t) = t\<lparr>sv_sent := sv_sent t @ [q]\<rparr> \<and>
     map_of (og_headers q) ''X-User-Auth-ID'' = Some ''42''"
proof -
  have "user_data (github_user (JStr ''gho_1'') demo_profile) = Inr [(''firstName'', JStr ''ada''), (''lastName'', JStr []),
      (''handle'', JStr ''ada''), (''email'', JUndef), (''photoURL'', JUndef)]"
    by (simp add: user_data_def github_user_def demo_profile_def opt_get_def obj_lookup_def js_or_def first_value_def
        first_name_def last_name_def)
  then obtain t where t: "github_verify ''gho_1'' demo_profile github_demo =
      (Inr (Inr (JObj (github_user (JStr ''gho_1'') demo_profile))), t)"
    using github_verify_outcome [of "''gho_1''" demo_profile github_demo] by auto
  show ?thesis using signed_in_identity [OF t, of GetActive "session_request JUndef []" t] t
    by (auto simp: demo_profile_def opt_get_def obj_lookup_def)
qed

text \<open>The callback of the login through the routes of the gateway, and the page that it ends on.\<close>

lemma github_login_ends:
  assumes "finishes_github grant ps" "grant (req\<lparr>sr_id := []\<rparr>) = Some (tok, profile)"
    and "user_data (github_user (JStr tok) profile) = Inr ud"
    and "sr_method req = ''GET''" "sr_path req = ''/auth/github/callback''"
  shows "\<exists>t. routed (with_passport ps os) auth_table after req s = (Inr (redirect connect_done), t) \<and>
    sv_jobs t = sv_jobs s @ [SyncUser (opt_get profile ''id'') (json_stringify ud)]"
  using assms github_verify_outcome [of tok profile s] callback_urls_served(2)
  by (auto simp: routed_def with_passport_def passport_route_def finishes_github_def github_signed_in_def connect_done_def ret_def)

lemma done_page_of_login:
  "done_page os (req\<lparr>sr_query := []\<rparr>) = status_send 200 (os_linkedPage os)"
  by (simp add: done_page_def obj_lookup_def)

text \<open>
  A refused login with GitHub is redirected to a path that the gateway does not serve; a refused login with Google
  is sent straight back to Google.
\<close>

lemma refused_login_unserved:
  "find_route auth_table ''GET'' (path_segments ''/'') = None" "find_route global_table ''GET'' (path_segments ''/'') = None"
  "find_route auth_table ''GET'' (path_segments ''/auth/google'') = Some (Passport ''google'', [])"
  by (simp_all add: path_segments_def auth_table_def global_table_def rooms_table_def problems_table_def other_table_def)

lemma refused_github_login:
  assumes "finishes_github grant ps" "grant (req\<lparr>sr_id := []\<rparr>) = None"
    and "sr_method req = ''GET''" "sr_path req = ''/auth/github/callback''"
  shows "routed (with_passport ps os) auth_table after req s = (Inr (redirect ''/''), s)"
  using assms callback_urls_served(2)
  by (simp add: routed_def with_passport_def passport_route_def finishes_github_def)

end
