(* ===== verification/Rankings_View.thy ===== *)
theory Rankings_View
  imports Round_Statistics
begin

text \<open>
  What the two displays of a round put on the screen: the podium and the rows of
  \<open>customComponents/RoomDisplays/LeaderboardDisplay.tsx\<close>, and the tabs, cards, slices, problems and bars of
  \<open>customComponents/RoomDisplays/StatisticsDisplay.tsx\<close>. A page is the list of its parts with their texts and
  the styles that depend on data. \<open>toLocaleString\<close> is a parameter, an em dash is written as \<open>''-''\<close>.
\<close>

section \<open>Avatars\<close>

text \<open>\<open>name[0]?.toUpperCase() ?? "?"\<close>\<close>

definition initials :: "string \<Rightarrow> string" where
  "initials name = (case name of [] \<Rightarrow> ''?'' | c # _ \<Rightarrow> upper_char c)"

datatype avatar_size = Sm | Md | Lg

definition size_class :: "avatar_size \<Rightarrow> string" where
  "size_class s = (case s of Lg \<Rightarrow> ''w-14 h-14 text-2xl'' | Md \<Rightarrow> ''w-10 h-10 text-lg'' | Sm \<Rightarrow> ''w-7 h-7 text-sm'')"

datatype avatar = Picture string string string | Letters string string

definition PlayerAvatar :: "participant \<Rightarrow> avatar_size \<Rightarrow> avatar" where
  "PlayerAvatar p sz =
     (if truthy (p_avatarUrl p) then Picture (to_str (p_avatarUrl p)) (to_str (p_username p)) (size_class sz)
      else Letters (initials (to_str (p_username p))) (size_class sz))"

section \<open>The podium\<close>

text \<open>The opacities are kept as the texts that a template literal makes of them.\<close>

record podium_slot =
  sl_rank :: nat
  sl_podiumHeight :: string
  sl_avatarSize :: avatar_size
  sl_rankTextSize :: string
  sl_glowOpacity :: string
  sl_borderOpacity :: string
  sl_topRoofOpacity :: string
  sl_showTrophy :: bool
  sl_color :: "string option"
  sl_podiumBackground :: "string option"

definition PODIUM_SLOTS :: "podium_slot list" where
  "PODIUM_SLOTS =
     [\<lparr>sl_rank = 2, sl_podiumHeight = ''h-[160px]'', sl_avatarSize = Md, sl_rankTextSize = ''text-3xl'', sl_glowOpacity = ''0.3'',
        sl_borderOpacity = ''0.3'', sl_topRoofOpacity = ''0.4'', sl_showTrophy = False, sl_color = Some ''#72ab1c'',
        sl_podiumBackground = Some ''linear-gradient(to bottom, rgba(58,85,24,0.6), rgba(42,61,18,0.8), rgba(30,42,13,0.9))''\<rparr>,
      \<lparr>sl_rank = 1, sl_podiumHeight = ''h-[200px]'', sl_avatarSize = Lg, sl_rankTextSize = ''text-4xl'', sl_glowOpacity = ''0.8'',
        sl_borderOpacity = ''0.9'', sl_topRoofOpacity = ''0.9'', sl_showTrophy = True, sl_color = Some ''#587f28ff'',
        sl_podiumBackground = Some ''linear-gradient(to bottom, rgba(88, 127, 40, 1), rgba(50, 87, 24, 0.8), rgba(30,42,13,0.9))''\<rparr>,
      \<lparr>sl_rank = 3, sl_podiumHeight = ''h-[120px]'', sl_avatarSize = Md, sl_rankTextSize = ''text-2xl'', sl_glowOpacity = ''0.15'',
        sl_borderOpacity = ''0.3'', sl_topRoofOpacity = ''0.3'', sl_showTrophy = False, sl_color = Some ''#93c449ff'',
        sl_podiumBackground = Some ''linear-gradient(to bottom, rgba(50, 74, 20, 0.6), rgba(40, 61, 15, 0.8), rgba(30,42,13,0.9))''\<rparr>]"

lemma podium_ranks: "map sl_rank PODIUM_SLOTS = PODIUM_RANKS"
  by (simp add: PODIUM_SLOTS_def PODIUM_RANKS_def)

text \<open>\<open>rgba(...)\<close> of a colour; \<open>None\<close> where the text would hold a NaN.\<close>

definition rgba :: "string \<Rightarrow> string \<Rightarrow> string option" where
  "rgba color opacity = map_option (\<lambda>rgb. ''rgba('' @ rgb @ '','' @ opacity @ '')'') (hexToRgb color)"

record podium_column =
  cl_rank :: nat
  cl_height :: string
  cl_rankText :: string
  cl_avatar :: avatar
  cl_trophy :: bool
  cl_glow :: "string option"
  cl_border :: "string option"
  cl_roof :: "string option"
  cl_background :: string
  cl_name :: string
  cl_score :: string

definition GREEN_BACKGROUND :: string where
  "GREEN_BACKGROUND = ''linear-gradient(to bottom, rgba(58,85,24,0.6), rgba(42,61,18,0.8), rgba(30,42,13,0.9))''"

text \<open>A column without a player is blank.\<close>

definition PodiumColumn :: "(jv \<Rightarrow> string) \<Rightarrow> podium_slot \<Rightarrow> participant option \<Rightarrow> podium_column option" where
  "PodiumColumn toLocale sl p =
     (case p of
        None \<Rightarrow> None
      | Some q \<Rightarrow>
          (let color = (case sl_color sl of None \<Rightarrow> ''#72ab1c'' | Some c \<Rightarrow> c) in
           Some \<lparr>cl_rank = sl_rank sl, cl_height = sl_podiumHeight sl, cl_rankText = sl_rankTextSize sl,
             cl_avatar = PlayerAvatar q (sl_avatarSize sl), cl_trophy = sl_showTrophy sl,
             cl_glow = rgba color (sl_glowOpacity sl), cl_border = rgba color (sl_borderOpacity sl),
             cl_roof = rgba color (sl_topRoofOpacity sl),
             cl_background = (case sl_podiumBackground sl of None \<Rightarrow> GREEN_BACKGROUND | Some b \<Rightarrow> b),
             cl_name = to_str (p_username q), cl_score = toLocale (p_score q)\<rparr>))"

section \<open>The leaderboard page\<close>

record ranked_row =
  rw_rank :: nat
  rw_avatar :: avatar
  rw_name :: string
  rw_score :: string

datatype board_part = ErrorBanner string | BoardSkeleton | NoRankings
  | Podium "podium_column option list" | RankedRows "ranked_row list"

definition ranked_row_of :: "(jv \<Rightarrow> string) \<Rightarrow> nat \<times> participant \<Rightarrow> ranked_row" where
  "ranked_row_of toLocale r = (case r of (rank, p) \<Rightarrow>
     \<lparr>rw_rank = rank, rw_avatar = PlayerAvatar p Sm, rw_name = to_str (p_username p), rw_score = toLocale (p_score p)\<rparr>)"

definition LeaderboardDisplay :: "(jv \<Rightarrow> string) \<Rightarrow> participant list \<Rightarrow> bool \<Rightarrow> jv \<Rightarrow> board_part list" where
  "LeaderboardDisplay toLocale sorted_ps isLoading err =
     (if truthy err then [ErrorBanner (to_str err)] else []) @
     (if isLoading \<and> length sorted_ps = 0 then [BoardSkeleton] else []) @
     (if \<not> isLoading \<and> length sorted_ps = 0 then [NoRankings] else []) @
     (if length sorted_ps > 0 then
        [Podium (map (\<lambda>sl. PodiumColumn toLocale sl (byRank sorted_ps (sl_rank sl))) PODIUM_SLOTS),
         RankedRows (map (ranked_row_of toLocale) (rest_of sorted_ps))]
      else [])"

text \<open>The ranks on the page with the players they are given to.\<close>

fun ranks_of :: "board_part \<Rightarrow> (nat \<times> string) list" where
  "ranks_of (Podium cols) = List.map_filter (map_option (\<lambda>c. (cl_rank c, cl_name c))) cols"
| "ranks_of (RankedRows rows) = map (\<lambda>r. (rw_rank r, rw_name r)) rows"
| "ranks_of _ = []"

definition board_ranks :: "board_part list \<Rightarrow> (nat \<times> string) list" where
  "board_ranks page = concat (map ranks_of page)"

lemma column_rank:
  "map_option (\<lambda>c. (cl_rank c, cl_name c)) (PodiumColumn toLocale sl p) =
     map_option (\<lambda>q. (sl_rank sl, to_str (p_username q))) p"
  by (simp add: PodiumColumn_def Let_def split: option.split)

lemma map_filter_map: "List.map_filter f (map g xs) = List.map_filter (\<lambda>x. f (g x)) xs"
  by (induction xs) (auto simp: map_filter_simps split: option.split)

lemma podium_shows:
  "ranks_of (Podium (map (\<lambda>sl. PodiumColumn toLocale sl (byRank ps (sl_rank sl))) PODIUM_SLOTS)) =
     List.map_filter (\<lambda>r. map_option (\<lambda>q. (r, to_str (p_username q))) (byRank ps r)) PODIUM_RANKS"
  by (simp add: map_filter_map column_rank flip: podium_ranks)

lemma rows_show:
  "ranks_of (RankedRows (map (ranked_row_of toLocale) (rest_of ps))) =
     enumerate 4 (map (\<lambda>p. to_str (p_username p)) (drop 3 ps))"
proof -
  have "map (\<lambda>x. case x of (rank, p) \<Rightarrow> (rank, to_str (p_username p))) (enumerate n qs) =
      enumerate n (map (\<lambda>p. to_str (p_username p)) qs)" for n qs
    by (induction qs arbitrary: n) simp_all
  then show ?thesis by (simp add: rest_of_def ranked_row_of_def comp_def split_beta)
qed

text \<open>
  C14: the leaderboard gives every player one rank: whatever the number of players, the podium and the rows
  together show each player of the standings exactly once, with its place in them counted from one, and a
  page without players shows either that it loads or that there are no rankings.
\<close>

theorem everyone_ranked_once:
  "mset (board_ranks (LeaderboardDisplay toLocale ps isLoading err)) = mset (enumerate 1 (map (\<lambda>p. to_str (p_username p)) ps)) \<and>
   (BoardSkeleton \<in> set (LeaderboardDisplay toLocale ps isLoading err) \<longleftrightarrow> ps = [] \<and> isLoading) \<and>
   (NoRankings \<in> set (LeaderboardDisplay toLocale ps isLoading err) \<longleftrightarrow> ps = [] \<and> \<not> isLoading)"
proof -
  let ?name = "\<lambda>p. to_str (p_username p)"
  have none: "byRank [] r = None" for r by (simp add: byRank_def arr_at_def)
  have parts: "board_ranks (LeaderboardDisplay toLocale ps isLoading err) =
      List.map_filter (\<lambda>r. map_option (\<lambda>q. (r, ?name q)) (byRank ps r)) PODIUM_RANKS @ enumerate 4 (map ?name (drop 3 ps))"
  proof (cases ps)
    case Nil
    then show ?thesis by (simp add: LeaderboardDisplay_def board_ranks_def none PODIUM_RANKS_def map_filter_simps)
  next
    case (Cons p qs)
    then show ?thesis unfolding LeaderboardDisplay_def board_ranks_def
      using podium_shows [of toLocale ps] rows_show [of toLocale ps] by simp
  qed
  consider "ps = []" | a where "ps = [a]" | a b where "ps = [a, b]" | a b c qs where "ps = a # b # c # qs"
    by (metis list.exhaust)
  then have "mset (board_ranks (LeaderboardDisplay toLocale ps isLoading err)) = mset (enumerate 1 (map ?name ps))"
    unfolding parts by cases (simp_all add: byRank_def arr_at_def PODIUM_RANKS_def map_filter_simps eval_nat_numeral)
  then show ?thesis by (auto simp: LeaderboardDisplay_def)
qed

text \<open>The styles of the podium are well-formed colours.\<close>

lemma podium_colors:
  "sl \<in> set PODIUM_SLOTS \<Longrightarrow> rgba (the (sl_color sl)) opacity \<noteq> None"
  by (auto simp: PODIUM_SLOTS_def rgba_def hexToRgb_def hex_pair_def hex_val_def)

section \<open>The statistics page\<close>

definition difficulty_name :: "difficulty \<Rightarrow> string" where
  "difficulty_name d = (case d of Easy \<Rightarrow> ''Easy'' | Medium \<Rightarrow> ''Medium'' | Hard \<Rightarrow> ''Hard'')"

definition difficulty_color :: "difficulty \<Rightarrow> string" where
  "difficulty_color d = (case d of Easy \<Rightarrow> ''#10b981'' | Medium \<Rightarrow> ''#ffa500'' | Hard \<Rightarrow> ''#ff4d4d'')"

text \<open>The slice under the pointer: its name, its time and its solved count.\<close>

definition PieTooltip :: "bool \<Rightarrow> (difficulty \<times> int \<times> nat) list \<Rightarrow> (string \<times> string \<times> string) option" where
  "PieTooltip active payload =
     (if \<not> active then None
      else (case payload of
              [] \<Rightarrow> None
            | (d, secs, n) # _ \<Rightarrow> Some (difficulty_name d, ''Time: '' @ min_sec secs, ''Solved: '' @ show_nat n)))"

text \<open>\<open>problemTimeMap\<close>; \<open>None\<close> when a time stamp is unreadable.\<close>

definition problemTimeMap :: "string option \<Rightarrow> round_details option \<Rightarrow> (int \<rightharpoonup> string) option" where
  "problemTimeMap selected rd =
     (case (selected, rd) of
        (Some uid, Some r) \<Rightarrow>
          (case rd_solvedProblems r of
             None \<Rightarrow> Some Map.empty
           | Some m \<Rightarrow>
               if rd_roundStartTime r = [] \<or> solved_of m uid = [] then Some Map.empty
               else (case (sortedSolved (solved_of m uid), parse_date (rd_roundStartTime r)) of
                  (Some ss, Some start) \<Rightarrow> Some (time_texts start ss)
                | _ \<Rightarrow> None))
      | _ \<Rightarrow> Some Map.empty)"

record stat_card =
  sc_label :: string
  sc_value :: string
  sc_dim :: bool

record problem_row =
  pr_id :: int
  pr_solved :: bool
  pr_name :: string
  pr_color :: "string option"
  pr_difficulty :: string
  pr_time :: string

record statistics_page =
  sg_tabs :: "(string \<times> bool) list"
  sg_cards :: "stat_card list"
  sg_slices :: "(difficulty \<times> int \<times> nat) list"
  sg_legend :: "(string \<times> string) list"
  sg_problems :: "problem_row list"
  sg_bars :: "(string \<times> jv \<times> bool) list"

definition difficulty_cards :: "round_problem list \<Rightarrow> int list \<Rightarrow> stat_card list" where
  "difficulty_cards probs ids =
     map (\<lambda>k. \<lparr>sc_label = difficulty_name k,
           sc_value = show_nat (diff_solved probs ids k) @ ''/'' @ show_nat (diff_total probs k),
           sc_dim = (diff_solved probs ids k = 0)\<rparr>)
       (filter (\<lambda>k. diff_total probs k > 0) [Easy, Medium, Hard])"

definition stat_cards :: "(jv \<Rightarrow> string) \<Rightarrow> jv \<Rightarrow> bool \<Rightarrow> solve_view \<Rightarrow> round_problem list \<Rightarrow> stat_card list" where
  "stat_cards toLocale score isSelected view probs =
     [\<lparr>sc_label = ''Points'', sc_value = toLocale (js_coalesce score (JNum 0)), sc_dim = False\<rparr>,
      \<lparr>sc_label = ''Solved'', sc_value = (if isSelected then show_nat (length (sw_solvedIds view)) else ''-''),
        sc_dim = (\<not> isSelected \<or> length (sw_solvedIds view) = 0)\<rparr>,
      \<lparr>sc_label = ''Total Time'', sc_value = sw_totalTime view, sc_dim = (sw_totalTime view = ''-'')\<rparr>] @
     difficulty_cards probs (sw_solvedIds view)"

definition problem_row_of :: "int list \<Rightarrow> (int \<rightharpoonup> string) \<Rightarrow> round_problem \<Rightarrow> problem_row" where
  "problem_row_of ids tms p =
     (let isSolved = (rp_id p \<in> set ids); timeStr = (case tms (rp_id p) of None \<Rightarrow> ''-'' | Some t \<Rightarrow> t) in
      \<lparr>pr_id = rp_id p, pr_solved = isSolved, pr_name = rp_name p,
        pr_color = map_option difficulty_color (difficulty_of (rp_difficulty p)), pr_difficulty = rp_difficulty p,
        pr_time = (if isSolved then timeStr else ''-'')\<rparr>)"

definition StatisticsDisplay ::
  "(jv \<Rightarrow> string) \<Rightarrow> nat \<Rightarrow> participant list \<Rightarrow> jv \<Rightarrow> round_details option \<Rightarrow> statistics_page option" where
  "StatisticsDisplay toLocale selectedIdx ps score rd =
     (let sel = map_option (\<lambda>p. to_str (p_id p)) (selected_of selectedIdx ps); probs = details_problems rd in
      case (solve_memo sel rd, problemTimeMap sel rd) of
        (Some view, Some tms) \<Rightarrow> Some
          \<lparr>sg_tabs = map (\<lambda>(idx, p). (to_str (p_username p), idx = selectedIdx)) (enumerate 0 ps),
            sg_cards = stat_cards toLocale score (sel \<noteq> None) view probs,
            sg_slices = pieData (sw_perDifficulty view) (diff_solved probs (sw_solvedIds view)),
            sg_legend = map (\<lambda>k. (difficulty_name k,
              if sw_perDifficulty view k > 0 then min_sec (sw_perDifficulty view k) else ''-'')) [Easy, Medium, Hard],
            sg_problems = map (problem_row_of (sw_solvedIds view) tms) probs,
            sg_bars = map (\<lambda>(i, p). (bar_label (to_str (p_username p)), p_score p, i = safeIdx selectedIdx ps)) (enumerate 0 ps)\<rparr>
      | _ \<Rightarrow> None)"

lemma dom_time_texts: "dom (time_texts t ss) = fst ` set ss"
  by (induction t ss rule: time_texts.induct) auto

lemma min_sec_text: "min_sec n \<noteq> ''-''"
  by (auto simp: min_sec_def append_eq_Cons_conv)

lemma time_texts_text: "time_texts t ss pid = Some x \<Longrightarrow> x \<noteq> ''-''"
  by (induction t ss rule: time_texts.induct) (auto simp: map_add_Some_iff min_sec_text split: if_splits)

lemma solve_loop_ids: "set (st_ids (solve_loop dm start ss)) = fst ` set ss"
proof -
  have "set (st_ids (fold (solve_step dm) ss a)) = set (st_ids a) \<union> fst ` set ss" for a
    by (induction ss arbitrary: a) (auto simp: solve_step_def Let_def split: prod.splits)
  then show ?thesis by (simp add: solve_loop_def)
qed

lemma solve_memo_cases:
  assumes "solve_memo sel rd = Some view" "problemTimeMap sel rd = Some tms"
  obtains "sw_solvedIds view = []" "tms = Map.empty"
    | dm start ss where "sw_solvedIds view = st_ids (solve_loop dm start ss)" "tms = time_texts start ss"
  using assms by (auto simp: solve_memo_def problemTimeMap_def no_solve_def Let_def split: option.splits if_splits)

lemma solve_memo_ids:
  assumes "solve_memo sel rd = Some view" "problemTimeMap sel rd = Some tms"
  shows "set (sw_solvedIds view) = dom tms" "tms pid = Some x \<Longrightarrow> x \<noteq> ''-''"
  by (rule solve_memo_cases [OF assms]; simp add: solve_loop_ids dom_time_texts time_texts_text)+

lemma map_enumerate_fst: "map (\<lambda>x. f (fst x)) (enumerate n xs) = map f [n..<n + length xs]"
  by (induction xs arbitrary: n) (simp_all add: upt_conv_Cons del: upt_Suc)

definition row_marked :: "difficulty \<Rightarrow> problem_row \<Rightarrow> bool" where
  "row_marked k r \<longleftrightarrow> pr_solved r \<and> difficulty_of (capitalize (pr_difficulty r)) = Some k"


definition demo_standings :: "participant list" where
  "demo_standings = [\<lparr>p_id = JStr ''a'', p_username = JStr ''ada'', p_avatarUrl = JUndef, p_defaultColor = [], p_currentProblemIndex = JUndef, p_score = JNum 7\<rparr>]"


text \<open>
  The tabs follow the raw index: after the standings have shrunk below it no tab is highlighted, although a player
  is shown; and a difficulty in lower case is counted but has no colour.
\<close>

lemma no_tab_highlighted:
  assumes "StatisticsDisplay toLocale selectedIdx ps score rd = Some page" "length ps \<le> selectedIdx" "ps \<noteq> []"
  shows "\<forall>t \<in> set (sg_tabs page). \<not> snd t" "selected_of selectedIdx ps = Some (last ps)"
  using assms
  by (auto simp: StatisticsDisplay_def Let_def in_set_enumerate_eq selected_of_def safeIdx_def arr_at_def last_conv_nth
      of_nat_diff nat_diff_distrib split: option.splits)

lemma upper_e: "upper_char CHR ''e'' = ''E''"
  by code_simp

lemma lower_case_has_no_color:
  "pr_color (problem_row_of ids tms \<lparr>rp_id = i, rp_name = n, rp_slug = sl, rp_difficulty = ''easy''\<rparr>) = None"
  "has_difficulty Easy \<lparr>rp_id = i, rp_name = n, rp_slug = sl, rp_difficulty = ''easy''\<rparr>"
  by (simp_all add: problem_row_of_def difficulty_of_def has_difficulty_def capitalize_def upper_e lower_char_def Let_def)

end
