(* ===== verification/UI_Kit.thy ===== *)
theory UI_Kit
  imports JS_Value Machine
begin

text \<open>
  The parts of the shared user interface (\<open>packages/components/ui\<close>) that compute something: the style sheet, the
  labels and the tooltips of \<open>chart.tsx\<close>, the identifiers and messages of \<open>form.tsx\<close> and the error list of
  \<open>field.tsx\<close>. A React node is its dynamic value, an icon the name of its component; the payloads of the
  charting library are plain objects.
\<close>

section \<open>The configuration of a chart\<close>

record chart_item =
  ci_label :: jv
  ci_icon :: "string option"
  ci_color :: "string option"
  ci_theme :: "(string \<times> string) list option"

type_synonym chart_config = "(string \<times> chart_item) list"

definition THEMES :: "(string \<times> string) list" where
  "THEMES = [(''light'', ''''), (''dark'', ''.dark'')]"

text \<open>The hook throws outside of a container.\<close>

definition useChart :: "chart_config option \<Rightarrow> jv + chart_config" where
  "useChart ctx = (case ctx of
     None \<Rightarrow> Inl (mk_error ''Error'' ''useChart must be used within a <ChartContainer />'') | Some c \<Rightarrow> Inr c)"

definition newline :: string where "newline = [char_of (10 :: nat)]"

text \<open>The colour of an item in a theme, \<open>None\<close> for an absent one, and whether an item takes part in the style.\<close>

definition item_color :: "string \<Rightarrow> chart_item \<Rightarrow> string option" where
  "item_color theme it =
     (case (case ci_theme it of None \<Rightarrow> None | Some th \<Rightarrow> map_of th theme) of Some c \<Rightarrow> Some c | None \<Rightarrow> ci_color it)"

definition has_color :: "chart_item \<Rightarrow> bool" where
  "has_color it \<longleftrightarrow> ci_theme it \<noteq> None \<or> (ci_color it \<noteq> None \<and> ci_color it \<noteq> Some [])"

definition color_line :: "string \<Rightarrow> string \<times> chart_item \<Rightarrow> string" where
  "color_line theme e =
     (case item_color theme (snd e) of
        None \<Rightarrow> []
      | Some color \<Rightarrow> if color = [] then [] else ''  --color-'' @ fst e @ '': '' @ color @ '';'')"

definition theme_block :: "string \<Rightarrow> chart_config \<Rightarrow> string \<times> string \<Rightarrow> string" where
  "theme_block cid colorConfig th = (case th of (theme, prefix) \<Rightarrow>
     newline @ prefix @ '' [data-chart='' @ cid @ ''] {'' @ newline @
     join newline (map (color_line theme) colorConfig) @ newline @ ''}'' @ newline)"

definition ChartStyle :: "string \<Rightarrow> chart_config \<Rightarrow> string option" where
  "ChartStyle cid config =
     (let colorConfig = filter (\<lambda>e. has_color (snd e)) config in
      if length colorConfig = 0 then None else Some (join newline (map (theme_block cid colorConfig) THEMES)))"

lemma join_member: "x \<in> set xs \<Longrightarrow> \<exists>a b. join sep xs = a @ x @ b"
proof (induction sep xs rule: join.induct)
  case (3 sep y z zs)
  show ?case
  proof (cases "x = y")
    case True
    then show ?thesis by (intro exI [of _ "[]"] exI [of _ "sep @ join sep (z # zs)"]) simp
  next
    case False
    with 3 obtain a b where "join sep (z # zs) = a @ x @ b" by auto
    then show ?thesis by (intro exI [of _ "y @ sep @ a"] exI [of _ b]) simp
  qed
qed (auto intro: exI [of _ "[]"])

text \<open>Every colour of the configuration is declared in the block of its theme, under the name of its item.\<close>

lemma chart_style_declares:
  assumes "(key, it) \<in> set config" "has_color it" "item_color theme it = Some color" "color \<noteq> []" "(theme, prefix) \<in> set THEMES"
  shows "\<exists>style a b c. ChartStyle cid config = Some style \<and>
    style = a @ newline @ prefix @ '' [data-chart='' @ cid @ ''] {'' @ newline @ b @ ''  --color-'' @ key @ '': '' @ color @ '';'' @ c"
proof -
  let ?cc = "filter (\<lambda>e. has_color (snd e)) config"
  have m: "(key, it) \<in> set ?cc" using assms by simp
  then have ne: "length ?cc \<noteq> 0" by (metis length_0_conv list.set(1) empty_iff)
  have "color_line theme (key, it) \<in> set (map (color_line theme) ?cc)" using m by (simp only: set_map) (rule imageI)
  then obtain b c where b: "join newline (map (color_line theme) ?cc) = b @ color_line theme (key, it) @ c"
    using join_member by blast
  have "theme_block cid ?cc (theme, prefix) \<in> set (map (theme_block cid ?cc) THEMES)"
    using assms(5) by (simp only: set_map) (rule imageI)
  then obtain x y where x: "join newline (map (theme_block cid ?cc) THEMES) = x @ theme_block cid ?cc (theme, prefix) @ y"
    using join_member by blast
  have "ChartStyle cid config = Some (x @ theme_block cid ?cc (theme, prefix) @ y)"
    using ne x by (simp only: ChartStyle_def Let_def if_False)
  moreover have "color_line theme (key, it) = ''  --color-'' @ key @ '': '' @ color @ '';''"
    using assms(3,4) by (simp add: color_line_def)
  ultimately show ?thesis
    by (intro exI [of _ "x @ theme_block cid ?cc (theme, prefix) @ y"] exI [of _ x] exI [of _ b]
        exI [of _ "c @ newline @ ''}'' @ newline @ y"]) (simp add: theme_block_def b)
qed

lemma chart_style_empty: "ChartStyle cid config = None \<longleftrightarrow> (\<forall>e \<in> set config. \<not> has_color (snd e))"
  by (auto simp: ChartStyle_def Let_def filter_empty_conv)

section \<open>The container\<close>

text \<open>\<open>chart-${id ?? uniqueId.replace(/:/g, "")}\<close>\<close>

definition chart_id :: "string option \<Rightarrow> string \<Rightarrow> string" where
  "chart_id cid uniqueId = ''chart-'' @ (case cid of Some i \<Rightarrow> i | None \<Rightarrow> filter (\<lambda>c. c \<noteq> CHR '':'') uniqueId)"

text \<open>Whether the chart is drawn: the sizes at the mount and those that the observer reports.\<close>

definition chart_mounted :: "int \<times> int \<Rightarrow> bool" where
  "chart_mounted sz \<longleftrightarrow> fst sz > 0 \<and> snd sz > 0"

definition chart_resized :: "int \<times> int \<Rightarrow> bool \<Rightarrow> bool" where
  "chart_resized sz ready \<longleftrightarrow> fst sz > 0 \<and> snd sz > 0"

lemma chart_drawn_iff_visible:
  "run chart_resized sizes (chart_mounted sz) = (let lst = last (sz # sizes) in fst lst > 0 \<and> snd lst > 0)"
  by (induction sizes arbitrary: sz) (simp_all add: chart_mounted_def chart_resized_def Let_def)

section \<open>Labels and tooltips\<close>

definition own_string :: "jv \<Rightarrow> string \<Rightarrow> string option" where
  "own_string v key = (case v of JObj fs \<Rightarrow> (case map_of fs key of Some (JStr t) \<Rightarrow> Some t | _ \<Rightarrow> None) | _ \<Rightarrow> None)"

definition config_lookup :: "chart_config \<Rightarrow> string \<Rightarrow> chart_item option" where
  "config_lookup config key = map_of config key"

definition getPayloadConfigFromPayload :: "chart_config \<Rightarrow> jv \<Rightarrow> string \<Rightarrow> chart_item option" where
  "getPayloadConfigFromPayload config payload key =
     (if \<not> is_objectlike payload \<or> payload = JNull then None
      else
        (let payloadPayload = opt_get payload ''payload'';
             configLabelKey = (case own_string payload key of
                 Some t \<Rightarrow> t
               | None \<Rightarrow> (case own_string payloadPayload key of Some t \<Rightarrow> t | None \<Rightarrow> key)) in
         case config_lookup config configLabelKey of
           Some it \<Rightarrow> Some it
         | None \<Rightarrow> config_lookup config key))"

text \<open>The configuration is found under the text that the payload has for the key, or else under the key itself.\<close>

lemma payload_config_direct:
  "is_objectlike payload \<Longrightarrow> payload \<noteq> JNull \<Longrightarrow> own_string payload key = None \<Longrightarrow> own_string (opt_get payload ''payload'') key = None \<Longrightarrow>
   getPayloadConfigFromPayload config payload key = config_lookup config key"
  by (simp add: getPayloadConfigFromPayload_def Let_def split: option.split)

lemma payload_config_found:
  "getPayloadConfigFromPayload config payload key = Some it \<Longrightarrow> it \<in> snd ` set config"
  by (force simp: getPayloadConfigFromPayload_def config_lookup_def Let_def dest: map_of_SomeD
      split: if_splits option.splits)

record tooltip_props =
  tp_active :: bool
  tp_payload :: "jv list"
  tp_indicator :: string
  tp_hideLabel :: bool
  tp_hideIndicator :: bool
  tp_label :: jv
  tp_labelFormatter :: "(jv \<Rightarrow> jv list \<Rightarrow> jv) option"
  tp_formatter :: "(jv \<Rightarrow> nat \<Rightarrow> jv) option"
  tp_color :: jv
  tp_nameKey :: jv
  tp_labelKey :: jv

definition opt_label :: "chart_item option \<Rightarrow> jv" where
  "opt_label it = (case it of None \<Rightarrow> JUndef | Some i \<Rightarrow> ci_label i)"

definition tooltipLabel :: "chart_config \<Rightarrow> tooltip_props \<Rightarrow> jv option" where
  "tooltipLabel config p =
     (case tp_payload p of
        [] \<Rightarrow> None
      | item # _ \<Rightarrow>
          if tp_hideLabel p then None
          else
            (let key = to_str (js_coalesce (tp_labelKey p) (js_coalesce (opt_get item ''dataKey'')
                   (js_coalesce (opt_get item ''name'') (JStr ''value''))));
                 value = (if \<not> truthy (tp_labelKey p) \<and> is_str (tp_label p)
                   then js_coalesce (opt_label (config_lookup config (to_str (tp_label p)))) (tp_label p)
                   else opt_label (getPayloadConfigFromPayload config item key)) in
             case tp_labelFormatter p of
               Some f \<Rightarrow> Some (f value (tp_payload p))
             | None \<Rightarrow> if \<not> truthy value then None else Some value))"

datatype tooltip_mark = Icon string | Indicator jv | NoMark

datatype tooltip_row = Formatted jv | Row tooltip_mark "jv option" jv "string option"

definition shown_value :: "(jv \<Rightarrow> string) \<Rightarrow> jv \<Rightarrow> string option" where
  "shown_value toLocale v = (if is_nullish v then None else Some (if is_num v then toLocale v else to_str v))"

definition nest_label :: "tooltip_props \<Rightarrow> bool" where
  "nest_label p \<longleftrightarrow> length (tp_payload p) = 1 \<and> tp_indicator p \<noteq> ''dot''"

definition tooltip_row_of :: "(jv \<Rightarrow> string) \<Rightarrow> chart_config \<Rightarrow> tooltip_props \<Rightarrow> nat \<times> jv \<Rightarrow> tooltip_row" where
  "tooltip_row_of toLocale config p e = (case e of (index, item) \<Rightarrow>
     let key = to_str (js_coalesce (tp_nameKey p) (js_coalesce (opt_get item ''name'')
           (js_coalesce (opt_get item ''dataKey'') (JStr ''value''))));
         itemConfig = getPayloadConfigFromPayload config item key;
         indicatorColor = js_coalesce (tp_color p) (js_coalesce (opt_get (opt_get item ''payload'') ''fill'') (opt_get item ''color''));
         plain = Row
           (case (case itemConfig of None \<Rightarrow> None | Some it \<Rightarrow> ci_icon it) of
              Some icon \<Rightarrow> Icon icon
            | None \<Rightarrow> if \<not> tp_hideIndicator p then Indicator indicatorColor else NoMark)
           (if nest_label p then tooltipLabel config p else None)
           (js_coalesce (opt_label itemConfig) (opt_get item ''name''))
           (shown_value toLocale (opt_get item ''value'')) in
     case tp_formatter p of
       Some f \<Rightarrow> if opt_get item ''value'' \<noteq> JUndef \<and> truthy (opt_get item ''name'') then Formatted (f item index) else plain
     | None \<Rightarrow> plain)"

definition visible_items :: "jv list \<Rightarrow> jv list" where
  "visible_items payload = filter (\<lambda>item. opt_get item ''type'' \<noteq> JStr ''none'') payload"

text \<open>The label above the rows and the rows; \<open>None\<close> when nothing is drawn.\<close>

definition ChartTooltipContent :: "(jv \<Rightarrow> string) \<Rightarrow> chart_config \<Rightarrow> tooltip_props \<Rightarrow> (jv option \<times> tooltip_row list) option" where
  "ChartTooltipContent toLocale config p =
     (if \<not> tp_active p \<or> length (tp_payload p) = 0 then None
      else Some (if \<not> nest_label p then tooltipLabel config p else None,
        map (tooltip_row_of toLocale config p) (enumerate 0 (visible_items (tp_payload p)))))"

text \<open>The label is drawn at most once: above the rows, or in the row when there is a single one.\<close>

definition row_label :: "tooltip_row \<Rightarrow> jv option" where
  "row_label r = (case r of Formatted _ \<Rightarrow> None | Row _ l _ _ \<Rightarrow> l)"

lemma tooltip_label_once:
  assumes "ChartTooltipContent toLocale config p = Some (lbl, rows)"
  shows "length (filter (\<lambda>l. l \<noteq> None) (lbl # map row_label rows)) \<le> 1"
proof (cases "nest_label p")
  case True
  then have "length (tp_payload p) = 1" by (simp add: nest_label_def)
  then have "length (visible_items (tp_payload p)) \<le> 1"
    using length_filter_le [of _ "tp_payload p"] unfolding visible_items_def by metis
  then have "length rows \<le> 1" using assms by (auto simp: ChartTooltipContent_def split: if_splits)
  moreover have "lbl = None" using assms True by (auto simp: ChartTooltipContent_def split: if_splits)
  moreover have "length (filter (\<lambda>l. l \<noteq> None) (map row_label rows)) \<le> length rows"
    by (rule order_trans [OF length_filter_le]) simp
  ultimately show ?thesis by (cases rows) (simp_all del: filter_map)
next
  case False
  then have "row_label (tooltip_row_of toLocale config p e) = None" for e
    by (simp add: tooltip_row_of_def row_label_def Let_def split: prod.split option.split)
  then have "filter (\<lambda>l. l \<noteq> None) (map row_label rows) = []"
    using assms by (auto simp: ChartTooltipContent_def filter_empty_conv split: if_splits)
  then show ?thesis by simp
qed

text \<open>The legend: an icon or the colour, and the label.\<close>

definition legend_row_of :: "chart_config \<Rightarrow> bool \<Rightarrow> jv \<Rightarrow> jv \<Rightarrow> tooltip_mark \<times> jv" where
  "legend_row_of config hideIcon nameKey item =
     (let key = to_str (js_coalesce nameKey (js_coalesce (opt_get item ''dataKey'') (JStr ''value'')));
          itemConfig = getPayloadConfigFromPayload config item key in
      (case (case itemConfig of None \<Rightarrow> None | Some it \<Rightarrow> ci_icon it) of
         Some icon \<Rightarrow> if \<not> hideIcon then Icon icon else Indicator (opt_get item ''color'')
       | None \<Rightarrow> Indicator (opt_get item ''color''),
       opt_label itemConfig))"

definition ChartLegendContent :: "chart_config \<Rightarrow> bool \<Rightarrow> jv \<Rightarrow> jv list \<Rightarrow> (tooltip_mark \<times> jv) list option" where
  "ChartLegendContent config hideIcon nameKey payload =
     (if length payload = 0 then None else Some (map (legend_row_of config hideIcon nameKey) (visible_items payload)))"

section \<open>Form fields\<close>

record form_field =
  ff_id :: string
  ff_name :: jv
  ff_formItemId :: string
  ff_formDescriptionId :: string
  ff_formMessageId :: string
  ff_error :: jv

text \<open>
  The contexts are objects: their default is the empty object, so the name and the id may be \<open>undefined\<close>, and the
  check for a missing context never fails. \<open>fieldError\<close> is the \<open>error\<close> of \<open>getFieldState\<close>.
\<close>

definition useFormField :: "jv \<Rightarrow> jv \<Rightarrow> (jv \<Rightarrow> jv) \<Rightarrow> jv + form_field" where
  "useFormField fieldContext itemContext fieldError =
     (case get fieldContext ''name'' of
        Inl e \<Rightarrow> Inl e
      | Inr name \<Rightarrow>
          if \<not> truthy fieldContext then Inl (mk_error ''Error'' ''useFormField should be used within <FormField>'')
          else (case get itemContext ''id'' of
             Inl e \<Rightarrow> Inl e
           | Inr i \<Rightarrow> Inr \<lparr>ff_id = to_str i, ff_name = name, ff_formItemId = to_str i @ ''-form-item'',
               ff_formDescriptionId = to_str i @ ''-form-item-description'', ff_formMessageId = to_str i @ ''-form-item-message'',
               ff_error = fieldError name\<rparr>))"

text \<open>The attributes of the control.\<close>

definition described_by :: "form_field \<Rightarrow> string" where
  "described_by f =
     (if \<not> truthy (ff_error f) then ff_formDescriptionId f else ff_formDescriptionId f @ '' '' @ ff_formMessageId f)"

definition form_message :: "form_field \<Rightarrow> jv \<Rightarrow> jv option" where
  "form_message f children =
     (let body = (if truthy (ff_error f) then JStr (to_str (opt_get (ff_error f) ''message'')) else children) in
      if \<not> truthy body then None else Some body)"

text \<open>An invalid control is described by the message that is shown for it.\<close>

lemma invalid_control_has_message:
  assumes "truthy (ff_error f)" "truthy (opt_get (ff_error f) ''message'')" "is_str (opt_get (ff_error f) ''message'')"
  shows "form_message f children = Some (opt_get (ff_error f) ''message'') \<and>
    (\<exists>d. described_by f = d @ '' '' @ ff_formMessageId f)"
  using assms by (cases "opt_get (ff_error f) ''message''") (auto simp: form_message_def described_by_def)

text \<open>Outside of a field the hook does not complain, and an error without a message is shown as a text of its own.\<close>

lemma missing_field_not_reported:
  "\<exists>f. useFormField (JObj []) (JObj []) e = Inr f \<and> ff_formItemId f = ''undefined-form-item''"
  by (simp add: useFormField_def obj_lookup_def)

lemma error_without_message:
  "truthy (ff_error f) \<Longrightarrow> opt_get (ff_error f) ''message'' = JUndef \<Longrightarrow> form_message f children = Some (JStr ''undefined'')"
  by (simp add: form_message_def)

section \<open>The list of errors\<close>

text \<open>The messages of the errors, \<open>None\<close> for \<open>undefined\<close>; the \<open>Map\<close> keeps each message at its first place.\<close>

fun unique_messages :: "string option list \<Rightarrow> string option list \<Rightarrow> string option list" where
  "unique_messages seen [] = seen"
| "unique_messages seen (m # ms) = unique_messages (if m \<in> set seen then seen else seen @ [m]) ms"

datatype error_content = Single string | Several "string list"

definition FieldError :: "string option list \<Rightarrow> error_content option" where
  "FieldError errors =
     (if length errors = 0 then None
      else (let uniqueErrors = unique_messages [] errors in
        if length uniqueErrors = 1 then
          (case hd uniqueErrors of Some m \<Rightarrow> if m = [] then None else Some (Single m) | None \<Rightarrow> None)
        else Some (Several (List.map_filter (\<lambda>m. case m of Some t \<Rightarrow> if t = [] then None else Some t | None \<Rightarrow> None) uniqueErrors))))"

definition shown_errors :: "error_content option \<Rightarrow> string list" where
  "shown_errors c = (case c of None \<Rightarrow> [] | Some (Single m) \<Rightarrow> [m] | Some (Several ms) \<Rightarrow> ms)"

lemma unique_messages_set: "set (unique_messages seen ms) = set seen \<union> set ms"
  by (induction seen ms rule: unique_messages.induct) auto

lemma unique_messages_distinct: "distinct seen \<Longrightarrow> distinct (unique_messages seen ms)"
  by (induction seen ms rule: unique_messages.induct) auto

lemma shown_errors_filter:
  "shown_errors (FieldError errors) =
     List.map_filter (\<lambda>m. case m of Some t \<Rightarrow> if t = [] then None else Some t | None \<Rightarrow> None) (unique_messages [] errors)"
proof (cases "length (unique_messages [] errors) = 1")
  case True
  then obtain m where "unique_messages [] errors = [m]" by (auto simp: length_Suc_conv)
  then show ?thesis
    by (cases errors) (auto simp: FieldError_def shown_errors_def map_filter_simps split: option.split)
next
  case False
  then show ?thesis by (cases errors) (auto simp: FieldError_def shown_errors_def Let_def map_filter_simps)
qed

text \<open>Every message that is not empty is shown, exactly once.\<close>

lemma each_error_once:
  "set (shown_errors (FieldError errors)) = {m. Some m \<in> set errors \<and> m \<noteq> []} \<and> distinct (shown_errors (FieldError errors))"
proof -
  let ?f = "\<lambda>m. case m of Some t \<Rightarrow> if t = [] then None else Some t | None \<Rightarrow> (None :: string option)"
  have "set (List.map_filter ?f us) = {m. Some m \<in> set us \<and> m \<noteq> []}" for us
    by (induction us) (auto simp: map_filter_simps split: option.splits if_splits)
  moreover have "distinct us \<Longrightarrow> distinct (List.map_filter ?f us)" for us
    by (induction us) (auto simp: map_filter_simps calculation split: option.splits if_splits)
  ultimately show ?thesis
    using unique_messages_set [of "[]" errors] unique_messages_distinct [of "[]" errors] by (simp add: shown_errors_filter)
qed

text \<open>Several errors without a text leave an empty alert on the screen.\<close>

lemma empty_alert: "FieldError [None, Some []] = Some (Several [])"
  by (simp add: FieldError_def map_filter_simps)

end
