(* ===== verification/Panel_View.thy ===== *)
theory Panel_View
  imports Panel_Shell Panel_Widgets Toolbar Timer_Form Round_Statistics
begin

text \<open>
  What the frame of the panel puts on the screen, as data: the header and the sidebar with their tabs, separators
  and buttons (\<open>customComponents/TabBar\<close>), the toolbar of a round (\<open>customComponents/Toolbar\<close>), its progress bar,
  the settings (\<open>customComponents/RoomDisplays/SettingsDisplay.tsx\<close>) and the switch of
  \<open>customComponents/NotificationToggle.tsx\<close>. Icons and fixed styles are left out.
\<close>

section \<open>Header and sidebar\<close>

datatype bar_action = SelectTab tab_name | SelectAndUnfold tab_name | SendMessage panel_message | SignOut

record tab_button =
  bb_tab :: tab_name
  bb_label :: string
  bb_hidden :: bool
  bb_emphasised :: bool
  bb_action :: bar_action

text \<open>A separator has the class \<open>hidden\<close> or not, and keeps its place when it is invisible.\<close>

datatype bar_part = Separator bool bool | TabButton tab_button

record bar_view =
  bw_title :: "string option"
  bw_badge :: "string option"
  bw_parts :: "bar_part list"
  bw_fade :: bool
  bw_buttons :: "(string \<times> bar_action) list"
  bw_doubleClick :: bar_action

definition header_button :: "tab_name \<Rightarrow> tab_name \<Rightarrow> string \<Rightarrow> bool \<Rightarrow> bar_part" where
  "header_button active tab label hide = TabButton \<lparr>bb_tab = tab, bb_label = label, bb_hidden = hide,
     bb_emphasised = (active = tab), bb_action = SelectTab tab\<rparr>"

definition header_tabs :: "tab_name \<Rightarrow> tab_name option \<Rightarrow> bar_part list" where
  "header_tabs active hovered =
     [Separator False (hovered = Some TabRoomInfo),
      header_button active TabRoomInfo ''Room'' False,
      Separator False (hovered = Some TabRoomInfo \<or> hovered = Some TabChat),
      header_button active TabChat ''Chat'' False,
      Separator True (hovered = Some TabChat \<or> hovered = Some TabLeaderboard),
      header_button active TabLeaderboard ''Leaderboard'' True,
      Separator False (hovered = Some TabChat \<or> hovered = Some TabStatistics),
      header_button active TabStatistics ''Statistics'' False]"

definition header_buttons :: "bool \<Rightarrow> bool \<Rightarrow> bool \<Rightarrow> bool \<Rightarrow> (string \<times> bar_action) list" where
  "header_buttons inRoom loggedIn panelHovered maximized =
     (if \<not> inRoom \<and> loggedIn then [(''Sign out'', SignOut)] else []) @
     (if panelHovered then [(if maximized then ''Exit'' else ''Maximize'', SendMessage MMaximize), (''Fold'', SendMessage MFold)] else [])"

definition HeaderBar :: "bool \<Rightarrow> bool \<Rightarrow> bool \<Rightarrow> bool \<Rightarrow> tab_name \<Rightarrow> tab_name option \<Rightarrow> bool \<Rightarrow> bar_view" where
  "HeaderBar inRoom loggedIn panelHovered maximized active hovered scrolledX =
     \<lparr>bw_title = (if inRoom then None else Some ''BSG''), bw_badge = None,
       bw_parts = (if inRoom then header_tabs active hovered else []), bw_fade = (inRoom \<and> scrolledX),
       bw_buttons = header_buttons inRoom loggedIn panelHovered maximized, bw_doubleClick = SendMessage MMaximize\<rparr>"

definition sidebar_button :: "tab_name \<Rightarrow> tab_name \<Rightarrow> string \<Rightarrow> bool \<Rightarrow> bar_part" where
  "sidebar_button active tab label hide = TabButton \<lparr>bb_tab = tab, bb_label = label, bb_hidden = hide,
     bb_emphasised = (active = tab), bb_action = SelectAndUnfold tab\<rparr>"

definition sidebar_tabs :: "tab_name \<Rightarrow> tab_name option \<Rightarrow> bar_part list" where
  "sidebar_tabs active hovered =
     [Separator False (hovered = Some TabRoomInfo),
      sidebar_button active TabRoomInfo ''Room'' False,
      Separator False (hovered = Some TabRoomInfo \<or> hovered = Some TabChat),
      sidebar_button active TabChat ''Chat'' False,
      Separator True (hovered = Some TabChat \<or> hovered = Some TabLeaderboard),
      sidebar_button active TabLeaderboard ''Leaderboard'' True,
      Separator False (hovered = Some TabChat \<or> hovered = Some TabStatistics),
      sidebar_button active TabStatistics ''Statistics'' False]"

definition sidebar_buttons :: "bool \<Rightarrow> bool \<Rightarrow> (string \<times> bar_action) list" where
  "sidebar_buttons panelHovered maximized =
     (if panelHovered then [(if maximized then ''Exit'' else ''Maximize'', SendMessage MMaximize), (''Unfold'', SendMessage MUnfold)] else [])"

definition Sidebar :: "bool \<Rightarrow> nat \<Rightarrow> bool \<Rightarrow> bool \<Rightarrow> tab_name \<Rightarrow> tab_name option \<Rightarrow> bool \<Rightarrow> bar_view" where
  "Sidebar inRoom unreads panelHovered maximized active hovered scrolledY =
     \<lparr>bw_title = (if inRoom then None else Some ''BSG''), bw_badge = (if inRoom then unread_badge unreads else None),
       bw_parts = (if inRoom then sidebar_tabs active hovered else []), bw_fade = (inRoom \<and> scrolledY),
       bw_buttons = sidebar_buttons panelHovered maximized, bw_doubleClick = SendMessage MUnfold\<rparr>"

text \<open>The buttons that can be seen.\<close>

definition shown_tabs :: "bar_part list \<Rightarrow> tab_button list" where
  "shown_tabs parts = List.map_filter (\<lambda>p. case p of TabButton b \<Rightarrow> if bb_hidden b then None else Some b | Separator _ _ \<Rightarrow> None) parts"

definition shown_parts :: "bar_part list \<Rightarrow> bar_part list" where
  "shown_parts parts = filter (\<lambda>p. case p of TabButton b \<Rightarrow> \<not> bb_hidden b | Separator h _ \<Rightarrow> \<not> h) parts"

text \<open>The separators next to the tab under the pointer are invisible.\<close>

fun quiet_seps :: "tab_name option \<Rightarrow> bar_part list \<Rightarrow> bool" where
  "quiet_seps hovered (Separator h invis # TabButton b # rest) \<longleftrightarrow> (hovered = Some (bb_tab b) \<longrightarrow> invis) \<and> quiet_seps hovered (TabButton b # rest)"
| "quiet_seps hovered (TabButton b # Separator h invis # rest) \<longleftrightarrow> (hovered = Some (bb_tab b) \<longrightarrow> invis) \<and> quiet_seps hovered (Separator h invis # rest)"
| "quiet_seps hovered (p # rest) \<longleftrightarrow> quiet_seps hovered rest"
| "quiet_seps hovered [] \<longleftrightarrow> True"

lemmas bar_defs = HeaderBar_def Sidebar_def header_tabs_def sidebar_tabs_def header_button_def sidebar_button_def

lemma separators_quiet:
  "quiet_seps hovered (shown_parts (header_tabs active hovered))" "quiet_seps hovered (shown_parts (sidebar_tabs active hovered))"
  by (simp_all add: shown_parts_def bar_defs)

text \<open>
  The header and the sidebar are the same bar for the same state: they show the same tabs, in the same order,
  with the same labels; the button of the active tab, when it is shown, is the only one emphasised; a click on a
  button asks for its own tab; and every tab of the panel has a button on both but the leaderboard, which is
  hidden on both, and the settings, which the toolbar opens.
\<close>

theorem bars_agree:
  fixes active hovered hovered' loggedIn panelHovered maximized sx sy unreads
  defines "h \<equiv> shown_tabs (bw_parts (HeaderBar True loggedIn panelHovered maximized active hovered sx))"
    and "s \<equiv> shown_tabs (bw_parts (Sidebar True unreads panelHovered maximized active hovered' sy))"
  shows "map (\<lambda>b. (bb_tab b, bb_label b, bb_emphasised b)) h = map (\<lambda>b. (bb_tab b, bb_label b, bb_emphasised b)) s \<and>
    map bb_tab (filter bb_emphasised h) = (if active \<in> {TabLeaderboard, TabSettings} then [] else [active]) \<and>
    map bb_action h = map (\<lambda>b. SelectTab (bb_tab b)) h \<and> map bb_action s = map (\<lambda>b. SelectAndUnfold (bb_tab b)) s \<and>
    set (map bb_tab h) = UNIV - {TabLeaderboard, TabSettings} \<and> distinct (map bb_tab h)"
proof -
  have "(UNIV :: tab_name set) = {TabRoomInfo, TabChat, TabLeaderboard, TabStatistics, TabSettings}"
    using tab_name.exhaust by blast
  then show ?thesis
    by (cases active) (auto simp: h_def s_def shown_tabs_def bar_defs map_filter_simps)
qed

text \<open>A click on a tab of the header leads to a bar that emphasises this tab.\<close>

lemma header_click_emphasises:
  assumes "b \<in> set (shown_tabs (header_tabs (activeTab r) hovered))"
  shows "activeTab (setActiveTab (bb_tab b) r) = bb_tab b"
    "\<exists>b' \<in> set (shown_tabs (header_tabs (activeTab (setActiveTab (bb_tab b) r)) hovered')). bb_emphasised b' \<and> bb_tab b' = bb_tab b"
proof -
  show "activeTab (setActiveTab (bb_tab b) r) = bb_tab b" by (simp add: setActiveTab_def)
  then show "\<exists>b' \<in> set (shown_tabs (header_tabs (activeTab (setActiveTab (bb_tab b) r)) hovered')). bb_emphasised b' \<and> bb_tab b' = bb_tab b"
    using assms by (auto simp: shown_tabs_def bar_defs map_filter_simps)
qed

section \<open>The toolbar\<close>

datatype toolbar_part = ToolButton string bool | TimerText string

definition ToolbarView :: "room_store \<Rightarrow> toolbar \<Rightarrow> string \<Rightarrow> toolbar_part list" where
  "ToolbarView r tb timeRemaining =
     [ToolButton ''Previous Problem'' (\<not> previous_disabled tb), ToolButton ''Next Problem'' (\<not> next_disabled tb)] @
     (case round_button (isAdmin r) (hasRoundEnded r) (isRoundStarted r) of
        NoButton \<Rightarrow> [] | EndButton \<Rightarrow> [ToolButton ''End Round'' True] | StartButton \<Rightarrow> [ToolButton ''Start Round'' True]) @
     [ToolButton (if tb_timerVisible tb then ''Hide Timer'' else ''Show Timer'') True] @
     (if tb_timerVisible tb then [TimerText timeRemaining] else []) @
     [ToolButton ''Settings'' True, ToolButton ''Leave Room'' True]"

text \<open>Only the administrator of a round that has not ended is offered to start or to end it, never both.\<close>

lemma round_buttons_for_admin:
  "ToolButton ''Start Round'' b \<in> set (ToolbarView r tb t) \<longleftrightarrow> b \<and> isAdmin r \<and> \<not> hasRoundEnded r \<and> \<not> isRoundStarted r"
  "ToolButton ''End Round'' b \<in> set (ToolbarView r tb t) \<longleftrightarrow> b \<and> isAdmin r \<and> \<not> hasRoundEnded r \<and> isRoundStarted r"
  by (auto simp: ToolbarView_def round_button_def)

section \<open>The progress bar\<close>

definition segment_style :: "segment \<Rightarrow> string \<times> string" where
  "segment_style s = (case s of
     Solved \<Rightarrow> (''#62AF2E'', ''#62AF2E'') | Active \<Rightarrow> (''transparent'', ''#62AF2E'')
   | Touched \<Rightarrow> (''#ffa500'', ''#ffa500'') | Untouched \<Rightarrow> (''transparent'', ''rgb(var(--foreground) / 0.25)''))"

definition segment_classes :: "nat \<Rightarrow> nat \<Rightarrow> string" where
  "segment_classes n i = join '' '' [''h-1 flex-1 border-[0.5px] transition-colors'',
     if i = 0 then ''rounded-l-full'' else [], if i = n - 1 then ''rounded-r-full'' else []]"

text \<open>The segments with their classes, fill and stroke; none without problems.\<close>

definition ProblemProgress :: "string list \<Rightarrow> string list \<Rightarrow> string option \<Rightarrow> string list \<Rightarrow> (string \<times> string \<times> string) list" where
  "ProblemProgress problemSlugs solved currSlug touched =
     (if length problemSlugs = 0 then []
      else map (\<lambda>(i, slug). (segment_classes (length problemSlugs) i, segment_style (segmentState solved currSlug touched slug)))
        (enumerate 0 problemSlugs))"

lemma segment_style_inj: "segment_style a = segment_style b \<Longrightarrow> a = b"
  by (cases a; cases b) (simp_all add: segment_style_def)

text \<open>The bar has a segment for each problem, in order, whose colours tell its state.\<close>

lemma progress_shows_states:
  "length (ProblemProgress ps solved cur touched) = length ps"
  "i < length ps \<Longrightarrow> snd (ProblemProgress ps solved cur touched ! i) = segment_style (segmentState solved cur touched (ps ! i))"
  by (auto simp: ProblemProgress_def nth_enumerate_eq)

text \<open>A filled segment is one that the user put work in.\<close>

lemma filled_iff_worked:
  "i < length ps \<Longrightarrow> fst (snd (ProblemProgress ps solved cur touched ! i)) \<noteq> ''transparent'' \<longleftrightarrow>
     ps ! i \<in> set solved \<or> (cur \<noteq> Some (ps ! i) \<and> ps ! i \<in> set touched)"
  by (auto simp: progress_shows_states segment_style_def segmentState_def)

section \<open>The settings\<close>

record switch_view =
  sv_checked :: bool
  sv_text :: string
  sv_background :: string
  sv_knob :: string

definition NotificationToggle :: "bool \<Rightarrow> switch_view" where
  "NotificationToggle enabled = \<lparr>sv_checked = enabled, sv_text = (if enabled then ''ON'' else ''OFF''),
     sv_background = (if enabled then ''bg-primary'' else ''border border-bsg-border bg-transparent''),
     sv_knob = (if enabled then ''left-[calc(100%-1.75rem-0.25rem)]'' else ''left-1'')\<rparr>"

definition preference_label :: "theme_preference \<Rightarrow> string" where
  "preference_label p = (if p = ThemeAuto then ''Auto'' else if p = ThemeDark then ''Dark'' else ''Light'')"

definition theme_hint :: "theme_preference \<Rightarrow> string" where
  "theme_hint p = (if p = ThemeAuto then ''Follows LeetCode's theme setting'' else ''Locked to '' @ theme_str p @ '' mode'')"

datatype settings_part = TimerSlider jv | TimerHint string | SoundSwitch switch_view
  | ThemeChoice "(string \<times> bool) list" string | FormError string | FormNote string | SaveButton string bool | SignOutButton

definition timer_part :: "bool \<Rightarrow> bool \<Rightarrow> jv \<Rightarrow> settings_part" where
  "timer_part admin started value =
     (case timer_panel admin started of
        AdminOnly \<Rightarrow> TimerHint ''Only the room admin can change the timer.''
      | RoundRunning \<Rightarrow> TimerHint ''The timer can only be edited before the round starts.''
      | Slider \<Rightarrow> TimerSlider value)"

definition save_parts :: "bool \<Rightarrow> bool \<Rightarrow> timer_form \<Rightarrow> settings_part list" where
  "save_parts admin started f =
     (if admin \<and> \<not> started then
        (if truthy (tf_error f) then [FormError (to_str (tf_error f))] else []) @
        (if shows_saved f then [FormNote ''Timer updated.''] else []) @
        [SaveButton (if tf_saving f then ''Saving...'' else ''Save'') (\<not> save_disabled f)]
      else [])"

definition SettingsDisplay :: "settings_store \<Rightarrow> bool \<Rightarrow> bool \<Rightarrow> timer_form \<Rightarrow> settings_part list" where
  "SettingsDisplay st admin started f =
     [timer_part admin started (tf_value f),
      SoundSwitch (NotificationToggle (chatNotificationsEnabled st)),
      ThemeChoice (map (\<lambda>p. (preference_label p, themePreference st = p)) [ThemeAuto, ThemeDark, ThemeLight]) (theme_hint (themePreference st))] @
     save_parts admin started f @ [SignOutButton]"

text \<open>The slider and the button that saves its value come and go together; exactly one theme is marked.\<close>

lemma slider_with_save:
  "(\<exists>v. TimerSlider v \<in> set (SettingsDisplay st admin started f)) \<longleftrightarrow>
     (\<exists>l b. SaveButton l b \<in> set (SettingsDisplay st admin started f))"
  by (auto simp: SettingsDisplay_def timer_part_def save_parts_def timer_panel_def)

lemma one_theme_marked:
  "ThemeChoice cs hint \<in> set (SettingsDisplay st admin started f) \<Longrightarrow>
     map fst (filter snd cs) = [preference_label (themePreference st)]"
  by (cases "themePreference st")
     (auto simp: SettingsDisplay_def save_parts_def timer_part_def preference_label_def split: if_splits timer_panel.splits)

end
