(* ===== verification/Web_View.thy ===== *)
theory Web_View
  imports Web_App
begin

text \<open>
  The sample data of the dashboard (\<open>apps/web/app/dashboard/page.tsx\<close>), which it shows as long as the request for
  the problems fails, and what the live statistics
  (\<open>packages/components/customComponents/liveStatistics\<close>) and the table of submissions
  (\<open>apps/web/app/problem/submissions/columns.tsx\<close>) put on the screen.
\<close>

section \<open>The dashboard without the service\<close>

definition sample_problem :: "nat \<Rightarrow> string \<Rightarrow> dash_problem" where
  "sample_problem i d = \<lparr>dp_id = show_nat i, dp_name = ''Two Sum'', dp_difficulty = d, dp_tags = [], dp_topic = JStr ''hashmap''\<rparr>"

definition problemList :: "dash_problem list" where
  "problemList = [sample_problem 1 ''Easy'', sample_problem 2 ''Medium'', sample_problem 3 ''Hard''] @
     map (\<lambda>i. sample_problem i ''Easy'') [4..<18]"

record dash_topic =
  dt_name :: string
  dt_numberOfProblems :: nat
  dt_isSelected :: bool

definition topics :: "dash_topic list" where
  "topics = replicate 11 \<lparr>dt_name = ''Arrays'', dt_numberOfProblems = 214, dt_isSelected = False\<rparr>"

record room_item =
  ri_id :: string
  ri_problemIDs :: "string list"
  ri_status :: bool
  ri_userIDs :: "string list"

definition roomList :: "room_item list" where
  "roomList = map (\<lambda>i. \<lparr>ri_id = show_nat i, ri_problemIDs = replicate 3 ''Two Sum'', ri_status = True,
     ri_userIDs = replicate 4 ''Jessica Choi''\<rparr>) [1..<11]"

lemma lower_hashmap: "lower ''hashmap'' = ''hashmap''"
  by code_simp

lemma sample_tags: "problem_tags (sample_problem i d) = Inr [''hashmap'']"
  by (simp add: problem_tags_def sample_problem_def lower_hashmap)

lemma filter_samples:
  "\<forall>p \<in> set ps. problem_tags p = Inr [''hashmap''] \<Longrightarrow>
   filter_problems sel ps = Inr (if list_all (\<lambda>tag. tag = ''hashmap'') sel then ps else [])"
  by (induction ps) (auto simp: list_all_iff)

text \<open>
  While the request fails, the dashboard shows all of its samples for the tag they have, and none for any other: the
  chosen difficulty plays no part.
\<close>

lemma dashboard_samples:
  "filteredProblemList sel None problemList = Inr (if \<forall>tag \<in> set sel. tag = ''hashmap'' then problemList else [])"
proof -
  have "\<forall>p \<in> set problemList. problem_tags p = Inr [''hashmap'']" by (auto simp: problemList_def sample_tags)
  then show ?thesis using filter_samples [of problemList sel] by (auto simp: filteredProblemList_def list_all_iff)
qed

lemma two_pages_of_samples: "length problemList = 17 \<and> totalPages problemList = 2"
  by (simp add: problemList_def totalPages_def problemsPerPage_def)

text \<open>The colour and the icon of an item.\<close>

definition difficulty_class :: "string \<Rightarrow> string" where
  "difficulty_class d =
     (if d = ''Easy'' then ''text-green-400'' else if d = ''Medium'' then ''text-yellow-400''
      else if d = ''Hard'' then ''text-red-400'' else ''text-gray-400'')"

lemma every_difficulty_colored: "difficulty_class (known_difficulty v) \<noteq> ''text-gray-400''"
  by (auto simp: difficulty_class_def known_difficulty_def split: jv.split)

text \<open>An item of the list of problems and one of the list of rooms: where it leads, its heading and its texts.\<close>

record list_item =
  li_href :: string
  li_heading :: string
  li_texts :: "string list"
  li_class :: string

definition ProblemItem :: "int \<Rightarrow> dash_problem \<Rightarrow> list_item" where
  "ProblemItem acceptance p = \<lparr>li_href = ''/apps/web/app/problem/'' @ dp_id p, li_heading = dp_id p @ ''. '' @ dp_name p,
     li_texts = map to_str (if dp_tags p \<noteq> [] then dp_tags p else if truthy (dp_topic p) then [dp_topic p] else []) @
       [show_int acceptance @ ''%'', dp_difficulty p],
     li_class = difficulty_class (dp_difficulty p)\<rparr>"

definition RoomItem :: "room_item \<Rightarrow> list_item" where
  "RoomItem r = \<lparr>li_href = ''/apps/web/app/problem/'' @ ri_id r,
     li_heading = ri_id r @ ''. '' @ (case ri_problemIDs r of [] \<Rightarrow> ''undefined'' | t # _ \<Rightarrow> t),
     li_texts = [join '', '' (ri_userIDs r)], li_class = []\<rparr>"

text \<open>A room and a problem with the same number lead to the same page.\<close>

lemma room_links_to_problem: "ri_id r = dp_id p \<Longrightarrow> li_href (RoomItem r) = li_href (ProblemItem a p)"
  by (simp add: RoomItem_def ProblemItem_def)

section \<open>Live statistics\<close>

record web_problem =
  wp_id :: int
  wp_title :: string
  wp_difficulty :: int
  wp_tags :: "string list"

record live_statistics =
  ls_selected :: int
  ls_completed :: int

definition liveInit :: live_statistics where
  "liveInit = \<lparr>ls_selected = 0, ls_completed = -1\<rparr>"

datatype live_event = IncrementProblem | DecrementProblem | ProblemSelected nat

fun live_step :: "live_event \<Rightarrow> live_statistics \<Rightarrow> live_statistics" where
  "live_step IncrementProblem s = s\<lparr>ls_completed := ls_completed s + 1\<rparr>"
| "live_step DecrementProblem s = s\<lparr>ls_completed := ls_completed s - 1\<rparr>"
| "live_step (ProblemSelected i) s = s\<lparr>ls_selected := int i\<rparr>"

text \<open>The border of the marker of problem \<open>i\<close> and whether it is the selected one.\<close>

definition live_marker :: "live_statistics \<Rightarrow> nat \<Rightarrow> web_problem \<Rightarrow> string \<times> bool" where
  "live_marker s i p =
     (if int i \<le> ls_completed s
      then (if wp_difficulty p = 0 then ''border-green-500'' else if wp_difficulty p = 1 then ''border-yellow-500'' else ''border-red-500'')
      else (if wp_difficulty p = 0 then ''border-green-800'' else if wp_difficulty p = 1 then ''border-yellow-800'' else ''border-red-800''),
      int i = ls_selected s)"

definition problem_level :: "web_problem \<Rightarrow> string option" where
  "problem_level p =
     (if wp_difficulty p = 0 then Some ''Easy'' else if wp_difficulty p = 1 then Some ''Medium''
      else if wp_difficulty p = 2 then Some ''Hard'' else None)"

text \<open>\<open>username[0]?.toUpperCase()\<close>\<close>

definition avatar_letter :: "participant \<Rightarrow> string" where
  "avatar_letter p = (case to_str (p_username p) of [] \<Rightarrow> [] | c # _ \<Rightarrow> Round_Statistics.upper_char c)"

record problem_statistics =
  pst_heading :: string
  pst_level :: "string option"
  pst_tags :: "string list"
  pst_solving :: "string \<times> string list"
  pst_submitted :: "string \<times> string list"

text \<open>The panel of a problem; reading a problem that is not there throws.\<close>

definition ProblemStatistics :: "web_problem option \<Rightarrow> participant list \<Rightarrow> participant list \<Rightarrow> jv + problem_statistics" where
  "ProblemStatistics problem solvers submitters =
     (case problem of
        None \<Rightarrow> Inl type_error
      | Some p \<Rightarrow> Inr \<lparr>pst_heading = show_int (wp_id p) @ ''. '' @ wp_title p, pst_level = problem_level p, pst_tags = wp_tags p,
          pst_solving = (''Solving ('' @ show_nat (length solvers) @ '')'', map avatar_letter solvers),
          pst_submitted = (''Submitted ('' @ show_nat (length submitters) @ '')'', map avatar_letter submitters)\<rparr>)"

definition LiveStatistics ::
  "live_statistics \<Rightarrow> participant list \<Rightarrow> web_problem list \<Rightarrow> jv + (string \<times> bool) list \<times> problem_statistics" where
  "LiveStatistics s ps problem_list =
     (case ProblemStatistics (arr_at problem_list (ls_selected s)) (solving (ls_selected s) ps) (submitted (ls_selected s) ps) of
        Inl e \<Rightarrow> Inl e
      | Inr panel \<Rightarrow> Inr (map (\<lambda>(i, p). live_marker s i p) (enumerate 0 problem_list), panel))"

text \<open>A click on a marker shows its problem and lights its marker only.\<close>

lemma marker_selects:
  assumes "i < length problem_list"
  shows "\<exists>marks panel. LiveStatistics (live_step (ProblemSelected i) s) ps problem_list = Inr (marks, panel) \<and>
    pst_heading panel = show_int (wp_id (problem_list ! i)) @ ''. '' @ wp_title (problem_list ! i) \<and>
    map snd marks = map (\<lambda>j. j = i) [0..<length problem_list]"
proof -
  have "map (\<lambda>x. int (fst x) = int i) (enumerate n xs) = map (\<lambda>j. j = i) [n..<n + length xs]" for n :: nat and xs :: "web_problem list"
    by (induction xs arbitrary: n) (simp_all add: upt_conv_Cons del: upt_Suc)
  from this [of 0 problem_list] show ?thesis using assms
    by (simp add: LiveStatistics_def ProblemStatistics_def arr_at_def live_marker_def comp_def split_beta)
qed

text \<open>Without problems the statistics throw, and the count of completed problems leaves its range on both sides.\<close>

lemma no_problems_throw: "LiveStatistics liveInit ps [] = Inl type_error"
  by (simp add: LiveStatistics_def ProblemStatistics_def arr_at_def)

lemma completed_unbounded:
  "ls_completed (run live_step (replicate n DecrementProblem) liveInit) = - 1 - int n"
  "ls_completed (run live_step (replicate n IncrementProblem) liveInit) = int n - 1"
proof -
  have "ls_completed (run live_step (replicate n DecrementProblem) s) = ls_completed s - int n"
    "ls_completed (run live_step (replicate n IncrementProblem) s) = ls_completed s + int n" for s
    by (induction n arbitrary: s) simp_all
  then show "ls_completed (run live_step (replicate n DecrementProblem) liveInit) = - 1 - int n"
    "ls_completed (run live_step (replicate n IncrementProblem) liveInit) = int n - 1" by (simp_all add: liveInit_def)
qed

text \<open>Places are numbered with one ending: the twenty-first player is \<open>21th\<close>.\<close>

lemma place_twenty_one: "rank_of 20 = Place ''21th''"
  by code_simp

section \<open>The table of submissions\<close>

definition status_class :: "string \<Rightarrow> string" where
  "status_class status = ''font-medium '' @ (if status = ''Accepted'' then ''text-green-500'' else ''text-red-500'')"

lemma accepted_green: "status_class st = ''font-medium text-green-500'' \<longleftrightarrow> st = ''Accepted''"
  by (simp add: status_class_def)

end
