(* ===== verification/Create_Page.thy ===== *)
theory Create_Page
  imports Problem_Count Problem_Picker
begin

text \<open>
  The page that creates a room (\<open>pages/create-room-page.tsx\<close>): the choice of the profanity filter and the two tabs,
  of which only the selected one is mounted. It joins the wizard of \<open>Room_Choice\<close>, the live count of
  \<open>Problem_Count\<close> and the picker of \<open>Problem_Picker\<close>: the count follows the filters of the wizard, and the button
  that sends the request follows the count.
\<close>

section \<open>The page\<close>

text \<open>A request for a room as it was sent, with the tab and the count at that moment.\<close>

record creation =
  cn_body :: jv
  cn_tab :: filter_tab
  cn_available :: "int option"

text \<open>
  The tabs are mounted and unmounted by the tab component; \<open>cg_instance\<close> counts the mounts, so that the answers to
  what an earlier instance asked are told apart. The cache of the counts is a store and outlives them.
\<close>

record create_page =
  cg_profanity :: bool
  cg_choose :: bool
  cg_instance :: nat
  cg_filter :: filter_tab
  cg_count :: count_view
  cg_picker :: picker
  cg_created :: "creation list"
  cg_picked :: "jv list"

definition mount_filter :: "count_view \<Rightarrow> count_view" where
  "mount_filter v = count_effect (filters_of wizardInit) v"

definition unmount_filter :: "count_view \<Rightarrow> count_view" where
  "unmount_filter v = (count_cleanup v)\<lparr>cv_available := None, cv_loading := False\<rparr>"

definition createPageInit :: create_page where
  "createPageInit = \<lparr>cg_profanity = False, cg_choose = False, cg_instance = 0, cg_filter = filterTabInit,
     cg_count = mount_filter countViewInit, cg_picker = pickerInit, cg_created = [], cg_picked = []\<rparr>"

text \<open>
  The runs of the effect on the filters that an event leads to. The effect compares the two lists by reference, so a
  new list runs it again even with the same elements; and when the last company goes while only recent questions are
  asked for, it runs once before and once after the other effect has taken that choice back.
\<close>

definition effect_runs :: "tab_event \<Rightarrow> filter_tab \<Rightarrow> filter_tab \<Rightarrow> problem_count_filters list" where
  "effect_runs e t t' =
     (let f' = filters_of (ft_wizard t') in
      case e of
        TopicsSelected _ \<Rightarrow> [f']
      | CompaniesSelected cs \<Rightarrow>
          (if cs = [] \<and> rc_recentlyAsked (ft_wizard t) then [f'\<lparr>f_recentlyAsked := True\<rparr>] else []) @ [f']
      | ResetClicked \<Rightarrow> [f']
      | _ \<Rightarrow> (if f' = filters_of (ft_wizard t) then [] else [f']))"

definition on_tab :: "tab_event \<Rightarrow> create_page \<Rightarrow> create_page" where
  "on_tab e p =
     (let t' = tab_step e (cg_filter p) in
      p\<lparr>cg_filter := t', cg_count := fold count_effect (effect_runs e (cg_filter p) t') (cg_count p)\<rparr>)"

text \<open>The primary button: nothing when it is disabled, else the request is sent or the next section opened.\<close>

definition on_primary :: "create_page \<Rightarrow> create_page" where
  "on_primary p =
     (if primary_disabled (cv_available (cg_count p)) (cv_loading (cg_count p)) (cg_filter p) then p
      else (on_tab PrimaryClicked p)\<lparr>cg_created := cg_created p @
        (if showCreateLabel (cg_filter p)
         then [\<lparr>cn_body = with_profanity (cg_profanity p) (room_settings (ft_wizard (cg_filter p))),
           cn_tab = cg_filter p, cn_available = cv_available (cg_count p)\<rparr>]
         else [])\<rparr>)"

definition on_pick :: "create_page \<Rightarrow> create_page" where
  "on_pick p =
     (if pick_disabled (cg_picker p) then p
      else p\<lparr>cg_picker := pick_step PickClicked (cg_picker p), cg_picked := cg_picked p @
        (if problemIds (cg_picker p) = [] then []
         else [with_profanity (cg_profanity p) (picker_settings (cg_picker p))])\<rparr>)"

text \<open>Selecting the other tab: the one unmounts, with the cleanup of its effect, and the other starts afresh.\<close>

definition show_tab :: "bool \<Rightarrow> create_page \<Rightarrow> create_page" where
  "show_tab other p =
     (if other = cg_choose p then p
      else if other
      then p\<lparr>cg_choose := True, cg_instance := cg_instance p + 1, cg_picker := pickerInit, cg_count := unmount_filter (cg_count p)\<rparr>
      else p\<lparr>cg_choose := False, cg_instance := cg_instance p + 1, cg_filter := filterTabInit, cg_count := mount_filter (cg_count p)\<rparr>)"

text \<open>The events of a tab name the instance they belong to.\<close>

datatype create_event =
    TabEvent nat tab_event | PickEvent nat pick_event | CountTimer nat | CountArrived nat http
  | ProfanityToggled bool | TabShown bool

fun create_step :: "create_event \<Rightarrow> create_page \<Rightarrow> create_page" where
  "create_step (TabEvent i e) p =
     (if cg_choose p \<or> i \<noteq> cg_instance p then p else if e = PrimaryClicked then on_primary p else on_tab e p)"
| "create_step (PickEvent i e) p =
     (if \<not> cg_choose p \<or> i \<noteq> cg_instance p then p
      else if e = PickClicked then on_pick p else p\<lparr>cg_picker := pick_step e (cg_picker p)\<rparr>)"
| "create_step (CountTimer i) p = p\<lparr>cg_count := count_timeout i (cg_count p)\<rparr>"
| "create_step (CountArrived i ans) p = p\<lparr>cg_count := count_answer i ans (cg_count p)\<rparr>"
| "create_step (ProfanityToggled b) p = p\<lparr>cg_profanity := b\<rparr>"
| "create_step (TabShown other) p = show_tab other p"

section \<open>The count belongs to the filters\<close>

text \<open>
  What the count promises for the filters \<open>f\<close>: the run that is alive is theirs, and the count that is shown, when
  nothing is loading, is an answer for them.
\<close>

definition count_for :: "problem_count_filters \<Rightarrow> count_view \<Rightarrow> bool" where
  "count_for f v \<longleftrightarrow> (\<forall>i. alive i v \<longrightarrow> cr_key (cv_runs v ! i) = buildProblemCountKey f) \<and>
     (cv_loading v \<or> (\<forall>n. cv_available v = Some n \<longrightarrow> (buildProblemCountKey f, n) \<in> set (cv_answers v)))"

text \<open>An answer without an error; the effect's own abort is none.\<close>

fun count_replied :: "create_event \<Rightarrow> bool" where
  "count_replied (CountArrived i ans) = (case count_of_answer ans of Inl _ \<Rightarrow> False | Inr _ \<Rightarrow> True)"
| "count_replied _ = True"

lemma cr_key_set_status [simp]: "cr_key (cv_runs (set_status i st v) ! j) = cr_key (cv_runs v ! j)"
  by (cases "i < length (cv_runs v)") (auto simp: set_status_def nth_list_update list_update_beyond)

lemma alive_less: "alive i v \<Longrightarrow> i < length (cv_runs v)"
  by (auto simp: alive_def status_is_def)

lemma count_for_effect:
  assumes "count_inv v"
  shows "count_for f (count_effect f v)"
proof (cases "getCount (buildProblemCountKey f) (cv_cache (count_cleanup v))")
  case (Some n)
  with cleanup_dead [OF assms] count_invD(3) [OF assms] show ?thesis
    by (simp add: count_effect_def count_for_def Let_def cleanup_fields)
next
  case None
  have "\<not> alive i (count_cleanup v)" for i by (rule cleanup_dead [OF assms])
  then have dead: "i < length (cv_runs (count_cleanup v)) \<Longrightarrow> cr_status (cv_runs (count_cleanup v) ! i) \<notin> {Waiting, InFlight}" for i
    by (auto simp: alive_def status_is_def)
  with None show ?thesis
    by (auto simp: count_effect_def count_for_def Let_def alive_def status_is_def nth_append less_Suc_eq split: if_splits)
qed

lemma count_for_runs: "count_inv v \<Longrightarrow> count_for f (fold count_effect (fs @ [f]) v) \<and> count_inv (fold count_effect (fs @ [f]) v)"
  by (induction fs arbitrary: v) (simp_all add: count_for_effect count_inv_effect)

lemma count_for_timeout: "count_for f v \<Longrightarrow> count_for f (count_timeout i v)"
  by (cases "status_is i Waiting v")
     (auto simp: count_timeout_def count_for_def alive_def status_set, auto simp: status_is_def set_status_def nth_list_update)

lemma count_for_answer:
  assumes "count_for f v" "count_replied (CountArrived i ans)" "count_inv v"
  shows "count_for f (count_answer i ans v)"
proof (cases "status_is i InFlight v")
  case True
  then have "alive i v" by (simp add: alive_def)
  with assms have key: "cr_key (cv_runs v ! i) = buildProblemCountKey f" and
    dead: "\<not> alive j (set_status i Settled v)" for j
    using count_invD(1) [OF assms(3), of i] count_invD(1) [OF assms(3), of j] by (auto simp: count_for_def ended_alive)
  from assms(2) obtain c where "count_of_answer ans = Inr c"
    by (auto split: sum.splits)
  with True key dead show ?thesis
    by (cases c) (simp_all add: count_answer_def count_for_def Let_def)
qed (use assms in \<open>simp add: count_answer_def\<close>)

lemma mounted_count:
  "count_inv v \<Longrightarrow> count_for (filters_of wizardInit) (mount_filter v)" "count_inv v \<Longrightarrow> count_inv (mount_filter v)"
  "count_inv v \<Longrightarrow> count_inv (unmount_filter v)"
  by (simp_all add: mount_filter_def count_for_effect count_inv_effect)
     (simp add: unmount_filter_def count_inv_def cleanup_fields cleanup_dead)

section \<open>The invariant\<close>

lemma answers_grow:
  "set (cv_answers v) \<subseteq> set (cv_answers (count_effect f v))" "cv_answers (count_timeout i v) = cv_answers v"
  "set (cv_answers v) \<subseteq> set (cv_answers (count_answer i ans v))" "cv_answers (mount_filter v) = cv_answers v"
  "cv_answers (unmount_filter v) = cv_answers v"
  by (auto simp: count_effect_def count_timeout_def count_answer_def mount_filter_def unmount_filter_def cleanup_fields
      Let_def split: option.split sum.split)

lemma answers_effect: "cv_answers (fold count_effect fs v) = cv_answers v"
  by (induction fs arbitrary: v) (auto simp: count_effect_def cleanup_fields Let_def split: option.split)

lemma effect_runs_cases:
  "effect_runs e t t' = [] \<and> filters_of (ft_wizard t') = filters_of (ft_wizard t) \<or>
   (\<exists>fs. effect_runs e t t' = fs @ [filters_of (ft_wizard t')])"
  by (cases e) (simp_all add: effect_runs_def Let_def)

definition creation_ok :: "(string \<times> int) list \<Rightarrow> creation \<Rightarrow> bool" where
  "creation_ok answers c \<longleftrightarrow> reaches tab_step filterTabInit (cn_tab c) \<and>
     (\<exists>b. cn_body c = with_profanity b (room_settings (ft_wizard (cn_tab c)))) \<and>
     (\<forall>n. cn_available c = Some n \<longrightarrow> requestedTotal (ft_wizard (cn_tab c)) \<le> n \<and>
       (buildProblemCountKey (filters_of (ft_wizard (cn_tab c))), n) \<in> set answers)"

definition create_inv :: "create_page \<Rightarrow> bool" where
  "create_inv p \<longleftrightarrow> reaches tab_step filterTabInit (cg_filter p) \<and> pick_inv (cg_picker p) \<and> count_inv (cg_count p) \<and>
     (cg_choose p \<or> count_for (filters_of (ft_wizard (cg_filter p))) (cg_count p)) \<and>
     (\<forall>c \<in> set (cg_created p). creation_ok (cv_answers (cg_count p)) c)"

lemma creation_ok_mono: "creation_ok as c \<Longrightarrow> set as \<subseteq> set bs \<Longrightarrow> creation_ok bs c"
  by (auto simp: creation_ok_def)

lemma create_inv_init: "create_inv createPageInit"
  using mounted_count [OF count_inv_init]
  by (simp add: create_inv_def createPageInit_def reaches_refl filterTabInit_def pick_inv_def pickerInit_def)

lemma on_tab_inv: "create_inv p \<Longrightarrow> \<not> cg_choose p \<Longrightarrow> create_inv (on_tab e p)"
  using effect_runs_cases [of e "cg_filter p" "tab_step e (cg_filter p)"] count_for_runs [of "cg_count p"]
  by (auto simp: create_inv_def on_tab_def Let_def answers_effect intro: reaches_step)

lemma on_tab_fields:
  "cg_created (on_tab e p) = cg_created p" "cv_answers (cg_count (on_tab e p)) = cv_answers (cg_count p)"
  by (simp_all add: on_tab_def Let_def answers_effect)

lemma create_inv_created: "create_inv p \<Longrightarrow> \<forall>c \<in> set cs. creation_ok (cv_answers (cg_count p)) c \<Longrightarrow> create_inv (p\<lparr>cg_created := cs\<rparr>)"
  by (simp add: create_inv_def)

text \<open>A request that leaves was made with a count that is enough.\<close>

lemma sent_ok:
  assumes "create_inv p" "\<not> cg_choose p" "showCreateLabel (cg_filter p)"
    and "\<not> primary_disabled (cv_available (cg_count p)) (cv_loading (cg_count p)) (cg_filter p)"
  shows "creation_ok (cv_answers (cg_count p)) \<lparr>cn_body = with_profanity (cg_profanity p) (room_settings (ft_wizard (cg_filter p))),
     cn_tab = cg_filter p, cn_available = cv_available (cg_count p)\<rparr>"
  using assms by (auto simp: create_inv_def creation_ok_def count_for_def primary_disabled_def notEnoughProblems_def)

lemma on_primary_inv: "create_inv p \<Longrightarrow> \<not> cg_choose p \<Longrightarrow> create_inv (on_primary p)"
  using sent_ok [of p] on_tab_inv [of p PrimaryClicked]
  by (auto simp: on_primary_def on_tab_fields intro!: create_inv_created) (simp_all add: create_inv_def)

lemma on_pick_inv: "create_inv p \<Longrightarrow> create_inv (on_pick p)"
  using pick_inv_step [of "cg_picker p" PickClicked] by (simp add: on_pick_def create_inv_def)

lemma show_tab_inv: "create_inv p \<Longrightarrow> create_inv (show_tab other p)"
  by (simp add: create_inv_def show_tab_def mounted_count answers_grow reaches_refl filterTabInit_def pick_inv_def pickerInit_def)

lemma count_event_inv:
  "create_inv p \<Longrightarrow> create_inv (create_step (CountTimer i) p)"
  "create_inv p \<Longrightarrow> count_replied (CountArrived i ans) \<Longrightarrow> create_inv (create_step (CountArrived i ans) p)"
  using count_for_answer [of _ "cg_count p" i ans] answers_grow(3) [of "cg_count p" i ans]
  by (auto simp: create_inv_def count_for_timeout count_inv_timeout count_inv_answer answers_grow(2) intro: creation_ok_mono)

lemma create_inv_step: "count_replied e \<Longrightarrow> create_inv p \<Longrightarrow> create_inv (create_step e p)"
proof (cases e)
  case (PickEvent i pe)
  assume "create_inv p"
  then show ?thesis using pick_inv_step [of "cg_picker p" pe] on_pick_inv [of p] by (simp add: PickEvent) (simp add: create_inv_def)
next
  case (ProfanityToggled b)
  assume "create_inv p"
  then show ?thesis by (simp add: ProfanityToggled create_inv_def)
qed (simp_all add: on_tab_inv on_primary_inv show_tab_inv count_event_inv del: create_step.simps(3,4) count_replied.simps(1))

interpretation creating: guarded_machine count_replied create_step create_inv
  by unfold_locales (rule create_inv_step)

section \<open>What is requested\<close>


definition five_found :: http where
  "five_found = Response 200 (Some (JObj [(''data'', JNum 5)]))"

definition one_click :: "create_event list" where
  "one_click = [CountTimer 0, CountArrived 0 five_found, TabEvent 0 PrimaryClicked]"

lemma one_click_sends: "map cn_available (cg_created (run create_step one_click createPageInit)) = [Some 5]"
  by code_simp


text \<open>
  A request for the count that fails leaves the count of the filters before on the button, which then says that these
  are the problems for the new filters.
\<close>

definition failed_recount :: "create_event list" where
  "failed_recount = [CountTimer 0, CountArrived 0 five_found, TabEvent 0 (IncrementClicked Hard), CountTimer 1,
     CountArrived 1 (NetError (JObj [(''name'', JStr ''TypeError'')]))]"

lemma stale_count_after_failure:
  "let p = run create_step failed_recount createPageInit in
     primary_label (cv_available (cg_count p)) (cv_loading (cg_count p)) (cg_filter p) = ''Next (5 results)'' \<and>
     cv_answers (cg_count p) = [(buildProblemCountKey (filters_of wizardInit), 5)] \<and>
     buildProblemCountKey (filters_of (ft_wizard (cg_filter p))) \<noteq> buildProblemCountKey (filters_of wizardInit)"
  by code_simp

text \<open>
  The mark of a request that is on its way belongs to the tab: going to the other tab and back forgets it, with every
  choice made, and a second room can be asked for before the first is count_replied. The profanity filter is of the page
  and stays.
\<close>

lemma second_room_while_creating:
  "length (cg_created (run create_step (one_click @ [TabShown True, TabShown False, TabEvent 2 PrimaryClicked]) createPageInit)) = 2"
  "length (cg_created (run create_step (one_click @ [TabEvent 0 PrimaryClicked]) createPageInit)) = 1"
  by code_simp+

lemma other_tab_forgets:
  "\<not> cg_choose p \<Longrightarrow> cg_filter (run create_step [TabShown True, TabShown False] p) = filterTabInit"
  "\<not> cg_choose p \<Longrightarrow> cg_profanity (run create_step [TabShown True, TabShown False] p) = cg_profanity p"
  by (simp_all add: show_tab_def)

text \<open>An answer to a tab that is gone changes nothing of the tab that is there.\<close>

lemma late_creation_ignored: "i \<noteq> cg_instance p \<Longrightarrow> create_step (TabEvent i e) p = p \<and> create_step (PickEvent i pe) p = p"
  by simp

end
