(* ===== verification/Create_View.thy ===== *)
theory Create_View
  imports Create_Page Panel_Widgets Panel_Shell
begin

text \<open>
  What the pages for making a room put on the screen, as data: the sections of the filter tab, the picker, the page
  around them (\<open>customComponents/CreateRoom\<close>, \<open>pages/create-room-page.tsx\<close>), and the frame of every page with its
  footer (\<open>pages/_app.tsx\<close>, \<open>customComponents/Footer\<close>). An element carries the event that using it causes; icons and
  fixed styles are left out.
\<close>

section \<open>Elements\<close>

text \<open>
  A text with the class of its color, a button, a check box, a slider, and a box of chips: the values chosen, the text
  of the empty input, the values on offer with their labels.
\<close>

datatype 'e element =
    Caption string string
  | Button string bool 'e
  | CheckBox string bool bool "bool \<Rightarrow> 'e"
  | Slider int "nat \<Rightarrow> 'e"
  | ChipBox "string list" string "(string \<times> string) list" "string list \<Rightarrow> 'e"

datatype input = Click | Drag nat | Choose "string list"

fun use_element :: "input \<Rightarrow> 'e element \<Rightarrow> 'e option" where
  "use_element Click (Button _ enabled e) = (if enabled then Some e else None)"
| "use_element Click (CheckBox _ checked enabled f) = (if enabled then Some (f (\<not> checked)) else None)"
| "use_element (Drag k) (Slider _ f) = Some (f k)"
| "use_element (Choose vs) (ChipBox _ _ _ f) = Some (f vs)"
| "use_element _ _ = None"

fun disabled_event :: "'e element \<Rightarrow> 'e option" where
  "disabled_event (Button _ False e) = Some e"
| "disabled_event (CheckBox _ checked False f) = Some (f (\<not> checked))"
| "disabled_event _ = None"

section \<open>The sections of the filter tab\<close>

definition inc_dec_buttons :: "bool \<Rightarrow> 'e \<Rightarrow> 'e \<Rightarrow> 'e element list" where
  "inc_dec_buttons dis dec inc = [Button ''Down'' (\<not> dis) dec, Button ''Up'' (\<not> dis) inc]"

definition difficulty_str :: "Difficulty \<Rightarrow> string" where
  "difficulty_str d = (case d of Easy \<Rightarrow> ''Easy'' | Medium \<Rightarrow> ''Medium'' | Hard \<Rightarrow> ''Hard'')"

definition getColorClass :: "bool \<Rightarrow> Difficulty \<Rightarrow> string" where
  "getColorClass dis d =
     (if dis then ''text-gray-500''
      else case d of Easy \<Rightarrow> ''text-green-500'' | Medium \<Rightarrow> ''text-yellow-500'' | Hard \<Rightarrow> ''text-red-500'')"

definition difficulty_label :: "Difficulty \<Rightarrow> int \<Rightarrow> bool \<Rightarrow> 'e element" where
  "difficulty_label d n dis = Caption (getColorClass dis d) (difficulty_str d @ '': '' @ show_int n)"

definition difficulty_row :: "wizard \<Rightarrow> Difficulty \<Rightarrow> tab_event element list" where
  "difficulty_row s d = difficulty_label d (get_num d s) (rc_anyDifficulty s) #
     inc_dec_buttons (rc_anyDifficulty s) (DecrementClicked d) (IncrementClicked d)"

definition ProblemCountSection :: "wizard \<Rightarrow> tab_event element list" where
  "ProblemCountSection s = concat (map (difficulty_row s) [Easy, Medium, Hard]) @
     [CheckBox (''Any Difficulty: '' @ show_int (rc_anyDifficultyCount s)) (rc_anyDifficulty s) True AnyChecked] @
     inc_dec_buttons False AnyLessClicked AnyMoreClicked"

definition ProblemListSection :: "wizard \<Rightarrow> tab_event element list" where
  "ProblemListSection s =
     [CheckBox ''Select problems from the Blind 75'' (rc_blind75 s) True Blind75Checked,
      Caption ''field-description'' ''The best practice questions to prepare for algorithmic coding interviews'',
      CheckBox ''Select problems from the Neetcode 150'' (rc_neetcode150 s) True Neetcode150Checked,
      Caption ''field-description'' ''Problems sourced from neetcode.io'',
      CheckBox ''Exclude paid problems'' (rc_excludePaid s) True ExcludePaidChecked,
      Caption ''field-description'' ''Skip LeetCode Premium problems, which need a subscription to open'']"

definition TopicSelectSection :: "wizard \<Rightarrow> tab_event element list" where
  "TopicSelectSection s =
     [ChipBox (rc_selectedTopics s) (if rc_selectedTopics s \<noteq> [] then [] else ''e.g. Array, Dynamic Programming...'')
        (map (\<lambda>v. (to_str v, topic_label (topicCounts s) (to_str v))) (rc_topics s)) TopicsSelected]"

definition CompanySelectSection :: "wizard \<Rightarrow> tab_event element list" where
  "CompanySelectSection s =
     (let hasCompanySelected = rc_selectedCompanies s \<noteq> [] in
      [ChipBox (rc_selectedCompanies s) (if hasCompanySelected then [] else ''e.g. Google, Amazon...'')
         (map (\<lambda>v. (to_str v, to_str v)) (rc_companies s)) CompaniesSelected,
       CheckBox [] (rc_recentlyAsked s) hasCompanySelected RecentlyChecked,
       Button ''Recently asked'' hasCompanySelected (RecentlyChecked (\<not> rc_recentlyAsked s))])"

definition DurationPicker :: "int \<Rightarrow> (nat \<Rightarrow> 'e) \<Rightarrow> 'e element list" where
  "DurationPicker duration f = [Caption ''text-foreground/60'' (show_int duration @ '' mins''), Slider duration f]"

definition FormErrorMessage :: "string option \<Rightarrow> 'e \<Rightarrow> 'e element list" where
  "FormErrorMessage message dismiss =
     (case message of
        None \<Rightarrow> []
      | Some m \<Rightarrow> if m = [] then [] else [Caption ''text-red-200'' m, Button ''Dismiss error'' True dismiss])"

text \<open>The header of each section, as the accordion lists them, and the content of the one that is open.\<close>

definition section_header :: "wizard \<Rightarrow> string \<Rightarrow> tab_event element list" where
  "section_header s v =
     (if v = ''problems''
      then [Button ''Number of Problems'' True (SectionOpened v),
            Caption ''text-gray-500'' (show_int (requestedTotal s) @ '' problem'' @ plural (requestedTotal s))]
      else if v = ''lists'' then [Button ''Pick from a list'' True (SectionOpened v)]
      else if v = ''topics'' then [Button ''Select topics'' True (SectionOpened v)]
      else if v = ''companies'' then [Button ''Select Companies'' True (SectionOpened v)]
      else [Button ''Duration'' True (SectionOpened v), Caption ''text-gray-500'' (show_int (rc_duration s) @ '' minutes'')])"

definition section_content :: "wizard \<Rightarrow> string \<Rightarrow> tab_event element list" where
  "section_content s v =
     (if v = ''problems'' then ProblemCountSection s
      else if v = ''lists'' then ProblemListSection s
      else if v = ''topics'' then TopicSelectSection s
      else if v = ''companies'' then CompanySelectSection s
      else DurationPicker (rc_duration s) DurationMoved)"

definition FilterProblemsTab :: "int option \<Rightarrow> bool \<Rightarrow> filter_tab \<Rightarrow> tab_event element list" where
  "FilterProblemsTab availableCount isLoadingFilter t =
     concat (map (\<lambda>(i, v). section_header (ft_wizard t) v @ (if i = ft_step t then section_content (ft_wizard t) v else []))
       (enumerate 0 SECTIONS)) @
     FormErrorMessage (rc_formError (ft_wizard t)) ErrorDismissed @
     [Button ''Reset'' True ResetClicked,
      Button (primary_label availableCount isLoadingFilter t) (\<not> primary_disabled availableCount isLoadingFilter t) PrimaryClicked] @
     (case shortage_message availableCount isLoadingFilter t of None \<Rightarrow> [] | Some m \<Rightarrow> [Caption ''text-red-500'' m])"

definition ChooseProblemsTab :: "picker \<Rightarrow> pick_event element list" where
  "ChooseProblemsTab s =
     [Caption ''text-foreground'' ''Pick your problems'',
      Caption ''text-foreground/60'' (show_nat (length (pk_selected s)) @ ''/'' @ show_nat MAX_CHOSEN_PROBLEMS),
      ChipBox (pk_selected s) (pick_placeholder s) (map (\<lambda>v. (to_str v, to_str v)) (problemNames s)) NamesSelected] @
     (if atLimit s
      then [Caption ''text-foreground/60'' (''That's the max of '' @ show_nat MAX_CHOSEN_PROBLEMS @ '' problems - remove one to swap it out.'')]
      else []) @
     DurationPicker (pk_duration s) PickDurationMoved @
     FormErrorMessage (pk_formError s) PickErrorDismissed @
     [Button ''Reset'' True PickReset,
      Button (if pk_isSubmitting s then ''Creating...'' else ''Create'') (\<not> pick_disabled s) PickClicked]"

text \<open>The whole page; \<open>None\<close> is the button that goes back to the choice of a room.\<close>

definition CreateRoomPage :: "create_page \<Rightarrow> create_event option element list" where
  "CreateRoomPage p =
     [Caption ''text-foreground'' ''Create a Room'', Button ''Cancel'' True None,
      Caption ''text-foreground/50'' ''Block chat messages that contain profanity'',
      CheckBox ''Profanity filter'' (cg_profanity p) True (\<lambda>b. Some (ProfanityToggled b)),
      Button ''Filter'' True (Some (TabShown False)), Button ''Choose'' True (Some (TabShown True))] @
     (if cg_choose p
      then map (map_element (\<lambda>e. Some (PickEvent (cg_instance p) e))) (ChooseProblemsTab (cg_picker p))
      else map (map_element (\<lambda>e. Some (TabEvent (cg_instance p) e)))
        (FilterProblemsTab (cv_available (cg_count p)) (cv_loading (cg_count p)) (cg_filter p)))"

section \<open>What the page says and does\<close>

lemma disabled_map: "disabled_event (map_element g el) = map_option g (disabled_event el)"
  by (cases el rule: disabled_event.cases) simp_all

lemma disabled_captions [simp]:
  "disabled_event (difficulty_label d n dis) = None" "disabled_event (Button l True e) = None"
  "disabled_event (Button l b e) = (if b then None else Some e)"
  "disabled_event (CheckBox l c b f) = (if b then None else Some (f (\<not> c)))"
  by (cases b; simp add: difficulty_label_def)+

lemma error_enabled: "el \<in> set (FormErrorMessage m e) \<Longrightarrow> disabled_event el = None"
  by (auto simp: FormErrorMessage_def split: option.splits if_splits)

lemma duration_enabled: "el \<in> set (DurationPicker d f) \<Longrightarrow> disabled_event el = None"
  by (auto simp: DurationPicker_def)

lemma header_enabled: "el \<in> set (section_header s v) \<Longrightarrow> disabled_event el = None"
  by (auto simp: section_header_def split: if_splits)

lemma content_disabled:
  assumes "el \<in> set (section_content (ft_wizard t) v)" "disabled_event el = Some e"
  shows "e \<noteq> PrimaryClicked \<and> tab_step e t = t \<and> effect_runs e t t = []"
  using assms
  by (auto simp: section_content_def ProblemCountSection_def difficulty_row_def inc_dec_buttons_def ProblemListSection_def
      TopicSelectSection_def CompanySelectSection_def Let_def duration_enabled effect_runs_def split: if_splits)

lemma filter_disabled:
  assumes "el \<in> set (FilterProblemsTab availableCount loading t)" "disabled_event el = Some e"
  shows "(e = PrimaryClicked \<and> primary_disabled availableCount loading t) \<or> (e \<noteq> PrimaryClicked \<and> tab_step e t = t \<and> effect_runs e t t = [])"
  using assms content_disabled [of el t]
  by (auto simp: FilterProblemsTab_def header_enabled error_enabled split: if_splits option.splits)

lemma choose_disabled:
  assumes "el \<in> set (ChooseProblemsTab s)" "disabled_event el = Some e"
  shows "e = PickClicked \<and> pick_disabled s"
  using assms by (auto simp: ChooseProblemsTab_def duration_enabled error_enabled split: if_splits)

text \<open>A control that the page shows as disabled does nothing when it is used.\<close>

lemma disabled_does_nothing:
  assumes "el \<in> set (CreateRoomPage p)" "disabled_event el = Some (Some e)"
  shows "create_step e p = p"
proof (cases "cg_choose p")
  case True
  then obtain x pe where "x \<in> set (ChooseProblemsTab (cg_picker p))" "disabled_event x = Some pe" "e = PickEvent (cg_instance p) pe"
    using assms by (auto simp: CreateRoomPage_def disabled_map)
  with choose_disabled [of x "cg_picker p" pe] show ?thesis by (simp add: on_pick_def)
next
  case False
  let ?tab = "FilterProblemsTab (cv_available (cg_count p)) (cv_loading (cg_count p)) (cg_filter p)"
  from False obtain x te where "x \<in> set ?tab" "disabled_event x = Some te" "e = TabEvent (cg_instance p) te"
    using assms by (auto simp: CreateRoomPage_def disabled_map)
  with filter_disabled [of x _ _ "cg_filter p" te] show ?thesis
    by (auto simp: on_primary_def on_tab_def)
qed

text \<open>The headers of the sections say what a request for a room would ask for.\<close>

lemma headers_tell_request:
  "Caption ''text-gray-500'' (show_int (requestedTotal (ft_wizard t)) @ '' problem'' @ plural (requestedTotal (ft_wizard t)))
     \<in> set (FilterProblemsTab availableCount loading t)"
  "Caption ''text-gray-500'' (show_int (rc_duration (ft_wizard t)) @ '' minutes'') \<in> set (FilterProblemsTab availableCount loading t)"
  by (simp_all add: FilterProblemsTab_def SECTIONS_def section_header_def)

text \<open>A shortage is shown only beside a disabled button.\<close>

lemma shortage_disables:
  "shortage_message availableCount loading t = Some m \<Longrightarrow> primary_disabled availableCount loading t"
  by (auto simp: shortage_message_def primary_disabled_def split: option.splits if_splits)

section \<open>The frame of the pages\<close>

text \<open>
  The parts of the frame and whether they are visible: folding hides them by a class, so they stay mounted with
  their state.
\<close>

datatype frame_part = SidebarPart | HeaderPart | ToolbarPart | ContentPart | FooterPart

definition app_frame :: "bool \<Rightarrow> bool \<Rightarrow> (frame_part \<times> bool) list" where
  "app_frame folded inRoom =
     (SidebarPart, folded) # map (\<lambda>q. (q, \<not> folded))
       ([HeaderPart] @ (if inRoom then [ToolbarPart] else []) @ [ContentPart, FooterPart])"

definition visible_parts :: "bool \<Rightarrow> bool \<Rightarrow> frame_part list" where
  "visible_parts folded inRoom = map fst (filter snd (app_frame folded inRoom))"

lemma frame_visible:
  "visible_parts True inRoom = [SidebarPart]"
  "visible_parts False inRoom = HeaderPart # (if inRoom then [ToolbarPart] else []) @ [ContentPart, FooterPart]"
  by (simp_all add: visible_parts_def app_frame_def)

lemma folding_keeps_mounted: "map fst (app_frame folded inRoom) = map fst (app_frame folded' inRoom)"
  by (simp add: app_frame_def)

text \<open>What the pointer does on the frame: to the hover of the panel store, to the mark of being active, and the messages sent.\<close>

datatype pointer = Enters | Leaves | Presses

fun frame_pointer :: "pointer \<Rightarrow> panel_store \<times> bool \<times> panel_message list \<Rightarrow> panel_store \<times> bool \<times> panel_message list" where
  "frame_pointer Enters (s, active, sent) = (setIsPanelHovered True s, active, sent)"
| "frame_pointer Leaves (s, active, sent) = (setIsPanelHovered False s, active, sent)"
| "frame_pointer Presses (s, active, sent) = (s, True, sent @ [MActive])"

section \<open>The footer\<close>

datatype footer_event = CopyCode jv | FooterAction footer_action

record footer_button =
  fo_tooltip :: string
  fo_text :: jv
  fo_class :: string
  fo_visible :: bool
  fo_event :: footer_event

definition Footer :: "bool \<Rightarrow> room_store \<Rightarrow> bool \<Rightarrow> jv \<Rightarrow> copier \<Rightarrow> footer_button list" where
  "Footer inRoom r loggedIn github c =
     [\<lparr>fo_tooltip = copy_tooltip c, fo_text = roomCode r, fo_class = (if isConnected r then ''bg-green-500'' else ''bg-red-500''),
        fo_visible = inRoom, fo_event = CopyCode (roomCode r)\<rparr>,
      \<lparr>fo_tooltip = ''Rate our extension'', fo_text = JStr [], fo_class = ''text-foreground/60'', fo_visible = True,
        fo_event = FooterAction (OpenPage ''https://chromewebstore.google.com/detail/bsg/mnllpknljobnjmbaognpclblmpfcllmc'')\<rparr>,
      \<lparr>fo_tooltip = ''Give us feedback'', fo_text = JStr [], fo_class = ''text-foreground/60'', fo_visible = True,
        fo_event = FooterAction (OpenPage ''https://acmutd.typeform.com/to/R0knpSwj'')\<rparr>,
      \<lparr>fo_tooltip = github_tooltip loggedIn github, fo_text = JStr [],
        fo_class = (if truthy (opt_get github ''connected'') then ''text-green-500'' else ''text-foreground/60''), fo_visible = True,
        fo_event = FooterAction (github_click loggedIn github)\<rparr>]"

text \<open>The code that is shown is the code that is copied, and it is shown only in a room.\<close>

lemma footer_copies_shown:
  "b \<in> set (Footer inRoom r loggedIn github c) \<Longrightarrow> fo_event b = CopyCode v \<Longrightarrow> fo_text b = v \<and> fo_visible b = inRoom \<and> v = roomCode r"
  by (auto simp: Footer_def)

section \<open>The other pages\<close>

definition LoginPage :: "jv \<Rightarrow> string element list" where
  "LoginPage browser =
     [Caption ''text-foreground'' ''Binary Search Gang'', Caption ''text-foreground/40'' ''Collaborative LeetCode''] @
     (if shields_notice browser
      then [Caption ''text-foreground/60'' ''Turn off Shields for this site. Brave blocks the Google login popup. Use the lion icon in the address bar.'']
      else []) @
     [Button ''Sign in with Google'' True ''google'']"

definition DefaultPopup :: "bool option \<Rightarrow> string element list" where
  "DefaultPopup isOnLeetCode =
     Caption ''rgb(var(--primary))'' ''BSG'' #
     (case popup_button isOnLeetCode of
        None \<Rightarrow> [Caption [] ''You are on LeetCode. Go to a problem to open up the side panel!'']
      | Some url \<Rightarrow> [Caption [] (''You are not on LeetCode. Once you go to the website you can open up the side '' @
            ''panel to start solving!''), Button ''Go to LeetCode'' True url])"

text \<open>Until the browser has answered, the popup says that the user is elsewhere.\<close>

lemma popup_before_answer: "DefaultPopup None = DefaultPopup (Some False)"
  by (simp add: DefaultPopup_def popup_button_def)

record participant_row =
  pw_photo :: jv
  pw_name :: jv
  pw_crown :: bool
  pw_dot :: string

definition RoomInfoDisplay :: "room_store \<Rightarrow> participant_row list" where
  "RoomInfoDisplay r =
     (let isConnected = True in
      map (\<lambda>u. \<lparr>pw_photo = au_photo u, pw_name = au_name u, pw_crown = has_crown (adminId r) u,
        pw_dot = (if isConnected then ''bg-green-500'' else ''bg-red-500'')\<rparr>) (participants r))"

text \<open>Everybody is listed once, in the order of the store; the dot is green for all, connected or not.\<close>

lemma everybody_listed: "map pw_name (RoomInfoDisplay r) = map au_name (participants r)"
  by (simp add: RoomInfoDisplay_def)

lemma dots_always_green: "row \<in> set (RoomInfoDisplay r) \<Longrightarrow> pw_dot row = ''bg-green-500''"
  by (auto simp: RoomInfoDisplay_def)

lemma filter_at_most_one:
  "distinct (map f xs) \<Longrightarrow> (\<And>x. x \<in> set xs \<Longrightarrow> P x \<Longrightarrow> f x = a) \<Longrightarrow> length (filter P xs) \<le> 1"
proof (induction xs)
  case (Cons x xs)
  then show ?case
    by (cases "P x") (auto simp: filter_empty_conv dest!: sym [of _ a])
qed simp

lemma strict_eq_str: "strict_eq (JStr i) v \<longleftrightarrow> v = JStr i"
  by (cases v) auto

lemma one_crown:
  assumes "distinct (map au_id (participants r))" "\<forall>u \<in> set (participants r). \<exists>i. au_id u = JStr i"
  shows "length (filter pw_crown (RoomInfoDisplay r)) \<le> 1"
proof -
  have "length (filter (has_crown (adminId r)) (participants r)) \<le> 1"
    using assms by (intro filter_at_most_one [of au_id _ _ "adminId r"]) (auto simp: has_crown_def strict_eq_str)
  then show ?thesis by (simp add: RoomInfoDisplay_def filter_map comp_def)
qed

end
