(* ===== verification/Spec2Isabelle.thy ===== *)
theory Spec2Isabelle
  imports Chat_Socket Chat_View Room_Choice Problem_Count Problem_Picker Session Round_Views Round_Progress Round_Statistics
    Toolbar Timer_Form Panel_Layout Panel_Shell Panel_Widgets Page_Script Web_App Build_Script
    Rate_Limit Request_Checks Accounts Gateway_App Submission_Path
    Panel_Mount Login_Flow Rankings_View UI_Kit Panel_View Web_View Create_Page Create_View
begin

text \<open>
  Verification library of Binary Search Gang: rooms in which a group solves LeetCode problems together.

  \<^bold>\<open>The program.\<close> A browser extension puts a panel beside LeetCode. Its parts run apart and talk by messages:
  the panel itself, a Next.js page in a frame (\<open>src/bsg-frontend/apps/extension\<close>); the content script on the LeetCode
  page with the script it injects (\<open>src/bsg-frontend/extension/contentScript.js\<close>, \<open>injected.js\<close>); and the service worker
  with its offscreen document (\<open>background.js\<close>, \<open>offscreen.js\<close>). They share \<open>chrome.storage\<close>. The panel and the worker
  send their requests to the gateway (\<open>src/server/src\<close>, Express), which checks the session, limits the rate and
  forwards to the central service; both keep a WebSocket to the RTC service. A web application
  (\<open>src/bsg-frontend/apps/web\<close>) shares components with the panel (\<open>src/bsg-frontend/packages\<close>).

  \<^bold>\<open>The ground.\<close> \<open>BSG_Prelude\<close> has the theorem collections and the string functions, \<open>JS_Value\<close> the dynamic values
  of JavaScript (numbers are integers; sizes in pixels are rationals), \<open>JSON_Codec\<close> \<open>JSON.stringify\<close> and \<open>JSON.parse\<close>
  with their round trip, \<open>Form_Encoding\<close> the query strings, \<open>JS_Date\<close> the time of a date, \<open>Machine\<close> the interface of
  all stateful components with reachability and debouncing, \<open>Retry\<close> the shared discipline of repeated requests. \<open>World\<close>
  is the state that the panel's scripts share, with the monad of its effects: a handler is a function from the world to
  an error or a value and the world after it, with a trace of what it did. \<open>Server_World\<close> is the same for the gateway.

  \<^bold>\<open>The panel.\<close> \<open>Stores\<close> are the five stores (\<open>stores/*.ts\<close>), a record and a function for each action. \<open>Navigation\<close>
  is \<open>utils/navigation.ts\<close> and the door through which the LeetCode tab is moved, \<open>Room_Init\<close> joining, creating and
  restoring a room (\<open>hooks/useRoomInit.ts\<close>), \<open>Room_Events\<close> the game events (\<open>useRoomEvents.ts\<close>), \<open>Chat_Socket\<close> the
  chat's socket (\<open>useChatSocket.ts\<close>) and \<open>Chat_View\<close> what the chat shows (\<open>ChatDisplay.tsx\<close>, \<open>Toast.tsx\<close>). \<open>Session\<close> is
  signing in and out, the configuration and the GitHub connection (\<open>useLogin.ts\<close>, \<open>useSessionInit.ts\<close>, \<open>lib/config.ts\<close>,
  \<open>useGitHubConnection.ts\<close>, \<open>useJoinRoom.ts\<close>). \<open>Room_Choice\<close>, \<open>Problem_Count\<close> and \<open>Problem_Picker\<close> are the two ways to
  make a room (\<open>useRoomChoice.ts\<close>, \<open>useProblemPicker.ts\<close>, \<open>customComponents/CreateRoom\<close>), which \<open>Create_Page\<close> joins:
  the count follows the filters, the button follows the count, and only one of the two tabs is mounted
  (\<open>pages/create-room-page.tsx\<close>). \<open>Round_Views\<close> are countdown,
  statistics, leaderboard and touched problems; \<open>Round_Statistics\<close> what \<open>StatisticsDisplay.tsx\<close>, \<open>ProblemProgress.tsx\<close>
  and \<open>LeaderboardDisplay.tsx\<close> compute from them. \<open>Toolbar\<close> steps through the round, \<open>Timer_Form\<close> changes its duration,
  \<open>Panel_Shell\<close> is the frame of the pages (\<open>pages/_app.tsx\<close>, \<open>TabBar\<close> and the hooks about the panel), \<open>Panel_Widgets\<close>
  the rest (\<open>useCopyCode.ts\<close>, the footer, the other pages).

  \<^bold>\<open>What the user sees.\<close> The views turn the state of the components into what is on the screen: which elements there
  are, with which text, icon, color class and handler. \<open>Rankings_View\<close> is the page of the leaderboard and the page of the
  statistics (\<open>LeaderboardDisplay.tsx\<close>, \<open>StatisticsDisplay.tsx\<close>): everybody is ranked once, the cards agree with the
  rows. \<open>Panel_View\<close> is the header bar, the sidebar, the toolbar, the progress of a round and the settings
  (\<open>customComponents/TabBar\<close>, \<open>Navigation\<close>, \<open>SettingsDisplay\<close>): the two bars agree on the selected tab and on
  what a click does. \<open>Create_View\<close> is the page that makes a room with all its sections, the frame of the pages and the
  footer (\<open>customComponents/CreateRoom\<close>, \<open>pages/_app.tsx\<close>, \<open>Footer.tsx\<close>): an element carries its event, a disabled control
  does nothing, and the headers say what would be requested. \<open>UI_Kit\<close> are the shared components that compute something (\<open>ui/chart.tsx\<close>, \<open>form.tsx\<close>,
  \<open>field.tsx\<close>): colors, labels and lists of errors.

  \<^bold>\<open>The scripts.\<close> \<open>Panel_Layout\<close> is the geometry of the panel and \<open>Page_Script\<close> the rest of the content script and the
  injected script; \<open>Panel_Mount\<close> is the set-up of the content script: what has to be on the LeetCode page before the panel
  is put there, what the set-up throws when it is not, and the bars by which the panel is dragged; \<open>Touch_Queue\<close>
  the chain of storage writes in the worker, one event per resumption, and \<open>Worker\<close> the worker with its offscreen
  document.

  \<^bold>\<open>The gateway.\<close> \<open>Gateway\<close> are the forwarding routes (\<open>routes/rooms.js\<close>, \<open>problems.js\<close>, \<open>statistics.js\<close>), \<open>Submission\<close>
  the submissions and the push to GitHub (\<open>routes/submission.js\<close>, \<open>config/github.js\<close>), \<open>Accounts\<close> the accounts
  (\<open>routes/auth.js\<close>, \<open>config/passport.js\<close>), \<open>Rate_Limit\<close> and \<open>Request_Checks\<close> the middlewares, \<open>Gateway_App\<close> the
  application of \<open>index.js\<close> that puts them in order, with the structured logger. \<open>Login_Flow\<close> are the routes by which a
  browser signs in with GitHub or Google: from the strategy's answer to the session that later requests are read from.

  \<^bold>\<open>The web application.\<close> \<open>Web_App\<close> is the dashboard and the shared components with a state of their own,
  \<open>Web_View\<close> what the dashboard, the rooms, the live statistics and the list of submissions show,
  \<open>Build_Script\<close> the extraction of inline scripts from the exported pages.

  \<^bold>\<open>Across the parts.\<close> \<open>Submission_Path\<close> follows a solution from the editor over page and worker to the gateway's
  requests, and the chosen filters to the central service. \<open>Round_Progress\<close> joins panel, worker and content script for
  the touched problems. \<open>Panel_Shell\<close> joins the sidebar, the content script and the observer of the panel's size, and
  the theme on both sides of the frame. \<open>Gateway_App\<close> shows that the paths of the panel's requests reach their routes.

  \<^bold>\<open>What the lemmas show.\<close> Each stateful component is a step function over the resumptions of the event loop (a click, an
  answer, a timer, a storage change): an \<open>await\<close> splits a handler into one step that sends and one that takes the answer,
  which may come late, out of order or never. Its invariant is proved for each step and lifted to all sequences by the
  locale \<open>machine\<close>, \<open>guarded_machine\<close> (for steps under a condition on the environment) or \<open>bounded_machine\<close>. Other
  locales are the contracts that two parts of the program share: \<open>codec\<close> (JSON), \<open>retrying\<close> (every loader with
  retries), \<open>difficulty_counters\<close> (the wizard's counters and those of the shared component), \<open>storage_area\<close>. For the
  operations the lemmas give the result on every branch, errors included. \<open>Rate_Limit\<close> and \<open>Touch_Queue\<close> have
  abstract specifications, a log of the requests of a window and the serial execution of the mutations, that the detailed
  models refine.

  \<^bold>\<open>Bounds and fuel.\<close> The JSON parser has the fuel \<open>2 * length + 1\<close>, which its lemmas show to be enough for every text the
  encoder produces; loaders make at most four requests; all other recursions are structural or have a measure.

  \<^bold>\<open>Parameters.\<close> Code outside the repository is an argument of the model: the answers of the servers to a request
  given what was sent before, \<open>chrome\<close> APIs that may fail, the draws of \<open>Math.random\<close>, the layout engine's sizes, the Redis
  client, Passport, the session store, Express's answer to an unknown path, the test of e-mail addresses.

  \<^bold>\<open>Not modelled.\<close> Markup, styles and icons, and components that only lay out what they are given; the wrappers around
  third-party widgets (the combobox among them) in \<open>packages/components/ui\<close>; pages of static text or sample data (landing page, privacy, the
  problem page and the table of submissions of the web application, whose behaviour is that of third-party editors and
  tables, apart from the class of a status) and its unfinished authentication context; the services in Go (central, RTC, worker), whose answers are
  parameters; test code. Floating-point arithmetic is replaced by rationals, Unicode beyond Latin-1 is outside the type
  of characters.
\<close>

end
